(* ===== verification/Prelude.thy ===== *)
theory Prelude
  imports Complex_Main "HOL-Library.AList" "HOL-Library.Word"
begin

text \<open>
  Shared ground of the development: Go's machine integers with their wrap-around, Go's
  \<open>for\<close> loops as a combinator with its invariant, termination and simulation rules, and the
  facts on lists, options and association lists that several components use.

  The named collections: \<open>engine_defs\<close> gathers the definitions that unfold when one step of
  the graph engine is evaluated, \<open>store_simps\<close> the equations of the stores' operations.
\<close>

named_theorems engine_defs
named_theorems store_simps

section \<open>Machine integers\<close>

text \<open>
  Go's \<open>int\<close> (on the 64-bit platforms the module is built for) and \<open>int64\<close> are integers
  that wrap at 64 bits. A counter is kept as an \<open>int\<close> and every increment goes through
  \<open>wrap64\<close>.
\<close>

definition wrap64 :: "int \<Rightarrow> int" where
  "wrap64 x = (x + 2 ^ 63) mod 2 ^ 64 - 2 ^ 63"

definition max_int64 :: int where
  "max_int64 = 2 ^ 63 - 1"

definition in_int64 :: "int \<Rightarrow> bool" where
  "in_int64 x \<longleftrightarrow> - (2 ^ 63) \<le> x \<and> x \<le> max_int64"

lemma wrap64_id: "in_int64 x \<Longrightarrow> wrap64 x = x"
  by (simp add: in_int64_def wrap64_def max_int64_def)

lemma wrap64_range: "in_int64 (wrap64 x)"
  by (simp add: in_int64_def wrap64_def max_int64_def)

lemma wrap64_succ:
  assumes "0 \<le> x" "x < max_int64"
  shows "wrap64 (x + 1) = x + 1"
  using assms by (intro wrap64_id) (simp add: in_int64_def max_int64_def)

text \<open>Go's integer division truncates towards zero.\<close>

definition go_div :: "int \<Rightarrow> int \<Rightarrow> int" where
  "go_div a b = sgn a * sgn b * (\<bar>a\<bar> div \<bar>b\<bar>)"

lemma go_div_pos: "0 \<le> a \<Longrightarrow> 0 < b \<Longrightarrow> go_div a b = a div b"
  by (cases "a = 0") (simp_all add: go_div_def)

section \<open>Time\<close>

text \<open>
  A \<open>time.Time\<close> is the number of nanoseconds since Go's zero time (January 1, year 1, UTC),
  so \<open>IsZero\<close> is a comparison with 0; a \<open>time.Duration\<close> is a number of nanoseconds.
\<close>

type_synonym gotime = int
type_synonym duration = int

abbreviation millisecond :: duration where "millisecond \<equiv> 1000000"
abbreviation second :: duration where "second \<equiv> 1000000000"

section \<open>Loops\<close>

text \<open>
  A Go \<open>for\<close> loop whose body either leaves the function with a result (\<open>Inl\<close>) or goes
  round again with a new loop state (\<open>Inr\<close>). The loop may run for ever: then its value is
  \<open>None\<close>.
\<close>

partial_function (option) go_loop :: "('s \<Rightarrow> 'r + 's) \<Rightarrow> 's \<Rightarrow> 'r option" where
  "go_loop body s = (case body s of Inl r \<Rightarrow> Some r | Inr s' \<Rightarrow> go_loop body s')"

lemma go_loop_done: "body s = Inl r \<Longrightarrow> go_loop body s = Some r"
  by (simp add: go_loop.simps)

lemma go_loop_next: "body s = Inr s' \<Longrightarrow> go_loop body s = go_loop body s'"
  by (subst go_loop.simps) simp

text \<open>The loop with a number of rounds to unroll, to evaluate it on a concrete input.\<close>

definition go_unrolled :: "nat \<Rightarrow> ('s \<Rightarrow> 'r + 's) \<Rightarrow> 's \<Rightarrow> 'r option" where
  "go_unrolled n body s = go_loop body s"

lemma go_unrolled_Suc:
  "go_unrolled (Suc n) body s
    = (case body s of Inl r \<Rightarrow> Some r | Inr s' \<Rightarrow> go_unrolled n body s')"
  unfolding go_unrolled_def by (rule go_loop.simps)

text \<open>Partial correctness: an invariant kept by every round holds when the loop is left.\<close>

lemma go_loop_invariant:
  fixes body :: "'s \<Rightarrow> 'r + 's"
  assumes ret: "go_loop body s = Some r"
    and start: "I s"
    and keep: "\<And>t t'. I t \<Longrightarrow> body t = Inr t' \<Longrightarrow> I t'"
    and leave: "\<And>t r'. I t \<Longrightarrow> body t = Inl r' \<Longrightarrow> Q r'"
  shows "Q r"
proof -
  define P where "P b u q \<longleftrightarrow> (b = body \<longrightarrow> I u \<longrightarrow> Q q)"
    for b :: "'s \<Rightarrow> 'r + 's" and u q
  have "P body s r"
  proof (rule go_loop.raw_induct [where P = P, OF _ ret])
    fix f :: "('s \<Rightarrow> 'r + 's) \<Rightarrow> 's \<Rightarrow> 'r option" and b u q
    assume IH: "\<And>b u q. f b u = Some q \<Longrightarrow> P b u q"
      and eq: "(case b u of Inl r \<Rightarrow> Some r | Inr s' \<Rightarrow> f b s') = Some q"
    show "P b u q"
    proof (cases "b u")
      case (Inl x)
      with eq show ?thesis by (auto simp: P_def intro: leave)
    next
      case (Inr t)
      with eq have "P b t q" by (simp add: IH)
      with Inr show ?thesis by (auto simp: P_def intro: keep)
    qed
  qed
  with start show ?thesis by (simp add: P_def)
qed

text \<open>Total correctness: a measure that every round decreases makes the loop return.\<close>

lemma go_loop_returns:
  fixes m :: "'s \<Rightarrow> nat"
  assumes start: "I s"
    and keep: "\<And>t t'. I t \<Longrightarrow> body t = Inr t' \<Longrightarrow> I t' \<and> m t' < m t"
  shows "\<exists>r. go_loop body s = Some r"
  using start
proof (induction "m s" arbitrary: s rule: less_induct)
  case less
  show ?case
  proof (cases "body s")
    case (Inl r)
    then show ?thesis by (simp add: go_loop_done)
  next
    case (Inr t)
    with less.prems keep have "I t" "m t < m s" by blast+
    with less.hyps have "\<exists>r. go_loop body t = Some r" by blast
    with Inr show ?thesis by (simp add: go_loop_next)
  qed
qed

text \<open>
  Simulation: if the body of one loop is matched, round by round, by the body of another
  (\<open>R\<close> relates the loop states, \<open>Q\<close> the results) and the first returns, so does the second.
\<close>

lemma go_loop_simulation:
  assumes ret: "go_loop b1 s = Some r"
    and start: "R s t"
    and step: "\<And>u v u'. R u v \<Longrightarrow> b1 u = Inr u' \<Longrightarrow> (\<exists>v'. b2 v = Inr v' \<and> R u' v')"
    and leave: "\<And>u v x. R u v \<Longrightarrow> b1 u = Inl x \<Longrightarrow> (\<exists>y. b2 v = Inl y \<and> Q x y)"
  shows "\<exists>q. go_loop b2 t = Some q \<and> Q r q"
proof -
  let ?I = "\<lambda>u. \<exists>v. R u v \<and> go_loop b2 t = go_loop b2 v"
  show ?thesis
  proof (rule go_loop_invariant [OF ret, where I = ?I])
    show "?I s" using start by blast
  next
    fix u u'
    assume "?I u" and b: "b1 u = Inr u'"
    then obtain v where v: "R u v" "go_loop b2 t = go_loop b2 v" by blast
    from step [OF v(1) b] obtain v' where "b2 v = Inr v'" "R u' v'" by blast
    with v(2) show "?I u'" by (metis go_loop_next)
  next
    fix u x
    assume "?I u" and b: "b1 u = Inl x"
    then obtain v where v: "R u v" "go_loop b2 t = go_loop b2 v" by blast
    from leave [OF v(1) b] obtain y where "b2 v = Inl y" "Q x y" by blast
    with v(2) show "\<exists>q. go_loop b2 t = Some q \<and> Q x q" by (metis go_loop_done)
  qed
qed

text \<open>Two loops whose bodies agree on the states the first can reach do the same.\<close>

lemma go_loop_cong:
  assumes start: "I s"
    and keep: "\<And>t t'. I t \<Longrightarrow> b1 t = Inr t' \<Longrightarrow> I t'"
    and agree: "\<And>t. I t \<Longrightarrow> b2 t = b1 t"
  shows "go_loop b2 s = go_loop b1 s"
proof -
  have one: "go_loop b' s = Some r"
    if b: "go_loop b s = Some r" "\<And>t. I t \<Longrightarrow> b t = b1 t" "\<And>t. I t \<Longrightarrow> b' t = b1 t" for b b' r
  proof -
    have "\<exists>q. go_loop b' s = Some q \<and> r = q"
      by (rule go_loop_simulation [OF b(1), where R = "\<lambda>u v. u = v \<and> I u"]) (use start keep b(2,3) in auto)
    then show ?thesis by blast
  qed
  show ?thesis
    using one [of b1 _ b2] one [of b2 _ b1] agree
    by (cases "go_loop b1 s"; cases "go_loop b2 s") fastforce+
qed

section \<open>Maps that the code ranges over\<close>

text \<open>
  A Go map that is only read and written by key is a partial function. A map the code ranges
  over is an association list with distinct keys: the list gives the order in which
  \<open>range\<close> happens to visit the keys, which Go leaves open.
\<close>

definition is_range :: "('k \<times> 'v) list \<Rightarrow> ('k \<rightharpoonup> 'v) \<Rightarrow> bool" where
  "is_range xs m \<longleftrightarrow> distinct (map fst xs) \<and> map_of xs = m"

lemma is_range_mem: "is_range xs m \<Longrightarrow> (k, v) \<in> set xs \<longleftrightarrow> m k = Some v"
  by (auto simp: is_range_def)

lemma is_range_dom: "is_range xs m \<Longrightarrow> dom m = fst ` set xs"
  by (simp add: is_range_def dom_map_of_conv_image_fst [symmetric])

lemma map_of_update [store_simps]: "map_of (AList.update k v al) = (map_of al)(k \<mapsto> v)"
  by (rule update_conv')

lemma map_of_delete [store_simps]: "map_of (AList.delete k al) = (map_of al)(k := None)"
  by (rule delete_conv')

section \<open>Lists\<close>

lemma find_rev_last:
  "xs \<noteq> [] \<Longrightarrow> P (last xs) \<Longrightarrow> List.find P (rev xs) = Some (last xs)"
  by (induction xs rule: rev_induct) auto

lemma find_distinct:
  assumes "distinct (map f xs)" "x \<in> set xs"
  shows "List.find (\<lambda>y. f y = f x) xs = Some x"
  using assms by (induction xs) (auto simp: image_iff)

lemma find_append:
  "List.find P (xs @ ys) = (case List.find P xs of Some x \<Rightarrow> Some x | None \<Rightarrow> List.find P ys)"
  by (induction xs) auto

lemma find_SomeD: "List.find P xs = Some x \<Longrightarrow> x \<in> set xs \<and> P x"
  by (induction xs) (auto split: if_splits)

lemma find_NoneI: "(\<And>x. x \<in> set xs \<Longrightarrow> \<not> P x) \<Longrightarrow> List.find P xs = None"
  by (induction xs) auto

section \<open>Strings joined with a separator\<close>

lemma append_sep_inject:
  assumes "s \<notin> set x" "s \<notin> set y"
  shows "x @ s # u = y @ s # v \<longleftrightarrow> x = y \<and> u = v"
  using assms
proof (induction x arbitrary: y)
  case Nil
  then show ?case by (cases y) auto
next
  case (Cons a x)
  then show ?case by (cases y) auto
qed

end
