(* ===== verification/Values.thy ===== *)
theory Values
  imports Prelude
begin

text \<open>
  Go's dynamically typed values (\<open>any\<close>) as far as the module builds and inspects them, and
  its errors: the sentinels of \<^verbatim>\<open>graph/lease.go\<close>, \<^verbatim>\<open>graph/durable.go\<close>,
  \<^verbatim>\<open>graph/interrupt.go\<close> and \<^verbatim>\<open>orchestrator/supervisor.go\<close>, the pointer type
  \<open>*InterruptError\<close>, and the errors made by \<open>fmt.Errorf\<close> with and without \<open>%w\<close>, with
  \<open>errors.Is\<close> and \<open>errors.As\<close> walking the chain of wrapped errors.
\<close>

section \<open>Dynamic values\<close>

text \<open>
  The transfer record of \<^verbatim>\<open>orchestrator/handoff.go\<close> is one of the dynamic types a state
  value can have, so it comes first.
\<close>

record Handoff =
  h_From :: string
  h_To :: string
  h_Reason :: string
  h_Task :: string

text \<open>
  A value of type \<open>any\<close>. \<open>VNil\<close> is the nil interface; \<open>VNilSlice\<close> and \<open>VNilMap\<close> are
  a nil \<open>[]any\<close> and a nil \<open>map[string]any\<close> inside an interface, which read like empty
  ones but are not nil themselves and are \<open>null\<close> in JSON. A \<open>float64\<close> is a rational (JSON
  numbers are finite). \<open>VOther\<close> stands for any dynamic type that no type switch of the
  module names, with the name of the type.
\<close>

datatype gval =
    VNil
  | VBool bool
  | VInt int
  | VInt64 int
  | VFloat64 rat
  | VString string
  | VNilSlice
  | VSlice "gval list"
  | VNilMap
  | VMap "string \<Rightarrow> gval option"
  | VHandoff Handoff
  | VOther string

text \<open>\<open>v, _ := x.(string)\<close>: the string, or the zero value when the dynamic type differs.\<close>

fun as_string :: "gval \<Rightarrow> string" where
  "as_string (VString s) = s"
| "as_string _ = ''''"

text \<open>
  What appending \<open>xs\<close> to a nil \<open>[]any\<close> leaves: without elements the slice stays nil.
\<close>

definition go_slice :: "gval list \<Rightarrow> gval" where
  "go_slice xs = (if xs = [] then VNilSlice else VSlice xs)"

section \<open>Errors\<close>

text \<open>\<open>graph.InterruptError\<close> of \<^verbatim>\<open>graph/interrupt.go\<close>.\<close>

record InterruptError =
  ie_Value :: gval
  ie_Node :: string

text \<open>
  \<open>Errorf f args\<close> is \<open>fmt.Errorf\<close> with a format without \<open>%w\<close>; \<open>Wrapf f args e\<close> has
  the error \<open>e\<close> under its \<open>%w\<close>. The arguments are kept as the values that are formatted.
\<close>

datatype gerror =
    Errorf string "garg list"
  | Wrapf string "garg list" gerror
  | Interrupted InterruptError
  | ErrInterrupted
  | ErrLeaseHeld
  | ErrLeaseLost
  | ErrCheckpointConflict
  | ErrExpectedCheckpointMismatch
  | ErrApprovalDenied
  | Canceled
  | DeadlineExceeded
and garg =
    AStr string
  | AInt int
  | AErr gerror

text \<open>
  \<open>errors.Is(err, target)\<close> for a sentinel target: the chain is walked through \<open>Unwrap\<close>,
  and \<open>*InterruptError\<close> answers \<open>Is\<close> for \<open>ErrInterrupted\<close>.
\<close>

fun errors_is :: "gerror \<Rightarrow> gerror \<Rightarrow> bool" where
  "errors_is (Wrapf f a e) t = errors_is e t"
| "errors_is (Interrupted ie) t = (t = ErrInterrupted)"
| "errors_is e t = (e = t)"

text \<open>\<open>AsInterrupt\<close>: \<open>errors.As\<close> for the type \<open>*InterruptError\<close>.\<close>

fun AsInterrupt :: "gerror \<Rightarrow> InterruptError option" where
  "AsInterrupt (Interrupted ie) = Some ie"
| "AsInterrupt (Wrapf f a e) = AsInterrupt e"
| "AsInterrupt _ = None"

text \<open>\<open>IsInterrupted\<close> of \<^verbatim>\<open>graph/builder.go\<close>; a nil error is \<open>None\<close>.\<close>

definition IsInterrupted :: "gerror option \<Rightarrow> bool" where
  "IsInterrupted err = (case err of None \<Rightarrow> False | Some e \<Rightarrow> errors_is e ErrInterrupted)"

text \<open>\<open>Interrupt(value)\<close>: the error a node returns to pause.\<close>

definition Interrupt :: "gval \<Rightarrow> gerror" where
  "Interrupt v = Interrupted \<lparr>ie_Value = v, ie_Node = ''''\<rparr>"

lemma errors_is_leaf_cases:
  "errors_is e ErrLeaseLost \<Longrightarrow> AsInterrupt e = None"
  by (induction e) auto

text \<open>
  The error that ends the chain of \<open>Unwrap\<close>: \<open>errors.Is\<close> and \<open>errors.As\<close> both depend on
  it alone.
\<close>

fun root_cause :: "gerror \<Rightarrow> gerror" where
  "root_cause (Wrapf f a e) = root_cause e"
| "root_cause e = e"

lemma errors_is_root: "errors_is e t = errors_is (root_cause e) t"
  by (induction e) auto

lemma AsInterrupt_root: "AsInterrupt e = AsInterrupt (root_cause e)"
  by (induction e) auto

lemma root_cause_not_Wrapf: "root_cause e \<noteq> Wrapf f a e'"
  by (induction e) auto

text \<open>
  An error counts as an interrupt exactly when it carries an \<open>*InterruptError\<close> or is the bare
  sentinel \<open>ErrInterrupted\<close>, wrapped any number of times. Only the first kind can be
  recovered by \<open>AsInterrupt\<close>.
\<close>

lemma IsInterrupted_iff:
  "IsInterrupted (Some e) \<longleftrightarrow> AsInterrupt e \<noteq> None \<or> root_cause e = ErrInterrupted"
  by (induction e) (auto simp: IsInterrupted_def)

lemma IsInterrupted_None [simp]: "\<not> IsInterrupted None"
  by (simp add: IsInterrupted_def)

lemma IsInterrupted_Interrupted [simp]: "IsInterrupted (Some (Interrupted ie))"
  by (simp add: IsInterrupted_def)

end
