(* ===== verification/StateMap.thy ===== *)
theory StateMap
  imports Values
begin

text \<open>
  \<^verbatim>\<open>graph/state.go\<close>: the workflow state, partial updates and reducers.

  \<open>State\<close> and \<open>Update\<close> are Go maps. A state is only accessed by key, so it is a partial
  function; the nil map reads like the empty one and every operation of the module that
  writes a state writes to a fresh copy, so nil and empty are not told apart and \<open>Clone\<close>,
  which copies the map, has no counterpart on values. An update is ranged over by
  \<open>Apply\<close>, so it is the list of its entries in the order \<open>range\<close> visits them.
\<close>

type_synonym State = "string \<Rightarrow> gval option"
type_synonym Update = "(string \<times> gval) list"
type_synonym Reducer = "gval \<Rightarrow> gval \<Rightarrow> gval"

text \<open>A func-typed map entry can be nil, which \<open>Apply\<close> tests for.\<close>

type_synonym Reducers = "string \<Rightarrow> Reducer option option"

abbreviation START :: string where "START \<equiv> ''__start__''"
abbreviation END :: string where "END \<equiv> ''__end__''"

text \<open>\<open>s[key]\<close>: nil when the key is absent.\<close>

definition at_key :: "State \<Rightarrow> string \<Rightarrow> gval" where
  "at_key s key = (case s key of None \<Rightarrow> VNil | Some v \<Rightarrow> v)"

definition GetString :: "State \<Rightarrow> string \<Rightarrow> string" where
  "GetString s key = as_string (at_key s key)"

definition LastValue :: Reducer where
  "LastValue existing update = update"

text \<open>
  The slice that is built starts as a nil \<open>[]any\<close>, also when it copies an empty one, so the
  result is the nil slice exactly when nothing was there and nothing was added.
\<close>

definition AppendSlice :: Reducer where
  "AppendSlice existing update =
     (let out = (case existing of VNil \<Rightarrow> [] | VNilSlice \<Rightarrow> [] | VSlice e \<Rightarrow> e | _ \<Rightarrow> [existing])
      in case update of
           VNil \<Rightarrow> go_slice out
         | VNilSlice \<Rightarrow> go_slice out
         | VSlice u \<Rightarrow> go_slice (out @ u)
         | _ \<Rightarrow> go_slice (out @ [update]))"

text \<open>\<open>Apply\<close>: the loop over the update, on the copy of the state.\<close>

fun Apply :: "State \<Rightarrow> Update \<Rightarrow> Reducers \<Rightarrow> State" where
  "Apply out [] reducers = out"
| "Apply out ((k, v) # u) reducers =
     (case reducers k of
        Some (Some r) \<Rightarrow> Apply (out(k \<mapsto> r (at_key out k) v)) u reducers
      | _ \<Rightarrow> Apply (out(k \<mapsto> v)) u reducers)"

section \<open>Reading\<close>

lemma at_key_upd [simp]: "at_key (s(k \<mapsto> v)) k' = (if k' = k then v else at_key s k')"
  by (simp add: at_key_def)

lemma at_key_empty [simp]: "at_key Map.empty k = VNil"
  by (simp add: at_key_def)

lemma GetString_upd [simp]:
  "GetString (s(k \<mapsto> v)) k' = (if k' = k then as_string v else GetString s k')"
  by (simp add: GetString_def)

section \<open>What Apply computes\<close>

text \<open>The value one entry of the update leaves at its key.\<close>

definition merged :: "Reducers \<Rightarrow> State \<Rightarrow> string \<Rightarrow> gval \<Rightarrow> gval" where
  "merged reducers s k v =
     (case reducers k of Some (Some r) \<Rightarrow> r (at_key s k) v | _ \<Rightarrow> v)"

lemma Apply_Cons: "Apply s ((k, v) # u) rs = Apply (s(k \<mapsto> merged rs s k v)) u rs"
  by (auto simp: merged_def split: option.splits)

lemma Apply_append: "Apply s (u @ u') rs = Apply (Apply s u rs) u' rs"
  by (induction u arbitrary: s) (auto split: option.splits)

lemma Apply_other: "k \<notin> fst ` set u \<Longrightarrow> Apply s u rs k = s k"
proof (induction u arbitrary: s)
  case (Cons kv u)
  then show ?case by (cases kv) (simp add: Apply_Cons del: Apply.simps(2))
qed simp

lemma at_key_cong: "s k = s' k \<Longrightarrow> at_key s k = at_key s' k"
  by (simp add: at_key_def)

lemma merged_cong: "s k = s' k \<Longrightarrow> merged rs s k v = merged rs s' k v"
  by (auto simp: merged_def dest: at_key_cong split: option.splits)

text \<open>
  With distinct keys, as a Go map has, every key of the update ends up with its merged value
  and every other key is left alone.
\<close>

lemma Apply_pointwise:
  "distinct (map fst u) \<Longrightarrow>
     Apply s u rs k = (case map_of u k of None \<Rightarrow> s k | Some v \<Rightarrow> Some (merged rs s k v))"
proof (induction u arbitrary: s)
  case (Cons kv u)
  obtain k' v where kv: "kv = (k', v)" by (cases kv)
  let ?s' = "s(k' \<mapsto> merged rs s k' v)"
  from Cons.prems kv have nin: "k' \<notin> fst ` set u" and d: "distinct (map fst u)" by auto
  show ?case
  proof (cases "k = k'")
    case True
    with nin kv show ?thesis
      by (simp add: Apply_Cons Apply_other del: Apply.simps(2))
  next
    case False
    then have "merged rs ?s' k w = merged rs s k w" for w
      by (intro merged_cong) simp
    with False kv show ?thesis
      by (simp add: Apply_Cons Cons.IH [OF d] del: Apply.simps(2) split: option.splits)
  qed
qed simp

text \<open>
  C4: \<open>Apply\<close> does not depend on the order in which \<open>range\<close> visits the update: any two
  listings of the same update map, applied with the same reducers, give the same state.
\<close>

theorem Apply_order_independent:
  assumes "is_range u m" "is_range u' m"
  shows "Apply s u rs = Apply s u' rs"
proof
  fix k
  from assms show "Apply s u rs k = Apply s u' rs k"
    by (simp add: is_range_def Apply_pointwise)
qed

theorem Apply_order_independent_witness:
  "Apply Map.empty [(''a'', VInt 1), (''b'', VInt 2)] Map.empty
   = Apply Map.empty [(''b'', VInt 2), (''a'', VInt 1)] Map.empty"
  by (rule Apply_order_independent [where m = "[''a'' \<mapsto> VInt 1, ''b'' \<mapsto> VInt 2]"])
    (auto simp: is_range_def)

section \<open>The append reducer\<close>

text \<open>The list a state value stands for under \<open>AppendSlice\<close>.\<close>

fun slice_of :: "gval \<Rightarrow> gval list" where
  "slice_of VNil = []"
| "slice_of VNilSlice = []"
| "slice_of (VSlice xs) = xs"
| "slice_of v = [v]"

lemma slice_of_go_slice [simp]: "slice_of (go_slice xs) = xs"
  by (simp add: go_slice_def)

lemma AppendSlice_slice_of: "AppendSlice e u = go_slice (slice_of e @ slice_of u)"
  by (cases e; cases u) (simp_all add: AppendSlice_def)

lemma slice_of_AppendSlice [simp]: "slice_of (AppendSlice e u) = slice_of e @ slice_of u"
  by (simp add: AppendSlice_slice_of)

lemma slice_of_fold_AppendSlice:
  "slice_of (foldl AppendSlice e us) = slice_of e @ concat (map slice_of us)"
  by (induction us arbitrary: e) auto

text \<open>
  The state after a sequence of updates, one per executed node, as the engine applies them.
\<close>

definition Apply_all :: "State \<Rightarrow> Update list \<Rightarrow> Reducers \<Rightarrow> State" where
  "Apply_all s us rs = foldl (\<lambda>t u. Apply t u rs) s us"

lemma Apply_all_simps [simp]:
  "Apply_all s [] rs = s"
  "Apply_all s (u # us) rs = Apply_all (Apply s u rs) us rs"
  by (simp_all add: Apply_all_def)

lemma slice_of_Apply_AppendSlice:
  assumes "distinct (map fst u)" "rs k = Some (Some AppendSlice)"
  shows "slice_of (at_key (Apply s u rs) k)
         = slice_of (at_key s k) @ (case map_of u k of None \<Rightarrow> [] | Some v \<Rightarrow> slice_of v)"
  using assms
  by (auto simp: at_key_def [of "Apply s u rs"] Apply_pointwise merged_def at_key_def [of s]
      split: option.splits)

text \<open>
  C5: a key registered with \<open>AppendSlice\<close> is an append-only log: after any sequence of
  updates it holds what it held before, followed by what every update wrote to it, in order,
  nothing lost and nothing reordered.
\<close>

theorem AppendSlice_log:
  assumes "\<forall>u \<in> set us. distinct (map fst u)" "rs k = Some (Some AppendSlice)"
  shows "slice_of (at_key (Apply_all s us rs) k)
         = slice_of (at_key s k)
           @ concat (map (\<lambda>u. case map_of u k of None \<Rightarrow> [] | Some v \<Rightarrow> slice_of v) us)"
  using assms
proof (induction us arbitrary: s)
  case (Cons u us)
  then show ?case by (simp add: slice_of_Apply_AppendSlice)
qed simp

theorem AppendSlice_log_witness:
  "slice_of (at_key (Apply_all (Map.empty(''logs'' \<mapsto> VString ''a''))
       [[(''logs'', VSlice [VString ''b'', VString ''c''])], [(''x'', VInt 1)]]
       [''logs'' \<mapsto> Some AppendSlice]) ''logs'')
   = [VString ''a'', VString ''b'', VString ''c'']"
  by (subst AppendSlice_log) simp_all

end
