(* ===== verification/Runtime.thy ===== *)
theory Runtime
  imports StateMap
begin

text \<open>
  What the engine runs on: snapshots and step artifacts (\<^verbatim>\<open>graph/durable.go\<close>), lease
  grants (\<^verbatim>\<open>graph/lease.go\<close>), contexts and the per-step artifact collector
  (\<^verbatim>\<open>graph/artifacts.go\<close>, \<^verbatim>\<open>graph/interrupt.go\<close>), lifecycle events
  (\<^verbatim>\<open>graph/events.go\<close>), fresh identifiers, and the world these act on.
\<close>

section \<open>Snapshots, artifacts, grants\<close>

record Snapshot =
  sn_CheckpointID :: string
  sn_ParentCheckpointID :: string
  sn_Revision :: int
  sn_CreatedAt :: gotime
  sn_ThreadID :: string
  sn_Node :: string
  sn_State :: State
  sn_Step :: int
  sn_Interrupt :: bool
  sn_InterruptValue :: gval

definition ArtifactAgentSession :: string where
  "ArtifactAgentSession = ''agent_session''"

record StepArtifact =
  art_Kind :: string
  art_Key :: string
  art_Payload :: string

record SnapshotMeta =
  sm_CheckpointID :: string
  sm_ThreadID :: string
  sm_Node :: string
  sm_Step :: int
  sm_Revision :: int
  sm_Interrupt :: bool
  sm_CreatedAt :: gotime

record LeaseGrant =
  lg_ThreadID :: string
  lg_RunID :: string
  lg_Epoch :: int
  lg_ExpiresAt :: gotime

definition DefaultLeaseTTL :: duration where
  "DefaultLeaseTTL = 30 * second"

definition DefaultLeaseReleaseTimeout :: duration where
  "DefaultLeaseReleaseTimeout = 3 * second"

section \<open>Identifiers\<close>

text \<open>
  \<open>NewID\<close>: 16 bytes of \<open>crypto/rand\<close>, or, when the read fails, the bytes of the wall
  clock followed by zeros, in lower-case hex. The random source is a sequence of reads, each
  of which may fail, with the number of reads done so far.
\<close>

record rng =
  rng_reads :: "nat \<Rightarrow> 8 word list option"
  rng_pos :: nat

definition hex_digit :: "nat \<Rightarrow> char" where
  "hex_digit n = ''0123456789abcdef'' ! n"

definition hex_encode :: "8 word list \<Rightarrow> string" where
  "hex_encode bs = concat (map (\<lambda>b. [hex_digit (unat b div 16), hex_digit (unat b mod 16)]) bs)"

text \<open>\<open>UnixNano\<close> of a time: its distance from the Unix epoch, as an \<open>int64\<close>.\<close>

definition UnixNano :: "gotime \<Rightarrow> int" where
  "UnixNano t = wrap64 (t - 62135596800 * second)"

definition clock_bytes :: "gotime \<Rightarrow> 8 word list" where
  "clock_bytes t = map (\<lambda>i. word_of_int (UnixNano t div 2 ^ (8 * i))) [0..<8] @ replicate 8 0"

definition NewID :: "gotime \<Rightarrow> rng \<Rightarrow> string \<times> rng" where
  "NewID now r =
     (hex_encode (case rng_reads r (rng_pos r) of Some b \<Rightarrow> b | None \<Rightarrow> clock_bytes now),
      r\<lparr>rng_pos := Suc (rng_pos r)\<rparr>)"

section \<open>Events\<close>

datatype EventType =
    EventRunStart | EventRunResume | EventNodeStart | EventNodeEnd | EventNodeError
  | EventRoute | EventCheckpoint | EventCheckpointError | EventInterrupt | EventRunEnd
  | EventLeaseAcquired | EventLeaseRenewFailed | EventLeaseReleased | EventCustom

text \<open>
  The metadata values are kept as the values that are formatted (\<open>AInt\<close> for a number,
  \<open>AErr\<close> for the text of an error).
\<close>

record Event =
  ev_Type :: EventType
  ev_RunID :: string
  ev_ThreadID :: string
  ev_CheckpointID :: string
  ev_NodeID :: string
  ev_AgentID :: string
  ev_Step :: int
  ev_Timestamp :: gotime
  ev_Err :: "gerror option"
  ev_Metadata :: "string \<Rightarrow> garg option"

text \<open>\<open>Event{Type: t}\<close>: every other field is the zero value of its type.\<close>

definition new_event :: "EventType \<Rightarrow> Event" where
  "new_event t = \<lparr>ev_Type = t, ev_RunID = '''', ev_ThreadID = '''', ev_CheckpointID = '''',
     ev_NodeID = '''', ev_AgentID = '''', ev_Step = 0, ev_Timestamp = 0, ev_Err = None,
     ev_Metadata = Map.empty\<rparr>"

section \<open>The world\<close>

text \<open>The artifact collector of one node step.\<close>

record artifactCollector =
  ac_list :: "StepArtifact list"
  ac_seen :: "string set"

text \<open>
  The world as one run sees it.
  \<open>w_store\<close> is what the checkpointer, the durable store and the lease keep (shared with other
  runners), \<open>w_user\<close> is whatever node functions, tools and event handlers keep.
  \<open>w_caller\<close> is the state of the caller's context: once done, whether its deadline passed
  (\<open>Err()\<close> is then \<open>DeadlineExceeded\<close>, otherwise \<open>Canceled\<close>) and its \<open>Cause\<close>. \<open>w_cancel\<close> is the cause with which the engine's own cancel function ended the
  run's context before the caller's did. \<open>w_sess\<close> is the cell of the run's
  \<open>leaseSession\<close>, shared with the heartbeat goroutine. \<open>w_collectors\<close> is the heap of
  collectors. \<open>w_trace\<close> is the sequence of events delivered to the run's handler, which the
  program does not keep: it is there to state the order of deliveries.
\<close>

record ('s, 'u) World =
  w_store :: 's
  w_user :: 'u
  w_clock :: gotime
  w_rng :: rng
  w_caller :: "(bool \<times> gerror) option"
  w_cancel :: "gerror option"
  w_sess :: "LeaseGrant option"
  w_collectors :: "artifactCollector list"
  w_trace :: "Event list"

text \<open>
  \<open>ctx.Err()\<close> and \<open>context.Cause(ctx)\<close> of the run's context, derived from the caller's with
  \<open>WithCancelCause\<close>: the first cancellation decides the cause.
\<close>

definition ctx_Err :: "('s, 'u) World \<Rightarrow> gerror option" where
  "ctx_Err w =
     (case w_cancel w of
        Some _ \<Rightarrow> Some Canceled
      | None \<Rightarrow> map_option (\<lambda>(deadline, _). if deadline then DeadlineExceeded else Canceled) (w_caller w))"

definition ctx_Cause :: "('s, 'u) World \<Rightarrow> gerror option" where
  "ctx_Cause w = (case w_cancel w of Some c \<Rightarrow> Some c | None \<Rightarrow> map_option snd (w_caller w))"

text \<open>The engine's \<open>cancel(cause)\<close>; \<open>cancel(nil)\<close> has the cause \<open>Canceled\<close>.\<close>

definition cancel_run :: "gerror \<Rightarrow> ('s, 'u) World \<Rightarrow> ('s, 'u) World" where
  "cancel_run c w = (if ctx_Err w = None then w\<lparr>w_cancel := Some c\<rparr> else w)"

text \<open>\<open>context.WithCancelCause(ctx)\<close>: a fresh context under the current one.\<close>

definition derive_ctx :: "('s, 'u) World \<Rightarrow> ('s, 'u) World" where
  "derive_ctx w =
     w\<lparr>w_caller := (case w_cancel w of Some c \<Rightarrow> Some (False, c) | None \<Rightarrow> w_caller w),
       w_cancel := None\<rparr>"

definition draw_id :: "('s, 'u) World \<Rightarrow> string \<times> ('s, 'u) World" where
  "draw_id w = (let (i, r) = NewID (w_clock w) (w_rng w) in (i, w\<lparr>w_rng := r\<rparr>))"

section \<open>Contexts\<close>

type_synonym ('s, 'u) EventHandler = "Event \<Rightarrow> ('s, 'u) World \<Rightarrow> ('s, 'u) World"

text \<open>
  The values a context carries. An absent string value reads as the empty string, an absent
  resume value as nil; the collector is the address of the step's collector.
\<close>

record ('s, 'u) Ctx =
  ctx_ThreadID :: string
  ctx_RunID :: string
  ctx_NodeID :: string
  ctx_ParentCheckpointID :: string
  ctx_LeaseGrant :: "LeaseGrant option"
  ctx_Resume :: gval
  ctx_Events :: "('s, 'u) EventHandler option"
  ctx_Collector :: "nat option"

definition Background :: "('s, 'u) Ctx" where
  "Background = \<lparr>ctx_ThreadID = '''', ctx_RunID = '''', ctx_NodeID = '''',
     ctx_ParentCheckpointID = '''', ctx_LeaseGrant = None, ctx_Resume = VNil,
     ctx_Events = None, ctx_Collector = None\<rparr>"

text \<open>\<open>LeaseEpoch(ctx)\<close>: the fencing epoch, or 0 without a grant.\<close>

definition LeaseEpoch :: "('s, 'u) Ctx \<Rightarrow> int" where
  "LeaseEpoch ctx = (case ctx_LeaseGrant ctx of None \<Rightarrow> 0 | Some g \<Rightarrow> lg_Epoch g)"

text \<open>\<open>ResumeValue(ctx)\<close>: nil means that no value was given.\<close>

definition ResumeValue :: "('s, 'u) Ctx \<Rightarrow> gval option" where
  "ResumeValue ctx = (if ctx_Resume ctx = VNil then None else Some (ctx_Resume ctx))"

definition InterruptOrResume :: "('s, 'u) Ctx \<Rightarrow> gval \<Rightarrow> gerror + gval" where
  "InterruptOrResume ctx v =
     (case ResumeValue ctx of Some r \<Rightarrow> Inr r | None \<Rightarrow> Inl (Interrupt v))"

section \<open>Step artifacts\<close>

definition newArtifactCollector :: artifactCollector where
  "newArtifactCollector = \<lparr>ac_list = [], ac_seen = {}\<rparr>"

definition WithStepArtifacts ::
  "('s, 'u) Ctx \<Rightarrow> ('s, 'u) World \<Rightarrow> ('s, 'u) Ctx \<times> nat \<times> ('s, 'u) World" where
  "WithStepArtifacts ctx w =
     (let c = length (w_collectors w)
      in (ctx\<lparr>ctx_Collector := Some c\<rparr>, c,
          w\<lparr>w_collectors := w_collectors w @ [newArtifactCollector]\<rparr>))"

text \<open>The key under which a collector remembers an artifact: kind, NUL, key.\<close>

definition seen_key :: "StepArtifact \<Rightarrow> string" where
  "seen_key a = art_Kind a @ [CHR 0x00] @ art_Key a"

text \<open>One collector's part of \<open>RegisterStepArtifact\<close>, under its mutex.\<close>

definition register :: "StepArtifact \<Rightarrow> artifactCollector \<Rightarrow> gerror + artifactCollector" where
  "register a c =
     (if seen_key a \<in> ac_seen c
      then Inl (Errorf ''graph: duplicate artifact %q/%q'' [AStr (art_Kind a), AStr (art_Key a)])
      else Inr \<lparr>ac_list = ac_list c @ [a], ac_seen = insert (seen_key a) (ac_seen c)\<rparr>)"

definition RegisterStepArtifact ::
  "('s, 'u) Ctx \<Rightarrow> StepArtifact \<Rightarrow> ('s, 'u) World \<Rightarrow> gerror option \<times> ('s, 'u) World" where
  "RegisterStepArtifact ctx a w =
     (case ctx_Collector ctx of
        None \<Rightarrow> (Some (Errorf ''graph: no step artifact collector in context'' []), w)
      | Some c \<Rightarrow>
          if art_Kind a = '''' \<or> art_Key a = ''''
          then (Some (Errorf ''graph: artifact kind and key are required'' []), w)
          else (case register a (w_collectors w ! c) of
                  Inl e \<Rightarrow> (Some e, w)
                | Inr c' \<Rightarrow> (None, w\<lparr>w_collectors := (w_collectors w)[c := c']\<rparr>)))"

text \<open>\<open>collector.snapshot()\<close>.\<close>

definition collector_snapshot :: "nat \<Rightarrow> ('s, 'u) World \<Rightarrow> StepArtifact list" where
  "collector_snapshot c w = ac_list (w_collectors w ! c)"

section \<open>Delivering events\<close>

text \<open>
  \<open>safeEmit\<close>: stamps the event and calls the handler; a panicking handler is recovered, so
  whatever the handler does, control comes back with the world it left.
\<close>

definition safeEmit ::
  "('s, 'u) EventHandler option \<Rightarrow> Event \<Rightarrow> ('s, 'u) World \<Rightarrow> ('s, 'u) World" where
  "safeEmit h e w =
     (case h of
        None \<Rightarrow> w
      | Some f \<Rightarrow>
          let e' = (if ev_Timestamp e = 0 then e\<lparr>ev_Timestamp := w_clock w\<rparr> else e)
          in (f e' w)\<lparr>w_trace := w_trace w @ [e']\<rparr>)"

definition EmitCustom :: "('s, 'u) Ctx \<Rightarrow> Event \<Rightarrow> ('s, 'u) World \<Rightarrow> ('s, 'u) World" where
  "EmitCustom ctx e w =
     (case ctx_Events ctx of
        None \<Rightarrow> w
      | Some f \<Rightarrow>
          let e = e\<lparr>ev_Type := EventCustom\<rparr>;
              e = (if ev_Timestamp e = 0 then e\<lparr>ev_Timestamp := w_clock w\<rparr> else e);
              e = (if ev_RunID e = '''' then e\<lparr>ev_RunID := ctx_RunID ctx\<rparr> else e);
              e = (if ev_ThreadID e = '''' then e\<lparr>ev_ThreadID := ctx_ThreadID ctx\<rparr> else e);
              e = (if ev_NodeID e = '''' then e\<lparr>ev_NodeID := ctx_NodeID ctx\<rparr> else e)
          in safeEmit (Some f) e w)"

definition withEventHandler ::
  "('s, 'u) Ctx \<Rightarrow> ('s, 'u) EventHandler option \<Rightarrow> ('s, 'u) Ctx" where
  "withEventHandler ctx h = (case h of None \<Rightarrow> ctx | Some f \<Rightarrow> ctx\<lparr>ctx_Events := Some f\<rparr>)"

end
