(* ===== verification/Builder.thy ===== *)
theory Builder
  imports Runtime
begin

text \<open>
  The construction half of \<^verbatim>\<open>graph/builder.go\<close>: the builder's registration methods, which
  panic on misuse, \<open>Compile\<close> with its options and its validation of the topology, and the
  compiled graph. The interfaces the graph is compiled against (\<open>Checkpointer\<close>,
  \<open>DurableCheckpointer\<close> with the optional \<open>LeaseFencedCommitter\<close>, \<open>ExecutionLease\<close>) are
  records of their methods, acting on the world.
\<close>

section \<open>Node and route functions\<close>

text \<open>
  A node call returns its update and error, and leaves the state map it was given, which it
  may have written to, as \<open>nr_State\<close>. It may change the whole world: while a node runs, time
  passes, the caller may cancel, the heartbeat renews or loses the lease, and other runners
  use the shared stores.
\<close>

record node_result =
  nr_Update :: Update
  nr_Err :: "gerror option"
  nr_State :: State

type_synonym ('s, 'u) NodeFunc =
  "('s, 'u) Ctx \<Rightarrow> State \<Rightarrow> ('s, 'u) World \<Rightarrow> node_result \<times> ('s, 'u) World"

type_synonym ('s, 'u) RouteFunc = "('s, 'u) Ctx \<Rightarrow> State \<Rightarrow> string"

section \<open>Interfaces\<close>

record ('s, 'u) Checkpointer =
  cp_Put :: "string \<Rightarrow> Snapshot \<Rightarrow> ('s, 'u) World \<Rightarrow> gerror option \<times> ('s, 'u) World"
  cp_Get :: "string \<Rightarrow> ('s, 'u) World \<Rightarrow> gerror + Snapshot option"

text \<open>
  The type assertion \<open>durable.(LeaseFencedCommitter)\<close> succeeds when \<open>dc_CommitStepFenced\<close>
  is there.
\<close>

record ('s, 'u) DurableCheckpointer =
  dc_CommitStep ::
    "Snapshot \<Rightarrow> StepArtifact list \<Rightarrow> ('s, 'u) World \<Rightarrow> gerror option \<times> ('s, 'u) World"
  dc_GetLatest :: "string \<Rightarrow> ('s, 'u) World \<Rightarrow> gerror + Snapshot option"
  dc_GetByID :: "string \<Rightarrow> string \<Rightarrow> ('s, 'u) World \<Rightarrow> gerror + Snapshot option"
  dc_List :: "string \<Rightarrow> int \<Rightarrow> int \<Rightarrow> ('s, 'u) World \<Rightarrow> gerror + SnapshotMeta list"
  dc_DeleteThread :: "string \<Rightarrow> ('s, 'u) World \<Rightarrow> gerror option \<times> ('s, 'u) World"
  dc_Prune :: "string \<Rightarrow> int \<Rightarrow> ('s, 'u) World \<Rightarrow> gerror option \<times> ('s, 'u) World"
  dc_GetAgentSession ::
    "string \<Rightarrow> string \<Rightarrow> string \<Rightarrow> ('s, 'u) World \<Rightarrow> gerror + string option"
  dc_CommitStepFenced ::
    "(Snapshot \<Rightarrow> StepArtifact list \<Rightarrow> LeaseGrant \<Rightarrow> ('s, 'u) World
      \<Rightarrow> gerror option \<times> ('s, 'u) World) option"

record ('s, 'u) ExecutionLease =
  el_Acquire ::
    "string \<Rightarrow> string \<Rightarrow> duration \<Rightarrow> ('s, 'u) World \<Rightarrow> (gerror + LeaseGrant) \<times> ('s, 'u) World"
  el_Renew ::
    "LeaseGrant \<Rightarrow> duration \<Rightarrow> ('s, 'u) World \<Rightarrow> (gerror + LeaseGrant) \<times> ('s, 'u) World"
  el_Release :: "LeaseGrant \<Rightarrow> ('s, 'u) World \<Rightarrow> gerror option \<times> ('s, 'u) World"

section \<open>The builder\<close>

record ('s, 'u) Builder =
  b_nodes :: "string \<Rightarrow> ('s, 'u) NodeFunc option"
  b_edges :: "string \<Rightarrow> string option"
  b_routes :: "string \<Rightarrow> ('s, 'u) RouteFunc option"
  b_reducers :: Reducers
  b_entry :: string

definition NewBuilder :: "('s, 'u) Builder" where
  "NewBuilder = \<lparr>b_nodes = Map.empty, b_edges = Map.empty, b_routes = Map.empty,
     b_reducers = Map.empty, b_entry = ''''\<rparr>"

text \<open>
  A registration either panics, with the panic's text (\<open>Inl\<close>), or returns the changed
  builder. A func argument can be nil (\<open>None\<close>).
\<close>

definition AddNode ::
  "string \<Rightarrow> ('s, 'u) NodeFunc option \<Rightarrow> ('s, 'u) Builder \<Rightarrow> string + ('s, 'u) Builder" where
  "AddNode name fn b =
     (if name = '''' \<or> name = START \<or> name = END
      then Inl (''graph: invalid node name: '' @ name)
      else if b_nodes b name \<noteq> None then Inl (''graph: duplicate node: '' @ name)
      else (case fn of
              None \<Rightarrow> Inl (''graph: nil node func: '' @ name)
            | Some f \<Rightarrow> Inr (b\<lparr>b_nodes := (b_nodes b)(name \<mapsto> f)\<rparr>)))"

definition AddReducer ::
  "string \<Rightarrow> Reducer option \<Rightarrow> ('s, 'u) Builder \<Rightarrow> string + ('s, 'u) Builder" where
  "AddReducer key r b =
     (if key = '''' then Inl ''graph: empty reducer key''
      else (case r of
              None \<Rightarrow> Inl (''graph: nil reducer for '' @ key)
            | Some f \<Rightarrow> Inr (b\<lparr>b_reducers := (b_reducers b)(key \<mapsto> Some f)\<rparr>)))"

definition SetEntry :: "string \<Rightarrow> ('s, 'u) Builder \<Rightarrow> string + ('s, 'u) Builder" where
  "SetEntry name b = Inr (b\<lparr>b_entry := name\<rparr>)"

definition AddEdge ::
  "string \<Rightarrow> string \<Rightarrow> ('s, 'u) Builder \<Rightarrow> string + ('s, 'u) Builder" where
  "AddEdge from to b =
     (if b_routes b from \<noteq> None
      then Inl (''graph: node already has conditional route: '' @ from)
      else Inr (b\<lparr>b_edges := (b_edges b)(from \<mapsto> to)\<rparr>))"

definition AddConditionalEdges ::
  "string \<Rightarrow> ('s, 'u) RouteFunc option \<Rightarrow> ('s, 'u) Builder \<Rightarrow> string + ('s, 'u) Builder" where
  "AddConditionalEdges from route b =
     (case route of
        None \<Rightarrow> Inl (''graph: nil route for '' @ from)
      | Some r \<Rightarrow>
          if b_edges b from \<noteq> None
          then Inl (''graph: node already has fixed edge: '' @ from)
          else Inr (b\<lparr>b_routes := (b_routes b)(from \<mapsto> r)\<rparr>))"

section \<open>Compile options\<close>

record ('s, 'u) compileConfig =
  cc_checkpointer :: "('s, 'u) Checkpointer option"
  cc_durable :: "('s, 'u) DurableCheckpointer option"
  cc_lease :: "('s, 'u) ExecutionLease option"
  cc_leaseTTL :: duration
  cc_leaseReleaseTimeout :: duration

type_synonym ('s, 'u) CompileOption = "('s, 'u) compileConfig \<Rightarrow> ('s, 'u) compileConfig"

definition WithCheckpointer :: "('s, 'u) Checkpointer \<Rightarrow> ('s, 'u) CompileOption" where
  "WithCheckpointer cp c = c\<lparr>cc_checkpointer := Some cp\<rparr>"

definition WithDurableCheckpointer :: "('s, 'u) DurableCheckpointer \<Rightarrow> ('s, 'u) CompileOption" where
  "WithDurableCheckpointer d c = c\<lparr>cc_durable := Some d\<rparr>"

definition WithExecutionLease :: "('s, 'u) ExecutionLease \<Rightarrow> ('s, 'u) CompileOption" where
  "WithExecutionLease l c = c\<lparr>cc_lease := Some l\<rparr>"

definition WithLeaseTTL :: "duration \<Rightarrow> ('s, 'u) CompileOption" where
  "WithLeaseTTL ttl c = (if ttl > 0 then c\<lparr>cc_leaseTTL := ttl\<rparr> else c)"

definition WithLeaseReleaseTimeout :: "duration \<Rightarrow> ('s, 'u) CompileOption" where
  "WithLeaseReleaseTimeout d c = (if d > 0 then c\<lparr>cc_leaseReleaseTimeout := d\<rparr> else c)"

section \<open>Compile\<close>

record ('s, 'u) Compiled =
  g_nodes :: "string \<Rightarrow> ('s, 'u) NodeFunc option"
  g_edges :: "string \<Rightarrow> string option"
  g_routes :: "string \<Rightarrow> ('s, 'u) RouteFunc option"
  g_reducers :: Reducers
  g_entry :: string
  g_checkpointer :: "('s, 'u) Checkpointer option"
  g_durable :: "('s, 'u) DurableCheckpointer option"
  g_lease :: "('s, 'u) ExecutionLease option"
  g_leaseTTL :: duration
  g_leaseReleaseTimeout :: duration

text \<open>The option checks at the top of \<open>Compile\<close>.\<close>

definition check_options :: "('s, 'u) compileConfig \<Rightarrow> gerror option" where
  "check_options cfg =
     (case cc_lease cfg of
        None \<Rightarrow> None
      | Some _ \<Rightarrow>
          (case cc_durable cfg of
             Some d \<Rightarrow>
               if dc_CommitStepFenced d = None
               then Some (Errorf ''graph: ExecutionLease with durable store requires LeaseFencedCommitter'' [])
               else None
           | None \<Rightarrow>
               if cc_checkpointer cfg \<noteq> None
               then Some (Errorf ''graph: ExecutionLease requires durable checkpointer with fenced commit, not legacy Checkpointer'' [])
               else None))"

text \<open>The loop over \<open>b.edges\<close>, in the order \<open>range\<close> visits them.\<close>

fun check_edges :: "('s, 'u) Builder \<Rightarrow> (string \<times> string) list \<Rightarrow> gerror option" where
  "check_edges b [] = None"
| "check_edges b ((from, to) # es) =
     (if b_nodes b from = None \<and> from \<noteq> START
      then Some (Errorf ''graph: edge from unknown node %q'' [AStr from])
      else if to \<noteq> END \<and> b_nodes b to = None
      then Some (Errorf ''graph: edge to unknown node %q'' [AStr to])
      else check_edges b es)"

fun check_routes :: "('s, 'u) Builder \<Rightarrow> string list \<Rightarrow> gerror option" where
  "check_routes b [] = None"
| "check_routes b (from # rs) =
     (if b_nodes b from = None
      then Some (Errorf ''graph: route from unknown node %q'' [AStr from])
      else check_routes b rs)"

text \<open>
  \<open>Compile\<close>. The lists \<open>es\<close> and \<open>rs\<close> are the edges and the routed nodes in the order the
  two \<open>range\<close> loops visit them. The copies of the builder's maps are the maps.
\<close>

definition Compile ::
  "('s, 'u) CompileOption list \<Rightarrow> (string \<times> string) list \<Rightarrow> string list
   \<Rightarrow> ('s, 'u) Builder \<Rightarrow> gerror + ('s, 'u) Compiled" where
  "Compile opts es rs b =
     (let cfg = fold (\<lambda>o1 c. o1 c) opts
            \<lparr>cc_checkpointer = None, cc_durable = None, cc_lease = None, cc_leaseTTL = 0,
             cc_leaseReleaseTimeout = 0\<rparr>
      in case check_options cfg of
           Some e \<Rightarrow> Inl e
         | None \<Rightarrow>
         if b_entry b = '''' then Inl (Errorf ''graph: entry node not set'' [])
         else if b_nodes b (b_entry b) = None
         then Inl (Errorf ''graph: entry node %q not registered'' [AStr (b_entry b)])
         else (case check_edges b es of
           Some e \<Rightarrow> Inl e
         | None \<Rightarrow> (case check_routes b rs of
           Some e \<Rightarrow> Inl e
         | None \<Rightarrow>
             Inr \<lparr>g_nodes = b_nodes b, g_edges = b_edges b, g_routes = b_routes b,
                  g_reducers = b_reducers b, g_entry = b_entry b,
                  g_checkpointer = cc_checkpointer cfg, g_durable = cc_durable cfg,
                  g_lease = cc_lease cfg,
                  g_leaseTTL =
                    (if cc_leaseTTL cfg \<le> 0 then DefaultLeaseTTL else cc_leaseTTL cfg),
                  g_leaseReleaseTimeout =
                    (if cc_leaseReleaseTimeout cfg \<le> 0 then DefaultLeaseReleaseTimeout
                     else cc_leaseReleaseTimeout cfg)\<rparr>)))"

end
