(* ===== verification/Engine.thy ===== *)
theory Engine
  imports Builder
begin

text \<open>
  The execution half of \<^verbatim>\<open>graph/builder.go\<close>: run options, the super-step loop
  \<open>run\<close> with routing and persistence, \<open>Invoke\<close> and \<open>Resume\<close>, the execution lease around
  them with its heartbeat, and the events they emit. This theory holds the definitions and
  the facts about one round of the loop; what runs guarantee is in the theories that import
  it.
\<close>

section \<open>Run configuration\<close>

text \<open>\<open>graph.Command\<close>; a nil \<open>Resume\<close> is \<open>VNil\<close>, a nil \<open>Update\<close> is \<open>None\<close>.\<close>

record Command =
  cmd_Resume :: gval
  cmd_Update :: "Update option"
  cmd_Goto :: string

text \<open>
  \<open>runConfig\<close>. Its pointer to the lease session is the cell \<open>w_sess\<close> of the world: it is nil
  exactly while the cell is empty.
\<close>

record ('s, 'u) runConfig =
  rc_threadID :: string
  rc_maxSteps :: int
  rc_command :: "Command option"
  rc_runID :: string
  rc_events :: "('s, 'u) EventHandler option"
  rc_leaseTTL :: duration
  rc_expectedCheckpointID :: string

type_synonym ('s, 'u) RunOption = "('s, 'u) runConfig \<Rightarrow> ('s, 'u) runConfig"

definition WithThreadID :: "string \<Rightarrow> ('s, 'u) RunOption" where
  "WithThreadID i c = (if i \<noteq> '''' then c\<lparr>rc_threadID := i\<rparr> else c)"

definition WithMaxSteps :: "int \<Rightarrow> ('s, 'u) RunOption" where
  "WithMaxSteps n c = c\<lparr>rc_maxSteps := n\<rparr>"

definition WithCommand :: "Command \<Rightarrow> ('s, 'u) RunOption" where
  "WithCommand cmd c = c\<lparr>rc_command := Some cmd\<rparr>"

definition WithEventHandler :: "('s, 'u) EventHandler option \<Rightarrow> ('s, 'u) RunOption" where
  "WithEventHandler h c = c\<lparr>rc_events := h\<rparr>"

definition WithRunLeaseTTL :: "duration \<Rightarrow> ('s, 'u) RunOption" where
  "WithRunLeaseTTL ttl c = (if ttl > 0 then c\<lparr>rc_leaseTTL := ttl\<rparr> else c)"

definition WithExpectedCheckpointID :: "string \<Rightarrow> ('s, 'u) RunOption" where
  "WithExpectedCheckpointID i c = c\<lparr>rc_expectedCheckpointID := i\<rparr>"

definition prepareRun ::
  "('s, 'u) Compiled \<Rightarrow> ('s, 'u) RunOption list \<Rightarrow> ('s, 'u) World
   \<Rightarrow> ('s, 'u) runConfig \<times> ('s, 'u) World" where
  "prepareRun g opts w =
     (let (rid, w1) = draw_id w;
          cfg = fold (\<lambda>o1 c. o1 c) opts
            \<lparr>rc_threadID = ''default'', rc_maxSteps = 0, rc_command = None, rc_runID = rid,
             rc_events = None, rc_leaseTTL = 0, rc_expectedCheckpointID = ''''\<rparr>;
          (cfg, w2) = (if rc_runID cfg = ''''
             then (let (r2, w') = draw_id w1 in (cfg\<lparr>rc_runID := r2\<rparr>, w')) else (cfg, w1));
          cfg = (if rc_leaseTTL cfg \<le> 0 then cfg\<lparr>rc_leaseTTL := g_leaseTTL g\<rparr> else cfg)
      in (cfg, w2))"

section \<open>Events of a run\<close>

definition emit ::
  "('s, 'u) Ctx \<Rightarrow> ('s, 'u) runConfig \<Rightarrow> Event \<Rightarrow> ('s, 'u) World \<Rightarrow> ('s, 'u) World" where
  "emit ctx cfg e w =
     (let h = (case rc_events cfg of Some f \<Rightarrow> Some f | None \<Rightarrow> ctx_Events ctx);
          e = (if ev_RunID e = '''' then e\<lparr>ev_RunID := rc_runID cfg\<rparr> else e);
          e = (if ev_ThreadID e = '''' then e\<lparr>ev_ThreadID := rc_threadID cfg\<rparr> else e)
      in safeEmit h e w)"

text \<open>\<open>Event{Type, NodeID, Step, CheckpointID}\<close>.\<close>

definition node_event :: "EventType \<Rightarrow> string \<Rightarrow> int \<Rightarrow> string \<Rightarrow> Event" where
  "node_event t node step ckpt =
     (new_event t)\<lparr>ev_NodeID := node, ev_Step := step, ev_CheckpointID := ckpt\<rparr>"

definition enrichCtx ::
  "('s, 'u) Ctx \<Rightarrow> ('s, 'u) runConfig \<Rightarrow> string \<Rightarrow> ('s, 'u) World \<Rightarrow> ('s, 'u) Ctx" where
  "enrichCtx ctx cfg parent w =
     (let ctx = ctx\<lparr>ctx_ThreadID := rc_threadID cfg, ctx_RunID := rc_runID cfg,
                    ctx_ParentCheckpointID := parent\<rparr>;
          ctx = withEventHandler ctx (rc_events cfg)
      in case w_sess w of None \<Rightarrow> ctx | Some gr \<Rightarrow> ctx\<lparr>ctx_LeaseGrant := Some gr\<rparr>)"

text \<open>
  The status of a finished run, from its error and the cause of its context, as
  \<open>emitRunEnd\<close> and \<open>withLease\<close> both compute it.
\<close>

definition run_status :: "gerror option \<Rightarrow> gerror option \<Rightarrow> string" where
  "run_status err cause =
     (case err of
        None \<Rightarrow> ''completed''
      | Some e \<Rightarrow>
          if IsInterrupted err then ''paused''
          else if errors_is e ErrLeaseLost
                  \<or> (case cause of Some c \<Rightarrow> errors_is c ErrLeaseLost | None \<Rightarrow> False)
          then ''lease_lost''
          else if errors_is e Canceled \<or> errors_is e DeadlineExceeded then ''cancelled''
          else ''error'')"

definition emitRunEnd ::
  "('s, 'u) Ctx \<Rightarrow> ('s, 'u) runConfig \<Rightarrow> gerror option \<Rightarrow> ('s, 'u) World \<Rightarrow> ('s, 'u) World" where
  "emitRunEnd ctx cfg err w =
     (let st = run_status err (ctx_Cause w);
          meta = [''status'' \<mapsto> AStr st];
          meta = (case err of
                    Some e \<Rightarrow> if st = ''lease_lost'' \<or> st = ''error''
                              then meta(''error'' \<mapsto> AErr e) else meta
                  | None \<Rightarrow> meta)
      in emit ctx cfg ((new_event EventRunEnd)\<lparr>ev_Err := err, ev_Metadata := meta\<rparr>) w)"

section \<open>Persistence\<close>

definition cause_is_lease_lost :: "('s, 'u) World \<Rightarrow> bool" where
  "cause_is_lease_lost w =
     (case ctx_Cause w of Some c \<Rightarrow> errors_is c ErrLeaseLost | None \<Rightarrow> False)"

definition leaseLostFrom :: "('s, 'u) World \<Rightarrow> gerror option" where
  "leaseLostFrom w =
     (if cause_is_lease_lost w then Some ErrLeaseLost
      else if ctx_Err w \<noteq> None \<and> cause_is_lease_lost w then Some ErrLeaseLost
      else None)"

definition hasStore :: "('s, 'u) Compiled \<Rightarrow> bool" where
  "hasStore g \<longleftrightarrow> g_durable g \<noteq> None \<or> g_checkpointer g \<noteq> None"

definition persist ::
  "('s, 'u) Compiled \<Rightarrow> ('s, 'u) runConfig \<Rightarrow> Snapshot \<Rightarrow> StepArtifact list
   \<Rightarrow> ('s, 'u) World \<Rightarrow> gerror option \<times> ('s, 'u) World" where
  "persist g cfg snap arts w =
     (case leaseLostFrom w of
        Some e \<Rightarrow> (Some e, w)
      | None \<Rightarrow>
        (case g_durable g of
           Some d \<Rightarrow>
             (case g_lease g of
                Some _ \<Rightarrow>
                  (case dc_CommitStepFenced d of
                     None \<Rightarrow> (Some (Errorf ''graph: ExecutionLease with durable store requires LeaseFencedCommitter'' []), w)
                   | Some commit_fenced \<Rightarrow>
                       (case w_sess w of
                          None \<Rightarrow> (Some (Errorf ''graph: missing lease grant for fenced commit'' []), w)
                        | Some gr \<Rightarrow> commit_fenced snap arts gr w))
              | None \<Rightarrow> dc_CommitStep d snap arts w)
         | None \<Rightarrow>
             (case g_checkpointer g of
                Some cp \<Rightarrow> cp_Put cp (rc_threadID cfg) snap w
              | None \<Rightarrow> (Some (Errorf ''graph: no checkpointer'' []), w))))"

definition loadLatest ::
  "('s, 'u) Compiled \<Rightarrow> string \<Rightarrow> ('s, 'u) World \<Rightarrow> gerror + Snapshot option" where
  "loadLatest g thread w =
     (case g_durable g of
        Some d \<Rightarrow> dc_GetLatest d thread w
      | None \<Rightarrow> (case g_checkpointer g of
                   Some cp \<Rightarrow> cp_Get cp thread w
                 | None \<Rightarrow> Inl (Errorf ''nil pointer dereference'' [])))"

section \<open>Routing\<close>

definition next_node ::
  "('s, 'u) Compiled \<Rightarrow> ('s, 'u) Ctx \<Rightarrow> string \<Rightarrow> State \<Rightarrow> gerror + string" where
  "next_node g ctx from s =
     (case g_routes g from of
        Some route \<Rightarrow>
          (let to = route ctx s
           in if to = '''' then Inr END
              else if to \<noteq> END \<and> g_nodes g to = None
              then Inl (Errorf ''graph: route from %q to unknown %q'' [AStr from, AStr to])
              else Inr to)
      | None \<Rightarrow> (case g_edges g from of None \<Rightarrow> Inr END | Some to \<Rightarrow> Inr to))"

section \<open>The super-step loop\<close>

text \<open>The variables of the loop in \<open>run\<close>, and what \<open>run\<close> returns, with the world.\<close>

record ('s, 'u) run_state =
  rs_ctx :: "('s, 'u) Ctx"
  rs_state :: State
  rs_node :: string
  rs_step :: int
  rs_parent :: string
  rs_world :: "('s, 'u) World"

type_synonym ('s, 'u) outcome = "State \<times> gerror option \<times> ('s, 'u) World"

text \<open>The snapshot literals of \<open>run\<close>; the store fills in the revision.\<close>

definition new_snapshot ::
  "('s, 'u) runConfig \<Rightarrow> string \<Rightarrow> string \<Rightarrow> gotime \<Rightarrow> string \<Rightarrow> State \<Rightarrow> int \<Rightarrow> gval option
   \<Rightarrow> Snapshot" where
  "new_snapshot cfg ckpt parent now node state step interrupt =
     \<lparr>sn_CheckpointID = ckpt, sn_ParentCheckpointID = parent, sn_Revision = 0,
      sn_CreatedAt = now, sn_ThreadID = rc_threadID cfg, sn_Node = node, sn_State = state,
      sn_Step = step, sn_Interrupt = (interrupt \<noteq> None),
      sn_InterruptValue = (case interrupt of Some v \<Rightarrow> v | None \<Rightarrow> VNil)\<rparr>"

text \<open>
  The branch of a node that asked for an interrupt: a checkpoint that re-enters the node,
  with the artifacts registered so far, then the interrupt is returned.
\<close>

definition on_interrupt ::
  "('s, 'u) Compiled \<Rightarrow> ('s, 'u) runConfig \<Rightarrow> ('s, 'u) Ctx \<Rightarrow> nat \<Rightarrow> InterruptError
   \<Rightarrow> string \<Rightarrow> int \<Rightarrow> string \<Rightarrow> State \<Rightarrow> ('s, 'u) World \<Rightarrow> ('s, 'u) outcome" where
  "on_interrupt g cfg nodeCtx col ie0 node step parent state w =
     (let ie = ie0\<lparr>ie_Node := node\<rparr>
      in if \<not> hasStore g
         then (state,
               Some (Wrapf ''graph: interrupt at %q requires a checkpointer: %w'' [AStr node] (Interrupted ie)),
               emit nodeCtx cfg
                 ((node_event EventNodeError node step '''')\<lparr>ev_Err := Some (Interrupted ie)\<rparr>) w)
         else
           (let (ckpt, w1) = draw_id w;
                snap = new_snapshot cfg ckpt parent (w_clock w1) node state step
                         (Some (ie_Value ie));
                (putErr, w2) = persist g cfg snap (collector_snapshot col w1) w1
            in case putErr of
                 Some e \<Rightarrow>
                   (state, Some e,
                    emit nodeCtx cfg
                      ((node_event EventCheckpointError node step ckpt)\<lparr>ev_Err := Some e\<rparr>) w2)
               | None \<Rightarrow>
                   (state, Some (Interrupted ie),
                    emit nodeCtx cfg (node_event EventInterrupt node step ckpt)
                      (emit nodeCtx cfg
                        ((node_event EventCheckpoint node step ckpt)
                           \<lparr>ev_Metadata := [''interrupt'' \<mapsto> AStr ''true'']\<rparr>) w2))))"

text \<open>
  The checkpoint after a successful node, when the graph has a store: the new parent id, the
  context that carries it and the world, or the run's result when persisting failed.
\<close>

definition write_checkpoint ::
  "('s, 'u) Compiled \<Rightarrow> ('s, 'u) runConfig \<Rightarrow> ('s, 'u) Ctx \<Rightarrow> ('s, 'u) Ctx \<Rightarrow> nat
   \<Rightarrow> string \<Rightarrow> string \<Rightarrow> int \<Rightarrow> string \<Rightarrow> State \<Rightarrow> ('s, 'u) World
   \<Rightarrow> ('s, 'u) outcome + (string \<times> ('s, 'u) Ctx \<times> ('s, 'u) World)" where
  "write_checkpoint g cfg ctx nodeCtx col node next step parent state w =
     (if \<not> hasStore g then Inr (parent, ctx, w)
      else
        (let (ckpt, w1) = draw_id w;
             snap = new_snapshot cfg ckpt parent (w_clock w1) next state step None;
             (err, w2) = persist g cfg snap (collector_snapshot col w1) w1
         in case err of
              Some e \<Rightarrow>
                Inl (state, Some e,
                  emit nodeCtx cfg
                    ((node_event EventCheckpointError node step ckpt)\<lparr>ev_Err := Some e\<rparr>) w2)
            | None \<Rightarrow>
                Inr (ckpt, ctx\<lparr>ctx_ParentCheckpointID := ckpt\<rparr>,
                  emit nodeCtx cfg
                    ((node_event EventCheckpoint node step ckpt)
                       \<lparr>ev_Metadata := [''next'' \<mapsto> AStr next]\<rparr>) w2)))"

text \<open>
  The rest of the round after a node returned without error: apply the update, route, write
  the checkpoint, and go on unless the step bound is reached.
\<close>

definition after_node ::
  "('s, 'u) Compiled \<Rightarrow> ('s, 'u) runConfig \<Rightarrow> ('s, 'u) Ctx \<Rightarrow> ('s, 'u) Ctx \<Rightarrow> nat \<Rightarrow> Update
   \<Rightarrow> string \<Rightarrow> int \<Rightarrow> string \<Rightarrow> State \<Rightarrow> ('s, 'u) World
   \<Rightarrow> ('s, 'u) outcome + ('s, 'u) run_state" where
  "after_node g cfg ctx0 nodeCtx col upd node step0 parent state0 w0 =
     (let w1 = emit nodeCtx cfg (node_event EventNodeEnd node step0 parent) w0;
          state = Apply state0 upd (g_reducers g);
          step = wrap64 (step0 + 1);
          ctx = ctx0\<lparr>ctx_Resume := VNil\<rparr>
      in case next_node g ctx node state of
           Inl e \<Rightarrow> Inl (state, Some e, w1)
         | Inr next \<Rightarrow>
         (let w2 = emit nodeCtx cfg
                 ((node_event EventRoute node step parent)
                    \<lparr>ev_Metadata := [''from'' \<mapsto> AStr node, ''to'' \<mapsto> AStr next]\<rparr>) w1
          in case write_checkpoint g cfg ctx nodeCtx col node next step parent state w2 of
               Inl out \<Rightarrow> Inl out
             | Inr (parent', ctx', w3) \<Rightarrow>
                 if rc_maxSteps cfg > 0 \<and> step \<ge> rc_maxSteps cfg
                 then Inl (state,
                        Some (Errorf ''graph: max steps %d exceeded'' [AInt (rc_maxSteps cfg)]),
                        w3)
                 else Inr \<lparr>rs_ctx = ctx', rs_state = state, rs_node = next, rs_step = step,
                           rs_parent = parent', rs_world = w3\<rparr>))"

text \<open>The context a node is called with.\<close>

definition node_context ::
  "('s, 'u) Ctx \<Rightarrow> string \<Rightarrow> string \<Rightarrow> ('s, 'u) World \<Rightarrow> ('s, 'u) Ctx \<times> nat \<times> ('s, 'u) World" where
  "node_context ctx node parent w =
     (let nc = ctx\<lparr>ctx_NodeID := node, ctx_ParentCheckpointID := parent\<rparr>;
          nc = (case w_sess w of None \<Rightarrow> nc | Some gr \<Rightarrow> nc\<lparr>ctx_LeaseGrant := Some gr\<rparr>)
      in WithStepArtifacts nc w)"

text \<open>
  The call of a node: its context, its start event, and the call. The result comes with the
  node's context, the address of its collector and the world the call left.
\<close>

definition call_node ::
  "('s, 'u) runConfig \<Rightarrow> ('s, 'u) NodeFunc \<Rightarrow> ('s, 'u) Ctx \<Rightarrow> State \<Rightarrow> string \<Rightarrow> int \<Rightarrow> string
   \<Rightarrow> ('s, 'u) World \<Rightarrow> ('s, 'u) Ctx \<times> nat \<times> node_result \<times> ('s, 'u) World" where
  "call_node cfg fn ctx state node step parent w =
     (let (nodeCtx, col, w1) = node_context ctx node parent w;
          w2 = emit nodeCtx cfg (node_event EventNodeStart node step parent) w1;
          (res, w3) = fn nodeCtx state w2
      in (nodeCtx, col, res, w3))"

text \<open>
  What \<open>run\<close> does with the result of a node call. A lost lease discards it; an interrupt is
  checkpointed; an error ends the run.
\<close>

definition handle_result ::
  "('s, 'u) Compiled \<Rightarrow> ('s, 'u) runConfig \<Rightarrow> ('s, 'u) Ctx \<Rightarrow> ('s, 'u) Ctx \<Rightarrow> nat \<Rightarrow> node_result
   \<Rightarrow> string \<Rightarrow> int \<Rightarrow> string \<Rightarrow> ('s, 'u) World \<Rightarrow> ('s, 'u) outcome + ('s, 'u) run_state" where
  "handle_result g cfg ctx nodeCtx col res node step parent w =
     (case leaseLostFrom w of
        Some e \<Rightarrow> Inl (nr_State res, Some e, w)
      | None \<Rightarrow>
        (case nr_Err res of
           Some err \<Rightarrow>
             (case AsInterrupt err of
                Some ie \<Rightarrow> Inl (on_interrupt g cfg nodeCtx col ie node step parent (nr_State res) w)
              | None \<Rightarrow>
                  Inl (nr_State res, Some (Wrapf ''graph: node %q: %w'' [AStr node] err),
                    emit nodeCtx cfg
                      ((node_event EventNodeError node step '''')\<lparr>ev_Err := Some err\<rparr>) w))
         | None \<Rightarrow>
             after_node g cfg ctx nodeCtx col (nr_Update res) node step parent (nr_State res) w))"

text \<open>One evaluation of the loop's condition and body.\<close>

definition run_body ::
  "('s, 'u) Compiled \<Rightarrow> ('s, 'u) runConfig \<Rightarrow> ('s, 'u) run_state
   \<Rightarrow> ('s, 'u) outcome + ('s, 'u) run_state" where
  "run_body g cfg rs =
     (let ctx = rs_ctx rs; state = rs_state rs; node = rs_node rs; step = rs_step rs;
          parent = rs_parent rs; w = rs_world rs
      in if node = '''' \<or> node = END then Inl (state, None, w)
         else (case leaseLostFrom w of
           Some e \<Rightarrow> Inl (state, Some e, w)
         | None \<Rightarrow> (case ctx_Err w of
           Some e \<Rightarrow> Inl (state, Some e, w)
         | None \<Rightarrow> (case g_nodes g node of
           None \<Rightarrow> Inl (state, Some (Errorf ''graph: unknown node %q'' [AStr node]), w)
         | Some fn \<Rightarrow>
           (let (nodeCtx, col, res, w1) = call_node cfg fn ctx state node step parent w
            in handle_result g cfg ctx nodeCtx col res node step parent w1)))))"

definition run ::
  "('s, 'u) Compiled \<Rightarrow> ('s, 'u) Ctx \<Rightarrow> State \<Rightarrow> string \<Rightarrow> int \<Rightarrow> string
   \<Rightarrow> ('s, 'u) runConfig \<Rightarrow> ('s, 'u) World \<Rightarrow> ('s, 'u) outcome option" where
  "run g ctx state node step parent cfg w =
     go_loop (run_body g cfg)
       \<lparr>rs_ctx = ctx, rs_state = state, rs_node = node, rs_step = step, rs_parent = parent,
        rs_world = w\<rparr>"

section \<open>The execution lease around a run\<close>

definition heartbeatInterval :: "duration \<Rightarrow> duration" where
  "heartbeatInterval ttl =
     (let iv = go_div ttl 3;
          iv = (if iv \<le> 0 then millisecond else iv);
          mx = go_div ttl 2
      in if mx > 0 \<and> iv \<ge> mx
         then (let iv = mx - millisecond in if iv \<le> 0 then millisecond else iv)
         else iv)"

definition leaseErrClass :: "gerror \<Rightarrow> string" where
  "leaseErrClass e =
     (if errors_is e ErrLeaseLost then ''lost''
      else if errors_is e Canceled \<or> errors_is e DeadlineExceeded then ''canceled''
      else ''error'')"

text \<open>
  One round of the heartbeat goroutine: if the run's context is done it stops (\<open>False\<close>);
  otherwise, at a tick, it renews the session's grant, and on failure cancels the run and
  stops.
\<close>

definition heartbeat_tick ::
  "('s, 'u) ExecutionLease \<Rightarrow> ('s, 'u) Ctx \<Rightarrow> ('s, 'u) runConfig \<Rightarrow> duration
   \<Rightarrow> LeaseGrant \<Rightarrow> ('s, 'u) World \<Rightarrow> bool \<times> ('s, 'u) World" where
  "heartbeat_tick l ctx cfg ttl grant w =
     (if ctx_Err w \<noteq> None then (False, w)
      else (case el_Renew l grant ttl w of
              (Inl e, w1) \<Rightarrow>
                if ctx_Err w1 \<noteq> None then (False, w1)
                else
                  (let w2 = emit ctx cfg
                         ((new_event EventLeaseRenewFailed)
                            \<lparr>ev_Err := Some e,
                             ev_Metadata := [''epoch'' \<mapsto> AInt (lg_Epoch grant),
                                             ''class'' \<mapsto> AStr (leaseErrClass e)]\<rparr>) w1
                   in (False,
                       cancel_run
                         (if errors_is e ErrLeaseLost then ErrLeaseLost
                          else Wrapf ''%w: renew: %v'' [AErr e] ErrLeaseLost) w2))
            | (Inr next, w1) \<Rightarrow> (True, w1\<lparr>w_sess := Some next\<rparr>)))"

text \<open>
  The goroutine \<open>leaseHeartbeat\<close>, one tick at a time: it is the environment of node calls, so
  a node's effect on the world includes the ticks that fire during the call.
\<close>

fun heartbeat_ticks ::
  "('s, 'u) ExecutionLease \<Rightarrow> ('s, 'u) Ctx \<Rightarrow> ('s, 'u) runConfig \<Rightarrow> duration
   \<Rightarrow> nat \<Rightarrow> ('s, 'u) World \<Rightarrow> ('s, 'u) World" where
  "heartbeat_ticks l ctx cfg ttl 0 w = w"
| "heartbeat_ticks l ctx cfg ttl (Suc n) w =
     (case w_sess w of
        None \<Rightarrow> w
      | Some gr \<Rightarrow>
          (case heartbeat_tick l ctx cfg ttl gr w of
             (True, w') \<Rightarrow> heartbeat_ticks l ctx cfg ttl n w'
           | (False, w') \<Rightarrow> w'))"

definition lease_ttl :: "('s, 'u) Compiled \<Rightarrow> ('s, 'u) runConfig \<Rightarrow> duration" where
  "lease_ttl g cfg =
     (let ttl = rc_leaseTTL cfg;
          ttl = (if ttl \<le> 0 then g_leaseTTL g else ttl)
      in if ttl \<le> 0 then DefaultLeaseTTL else ttl)"

text \<open>
  The end of \<open>withLease\<close>: stop the heartbeat, report, and release the session's grant under
  a context that the caller's cancellation does not reach.
\<close>

definition release_lease ::
  "('s, 'u) ExecutionLease \<Rightarrow> ('s, 'u) Ctx \<Rightarrow> ('s, 'u) runConfig \<Rightarrow> LeaseGrant
   \<Rightarrow> gerror option \<Rightarrow> ('s, 'u) World \<Rightarrow> ('s, 'u) World" where
  "release_lease l ctx cfg grant err w =
     (let w1 = cancel_run Canceled w;
          status = run_status err (ctx_Cause w1);
          final = (case w_sess w1 of Some gr \<Rightarrow> gr | None \<Rightarrow> grant);
          w2 = emit ctx cfg
                 ((new_event EventLeaseReleased)
                    \<lparr>ev_Metadata := [''epoch'' \<mapsto> AInt (lg_Epoch final), ''status'' \<mapsto> AStr status]\<rparr>) w1;
          (_, w3) = el_Release l final (w2\<lparr>w_caller := None, w_cancel := None\<rparr>)
      in w3\<lparr>w_caller := w_caller w2, w_cancel := None\<rparr>)"

definition withLease ::
  "('s, 'u) Compiled \<Rightarrow> ('s, 'u) Ctx \<Rightarrow> ('s, 'u) runConfig
   \<Rightarrow> (('s, 'u) Ctx \<Rightarrow> ('s, 'u) World \<Rightarrow> ('s, 'u) outcome option)
   \<Rightarrow> ('s, 'u) World \<Rightarrow> ('s, 'u) outcome option" where
  "withLease g ctx cfg body w =
     (case g_lease g of
        None \<Rightarrow> body ctx w
      | Some l \<Rightarrow>
        (let ttl = lease_ttl g cfg
         in case el_Acquire l (rc_threadID cfg) (rc_runID cfg) ttl w of
              (Inl e, w1) \<Rightarrow> Some (Map.empty, Some e, w1)
            | (Inr grant, w1) \<Rightarrow>
              (let w2 = derive_ctx (w1\<lparr>w_sess := Some grant\<rparr>);
                   runCtx = withEventHandler
                     (ctx\<lparr>ctx_ThreadID := rc_threadID cfg, ctx_RunID := rc_runID cfg\<rparr>)
                     (rc_events cfg);
                   runCtx = runCtx\<lparr>ctx_LeaseGrant := Some grant\<rparr>;
                   w3 = emit runCtx cfg
                     ((new_event EventLeaseAcquired)
                        \<lparr>ev_Metadata := [''epoch'' \<mapsto> AInt (lg_Epoch grant), ''ttl'' \<mapsto> AInt ttl]\<rparr>) w2
               in case body runCtx w3 of
                    None \<Rightarrow> None
                  | Some (out, err, w4) \<Rightarrow>
                      Some (out, err, release_lease l ctx cfg grant err w4))))"

section \<open>Invoke and Resume\<close>

definition Invoke ::
  "('s, 'u) Compiled \<Rightarrow> ('s, 'u) Ctx \<Rightarrow> State \<Rightarrow> ('s, 'u) RunOption list
   \<Rightarrow> ('s, 'u) World \<Rightarrow> ('s, 'u) outcome option" where
  "Invoke g ctx0 input opts w0 =
     (let (cfg, w) = prepareRun g opts (w0\<lparr>w_sess := None\<rparr>)
      in withLease g ctx0 cfg
           (\<lambda>ctx1 w1.
              let ctx = enrichCtx ctx1 cfg '''' w1;
                  w2 = emit ctx cfg (new_event EventRunStart) w1
              in case run g ctx input (g_entry g) 0 '''' cfg w2 of
                   None \<Rightarrow> None
                 | Some (out, err, w3) \<Rightarrow> Some (out, err, emitRunEnd ctx cfg err w3))
           w)"

text \<open>The body of \<open>Resume\<close>, run under the lease.\<close>

definition resume_body ::
  "('s, 'u) Compiled \<Rightarrow> ('s, 'u) runConfig \<Rightarrow> ('s, 'u) Ctx \<Rightarrow> ('s, 'u) World
   \<Rightarrow> ('s, 'u) outcome option" where
  "resume_body g cfg ctx1 w1 =
     (case loadLatest g (rc_threadID cfg) w1 of
        Inl e \<Rightarrow> Some (Map.empty, Some e, w1)
      | Inr None \<Rightarrow>
          Some (Map.empty,
                Some (Errorf ''graph: no checkpoint for thread %q'' [AStr (rc_threadID cfg)]), w1)
      | Inr (Some snap) \<Rightarrow>
        if rc_expectedCheckpointID cfg \<noteq> '''' \<and> sn_CheckpointID snap \<noteq> rc_expectedCheckpointID cfg
        then Some (Map.empty,
               Some (Wrapf ''%w: want %q, latest %q''
                 [AStr (rc_expectedCheckpointID cfg), AStr (sn_CheckpointID snap)]
                 ErrExpectedCheckpointMismatch), w1)
        else
          (let state = (case rc_command cfg of
                 Some cmd \<Rightarrow> (case cmd_Update cmd of
                     Some u \<Rightarrow> Apply (sn_State snap) u (g_reducers g)
                   | None \<Rightarrow> sn_State snap)
               | None \<Rightarrow> sn_State snap);
               node = (case rc_command cfg of
                 Some cmd \<Rightarrow> if cmd_Goto cmd \<noteq> '''' then cmd_Goto cmd else sn_Node snap
               | None \<Rightarrow> sn_Node snap);
               ckpt = sn_CheckpointID snap
           in if node = '''' \<or> node = END then
                (let ctx = enrichCtx ctx1 cfg ckpt w1;
                     w2 = emit ctx cfg
                       ((new_event EventRunResume)
                          \<lparr>ev_CheckpointID := ckpt, ev_Step := sn_Step snap\<rparr>) w1;
                     w3 = emit ctx cfg
                       ((new_event EventRunEnd)
                          \<lparr>ev_CheckpointID := ckpt, ev_Step := sn_Step snap,
                           ev_Metadata := [''status'' \<mapsto> AStr ''completed'']\<rparr>) w2
                 in Some (state, None, w3))
              else if sn_Interrupt snap \<and>
                   (case rc_command cfg of None \<Rightarrow> True | Some cmd \<Rightarrow> cmd_Resume cmd = VNil)
              then Some (state,
                     Some (Errorf ''graph: interrupted at %q; resume requires WithCommand(Command{Resume: ...})''
                       [AStr node]), w1)
              else
                (let ctx2 = (if sn_Interrupt snap
                       then ctx1\<lparr>ctx_Resume :=
                              (case rc_command cfg of Some cmd \<Rightarrow> cmd_Resume cmd | None \<Rightarrow> VNil)\<rparr>
                       else ctx1);
                     ctx = enrichCtx ctx2 cfg ckpt w1;
                     w2 = emit ctx cfg
                       (node_event EventRunResume node (sn_Step snap) ckpt) w1
                 in case run g ctx state node (sn_Step snap) ckpt cfg w2 of
                      None \<Rightarrow> None
                    | Some (out, err, w3) \<Rightarrow> Some (out, err, emitRunEnd ctx cfg err w3))))"

definition Resume ::
  "('s, 'u) Compiled \<Rightarrow> ('s, 'u) Ctx \<Rightarrow> string \<Rightarrow> ('s, 'u) RunOption list
   \<Rightarrow> ('s, 'u) World \<Rightarrow> ('s, 'u) outcome option" where
  "Resume g ctx0 thread opts w0 =
     (let (cfg, w) = prepareRun g opts (w0\<lparr>w_sess := None\<rparr>);
          cfg = (if thread \<noteq> '''' then cfg\<lparr>rc_threadID := thread\<rparr> else cfg)
      in if g_durable g = None \<and> g_checkpointer g = None
         then Some (Map.empty, Some (Errorf ''graph: resume requires a checkpointer'' []), w)
         else withLease g ctx0 cfg (resume_body g cfg) w)"

end
