(* ===== verification/Samples.thy ===== *)
theory Samples
  imports Engine
begin

text \<open>
  Concrete worlds, nodes and graphs. The instances that show the hypotheses of the properties
  to be satisfiable run on them. Nothing here models code of the repository.
\<close>

section \<open>Worlds\<close>

text \<open>A random source whose \<open>i\<close>-th read ends in the byte \<open>i\<close>: 256 distinct reads.\<close>

definition sample_rng :: rng where
  "sample_rng = \<lparr>rng_reads = (\<lambda>i. Some (replicate 15 0 @ [word_of_nat i])), rng_pos = 0\<rparr>"

definition sample_world :: "'s \<Rightarrow> ('s, unit) World" where
  "sample_world s = \<lparr>w_store = s, w_user = (), w_clock = 1000, w_rng = sample_rng,
     w_caller = None, w_cancel = None, w_sess = None, w_collectors = [], w_trace = []\<rparr>"

lemma sample_world_simps [simp]:
  "w_store (sample_world s) = s" "w_clock (sample_world s) = 1000"
  "w_rng (sample_world s) = sample_rng" "w_caller (sample_world s) = None"
  "w_cancel (sample_world s) = None" "w_sess (sample_world s) = None"
  "w_trace (sample_world s) = []" "w_collectors (sample_world s) = []"
  "(sample_world s)\<lparr>w_sess := None\<rparr> = sample_world s"
  by (simp_all add: sample_world_def)

section \<open>Nodes\<close>

text \<open>A node that computes its update from the state and touches nothing else.\<close>

definition pure_node :: "(State \<Rightarrow> Update) \<Rightarrow> ('s, 'u) NodeFunc" where
  "pure_node f ctx s w = (\<lparr>nr_Update = f s, nr_Err = None, nr_State = s\<rparr>, w)"

text \<open>A node that asks for a value and stores the answer.\<close>

definition ask_node :: "string \<Rightarrow> gval \<Rightarrow> ('s, 'u) NodeFunc" where
  "ask_node key v ctx s w =
     ((case InterruptOrResume ctx v of
         Inl e \<Rightarrow> \<lparr>nr_Update = [], nr_Err = Some e, nr_State = s\<rparr>
       | Inr a \<Rightarrow> \<lparr>nr_Update = [(key, a)], nr_Err = None, nr_State = s\<rparr>), w)"

lemma pure_node_world [simp]: "snd (pure_node f ctx s w) = w"
  by (simp add: pure_node_def)

lemma ask_node_world [simp]: "snd (ask_node k v ctx s w) = w"
  by (simp add: ask_node_def)

text \<open>An event handler that does nothing.\<close>

definition silent :: "('s, 'u) EventHandler" where
  "silent e w = w"

section \<open>Graphs\<close>

definition bare_graph ::
  "(string \<Rightarrow> ('s, 'u) NodeFunc option) \<Rightarrow> (string \<Rightarrow> string option) \<Rightarrow> string \<Rightarrow> ('s, 'u) Compiled" where
  "bare_graph ns es entry = \<lparr>g_nodes = ns, g_edges = es, g_routes = Map.empty,
     g_reducers = Map.empty, g_entry = entry, g_checkpointer = None, g_durable = None,
     g_lease = None, g_leaseTTL = DefaultLeaseTTL,
     g_leaseReleaseTimeout = DefaultLeaseReleaseTimeout\<rparr>"

text \<open>One node with an edge back to itself.\<close>

definition loop_graph :: "('s, 'u) Compiled" where
  "loop_graph = bare_graph [''a'' \<mapsto> pure_node (\<lambda>s. [(''seen'', VBool True)])] [''a'' \<mapsto> ''a''] ''a''"

text \<open>Two nodes in a row, the second reading what the first wrote.\<close>

definition two_step :: "('s, 'u) Compiled" where
  "two_step = bare_graph
     [''a'' \<mapsto> pure_node (\<lambda>s. [(''x'', VInt 1)]),
      ''b'' \<mapsto> pure_node (\<lambda>s. [(''y'', at_key s ''x'')])]
     [''a'' \<mapsto> ''b'', ''b'' \<mapsto> END] ''a''"

text \<open>A node that pauses, then one that follows it.\<close>

definition ask_graph :: "('s, 'u) Compiled" where
  "ask_graph = bare_graph
     [''ask'' \<mapsto> ask_node ''answer'' (VString ''ok?''),
      ''b'' \<mapsto> pure_node (\<lambda>s. [(''y'', at_key s ''answer'')])]
     [''ask'' \<mapsto> ''b''] ''ask''"

text \<open>The configuration of a run with the given options on a sample world.\<close>

definition sample_config :: "('s, 'u) runConfig" where
  "sample_config = \<lparr>rc_threadID = ''default'', rc_maxSteps = 0, rc_command = None,
     rc_runID = hex_encode (replicate 16 0), rc_events = None, rc_leaseTTL = DefaultLeaseTTL,
     rc_expectedCheckpointID = ''''\<rparr>"

lemma hex_encode_Cons [simp]:
  "hex_encode (b # bs) = hex_digit (unat b div 16) # hex_digit (unat b mod 16) # hex_encode bs"
  by (simp add: hex_encode_def)

lemma zeros: "replicate 15 (0 :: 8 word) @ [0] = replicate 16 0"
  by (simp add: replicate_append_same flip: replicate_Suc)

lemma sample_draw_id:
  "draw_id (sample_world s)
    = (hex_encode (replicate 16 0), (sample_world s)\<lparr>w_rng := sample_rng\<lparr>rng_pos := 1\<rparr>\<rparr>)"
  by (simp add: draw_id_def NewID_def sample_world_def sample_rng_def zeros)

lemma hex_encode_zeros [simp]: "hex_encode (replicate 16 0) \<noteq> ''''"
  by (simp add: hex_encode_def)

section \<open>Evaluating a run\<close>

text \<open>
  What unfolds when a run of a bare graph on a sample world is evaluated, with up to four
  rounds of its loop.
\<close>

lemmas run_eval [engine_defs] =
  Invoke_def prepareRun_def sample_draw_id withLease_def run_def
  go_unrolled_def [where n = "Suc (Suc (Suc (Suc 0)))", symmetric] go_unrolled_Suc run_body_def
  leaseLostFrom_def cause_is_lease_lost_def ctx_Cause_def ctx_Err_def emit_def safeEmit_def
  enrichCtx_def withEventHandler_def call_node_def node_context_def WithStepArtifacts_def
  handle_result_def after_node_def next_node_def write_checkpoint_def hasStore_def
  emitRunEnd_def run_status_def node_event_def new_event_def Let_def pure_node_def silent_def
  bare_graph_def wrap64_def

text \<open>A lease that refuses every renewal, and a node during which the heartbeat ticks once.\<close>

definition sample_grant :: LeaseGrant where
  "sample_grant = \<lparr>lg_ThreadID = ''t'', lg_RunID = ''r'', lg_Epoch = 1, lg_ExpiresAt = 5000\<rparr>"

definition lost_lease :: "('s, 'u) ExecutionLease" where
  "lost_lease = \<lparr>el_Acquire = (\<lambda>t r ttl w. (Inr sample_grant, w)),
     el_Renew = (\<lambda>gr ttl w. (Inl ErrLeaseLost, w)), el_Release = (\<lambda>gr w. (None, w))\<rparr>"

definition ticking_node :: "('s, 'u) NodeFunc" where
  "ticking_node ctx s w = (\<lparr>nr_Update = [(''x'', VInt 1)], nr_Err = None, nr_State = s\<rparr>,
     heartbeat_ticks lost_lease Background sample_config 9 (Suc 0) w)"

definition ticking_graph :: "('s, 'u) Compiled" where
  "ticking_graph = (bare_graph [''a'' \<mapsto> ticking_node] [''a'' \<mapsto> END] ''a'')
     \<lparr>g_lease := Some lost_lease\<rparr>"

end
