(* ===== verification/EngineFacts.thy ===== *)
theory EngineFacts
  imports Samples
begin

text \<open>
  What every run of the engine guarantees, whatever its nodes, handlers and stores do: how
  one round of the loop can go on, that a step bound makes the run return, that a lost lease
  stops every write, the order of a round's events, and the heartbeat's interval and its
  effect on the run.
\<close>

section \<open>Cancellation\<close>

lemma leaseLostFrom_eq:
  "leaseLostFrom w = (if cause_is_lease_lost w then Some ErrLeaseLost else None)"
  by (simp add: leaseLostFrom_def)

lemma leaseLostFrom_SomeD: "leaseLostFrom w = Some e \<Longrightarrow> e = ErrLeaseLost"
  by (simp add: leaseLostFrom_eq split: if_splits)

lemma cause_is_lease_lost_Err: "cause_is_lease_lost w \<Longrightarrow> ctx_Err w \<noteq> None"
  by (auto simp: cause_is_lease_lost_def ctx_Cause_def ctx_Err_def split: option.splits)

text \<open>The first cancellation decides: a later one changes neither \<open>Err\<close> nor \<open>Cause\<close>.\<close>

lemma cancel_run_first:
  "ctx_Err w \<noteq> None \<Longrightarrow> cancel_run c w = w"
  by (auto simp: cancel_run_def)

lemma cancel_run_Cause:
  "ctx_Err w = None \<Longrightarrow> ctx_Cause (cancel_run c w) = Some c"
  by (simp add: cancel_run_def ctx_Cause_def)

section \<open>Rounds of the loop\<close>

text \<open>How the loop goes on: the node returned without error and without losing the lease.\<close>

lemma run_body_Inr:
  assumes "run_body g cfg rs = Inr rs'"
  obtains fn nodeCtx col res w1 where
    "rs_node rs \<noteq> ''''" "rs_node rs \<noteq> END"
    "leaseLostFrom (rs_world rs) = None" "ctx_Err (rs_world rs) = None"
    "g_nodes g (rs_node rs) = Some fn"
    "call_node cfg fn (rs_ctx rs) (rs_state rs) (rs_node rs) (rs_step rs) (rs_parent rs)
       (rs_world rs) = (nodeCtx, col, res, w1)"
    "leaseLostFrom w1 = None" "nr_Err res = None"
    "after_node g cfg (rs_ctx rs) nodeCtx col (nr_Update res) (rs_node rs) (rs_step rs)
       (rs_parent rs) (nr_State res) w1 = Inr rs'"
  using assms
  by (auto simp: run_body_def handle_result_def Let_def split: if_splits option.splits prod.splits)

lemma after_node_Inr:
  assumes "after_node g cfg ctx nodeCtx col upd node step parent state w = Inr rs'"
  obtains nxt w1 w2 where
    "w1 = emit nodeCtx cfg (node_event EventNodeEnd node step parent) w"
    "next_node g (ctx\<lparr>ctx_Resume := VNil\<rparr>) node (Apply state upd (g_reducers g)) = Inr nxt"
    "w2 = emit nodeCtx cfg
       ((node_event EventRoute node (wrap64 (step + 1)) parent)
          \<lparr>ev_Metadata := [''from'' \<mapsto> AStr node, ''to'' \<mapsto> AStr nxt]\<rparr>) w1"
    "write_checkpoint g cfg (ctx\<lparr>ctx_Resume := VNil\<rparr>) nodeCtx col node nxt (wrap64 (step + 1))
       parent (Apply state upd (g_reducers g)) w2 = Inr (rs_parent rs', rs_ctx rs', rs_world rs')"
    "rs_state rs' = Apply state upd (g_reducers g)" "rs_node rs' = nxt"
    "rs_step rs' = wrap64 (step + 1)"
    "\<not> (rc_maxSteps cfg > 0 \<and> wrap64 (step + 1) \<ge> rc_maxSteps cfg)"
  using assms
  by (auto simp: after_node_def Let_def split: if_splits sum.splits prod.splits)

lemma run_body_step:
  assumes "run_body g cfg rs = Inr rs'"
  shows "rs_step rs' = wrap64 (rs_step rs + 1)"
    and "rc_maxSteps cfg > 0 \<Longrightarrow> rs_step rs' < rc_maxSteps cfg"
  using assms by (auto elim!: run_body_Inr after_node_Inr)

text \<open>The answer of a resume is for its first round only.\<close>

lemma next_round_ctx: "run_body g cfg rs = Inr rs' \<Longrightarrow> ctx_Resume (rs_ctx rs') = VNil"
  by (erule run_body_Inr)
    (auto simp: after_node_def write_checkpoint_def Let_def split: if_splits option.splits prod.splits sum.splits)

section \<open>Termination\<close>

text \<open>With a step bound the loop returns, from any step count that has not overflowed.\<close>

lemma run_returns:
  assumes "0 < rc_maxSteps cfg" "rc_maxSteps cfg \<le> max_int64"
    and "0 \<le> step" "step < max_int64"
  shows "\<exists>out. run g ctx state node step parent cfg w = Some out"
  unfolding run_def
proof (rule go_loop_returns [where I = "\<lambda>rs. 0 \<le> rs_step rs \<and> rs_step rs < max_int64"
      and m = "\<lambda>rs. nat (max_int64 - rs_step rs)"])
  show "0 \<le> rs_step \<lparr>rs_ctx = ctx, rs_state = state, rs_node = node, rs_step = step,
      rs_parent = parent, rs_world = w\<rparr> \<and> rs_step \<lparr>rs_ctx = ctx, rs_state = state,
      rs_node = node, rs_step = step, rs_parent = parent, rs_world = w\<rparr> < max_int64"
    using assms by simp
next
  fix rs rs'
  assume I: "0 \<le> rs_step rs \<and> rs_step rs < max_int64" and b: "run_body g cfg rs = Inr rs'"
  have "rs_step rs' = rs_step rs + 1"
    using run_body_step(1) [OF b] I by (simp add: wrap64_succ)
  moreover have "rs_step rs' < rc_maxSteps cfg"
    using run_body_step(2) [OF b] assms by simp
  ultimately show "(0 \<le> rs_step rs' \<and> rs_step rs' < max_int64)
      \<and> nat (max_int64 - rs_step rs') < nat (max_int64 - rs_step rs)"
    using I assms by simp
qed

lemma outcome_returns:
  "\<exists>out. x = Some out \<Longrightarrow> \<exists>out. (case x of None \<Rightarrow> None | Some (a, b, c) \<Rightarrow> Some (f a b c)) = Some out"
  by auto

lemma withLease_returns:
  assumes "\<And>ctx w. \<exists>out. body ctx w = Some out"
  shows "\<exists>out. withLease g ctx cfg body w = Some out"
proof (cases "g_lease g")
  case None
  then show ?thesis using assms by (simp add: withLease_def)
next
  case (Some l)
  obtain a w1 where acq: "el_Acquire l (rc_threadID cfg) (rc_runID cfg) (lease_ttl g cfg) w = (a, w1)"
    by (cases "el_Acquire l (rc_threadID cfg) (rc_runID cfg) (lease_ttl g cfg) w")
  show ?thesis
  proof (cases a)
    case (Inl e)
    with Some acq show ?thesis by (simp add: withLease_def Let_def)
  next
    case (Inr grant)
    with Some acq show ?thesis
      by (simp add: withLease_def Let_def del: split_paired_Ex) (rule outcome_returns, rule assms)
  qed
qed

text \<open>
  C1: a positive step bound makes \<open>Invoke\<close> return, on every graph, cyclic ones included,
  whatever the nodes, routes, handlers, store and lease do.
\<close>

theorem Invoke_terminates:
  assumes "fst (prepareRun g opts (w\<lparr>w_sess := None\<rparr>)) = cfg"
    and "0 < rc_maxSteps cfg" "rc_maxSteps cfg \<le> max_int64"
  shows "\<exists>out. Invoke g ctx input opts w = Some out"
proof -
  obtain w' where p: "prepareRun g opts (w\<lparr>w_sess := None\<rparr>) = (cfg, w')"
    using assms(1) by (metis prod.collapse)
  have r: "\<exists>out. run g c input (g_entry g) 0 '''' cfg v = Some out" for c v
    using assms by (intro run_returns) (simp_all add: max_int64_def)
  show ?thesis
    unfolding Invoke_def p Let_def prod.case
    by (rule withLease_returns, rule outcome_returns, rule r)
qed

theorem Invoke_terminates_witness:
  "\<exists>out. Invoke loop_graph Background Map.empty [WithMaxSteps 5] (sample_world ()) = Some out"
  by (rule Invoke_terminates [where cfg = "sample_config\<lparr>rc_maxSteps := 5\<rparr>"])
    (simp_all add: prepareRun_def sample_draw_id sample_config_def bare_graph_def loop_graph_def
      WithMaxSteps_def max_int64_def)

section \<open>The heartbeat\<close>

text \<open>
  C6: the heartbeat's interval, for every positive lease lifetime: a third of it from 4
  nanoseconds on, and then positive and below half of it, so that a renewal is due twice
  before the lease expires; one millisecond for the three shortest lifetimes, which is longer
  than they last.
\<close>

theorem heartbeatInterval_spec:
  assumes "0 < ttl"
  shows "heartbeatInterval ttl = (if 4 \<le> ttl then ttl div 3 else millisecond)
    \<and> (4 \<le> ttl \<longrightarrow> 0 < heartbeatInterval ttl \<and> 2 * heartbeatInterval ttl < ttl)
    \<and> (ttl < 4 \<longrightarrow> ttl < heartbeatInterval ttl)"
proof (cases "4 \<le> ttl")
  case True
  then have "ttl div 3 < ttl div 2" "0 < ttl div 3" "2 * (ttl div 3) < ttl" by presburger+
  with True show ?thesis
    by (simp add: heartbeatInterval_def Let_def go_div_pos)
next
  case False
  with assms consider "ttl = 1" | "ttl = 2" | "ttl = 3" by fastforce
  then show ?thesis
    by cases (simp_all add: heartbeatInterval_def go_div_def Let_def)
qed

theorem heartbeatInterval_spec_witness:
  "heartbeatInterval DefaultLeaseTTL = 10 * second \<and> heartbeatInterval 3 = millisecond"
  using heartbeatInterval_spec [of DefaultLeaseTTL] heartbeatInterval_spec [of 3]
  by (simp add: DefaultLeaseTTL_def)

text \<open>A failed renewal of a live run cancels it with a cause that counts as a lost lease.\<close>

lemma heartbeat_tick_lost:
  assumes "ctx_Err w = None" "el_Renew l gr ttl w = (Inl e, w1)" "ctx_Err w1 = None"
    and "\<And>ev. ctx_Err (emit ctx cfg ev w1) = None"
    and "heartbeat_tick l ctx cfg ttl gr w = (go_on, w')"
  shows "\<not> go_on" "leaseLostFrom w' = Some ErrLeaseLost"
  using assms
  by (auto simp: heartbeat_tick_def Let_def leaseLostFrom_eq cause_is_lease_lost_def
      cancel_run_Cause)

lemma heartbeat_ticks_lost:
  assumes "w_sess w = Some gr" "ctx_Err w = None" "el_Renew l gr ttl w = (Inl e, w1)"
    and "ctx_Err w1 = None" "\<And>ev. ctx_Err (emit ctx cfg ev w1) = None"
  shows "leaseLostFrom (heartbeat_ticks l ctx cfg ttl (Suc n) w) = Some ErrLeaseLost"
proof -
  obtain go_on w' where t: "heartbeat_tick l ctx cfg ttl gr w = (go_on, w')"
    by (cases "heartbeat_tick l ctx cfg ttl gr w")
  with heartbeat_tick_lost [OF assms(2-5) t] assms(1) show ?thesis by simp
qed

lemma persist_lost: "leaseLostFrom w = Some e \<Longrightarrow> persist g cfg snap arts w = (Some e, w)"
  by (simp add: persist_def)

text \<open>
  C2: if a renewal fails while a node is running, the round in which it runs is the last one:
  the run returns \<open>ErrLeaseLost\<close> in exactly the world the heartbeat left. The node's update and
  artifacts are discarded, nothing is persisted and no further event is emitted.
\<close>

theorem lost_lease_ends_run:
  assumes "rs_node rs \<noteq> ''''" "rs_node rs \<noteq> END" "ctx_Err (rs_world rs) = None"
    and "g_nodes g (rs_node rs) = Some fn"
    and call: "call_node cfg fn (rs_ctx rs) (rs_state rs) (rs_node rs) (rs_step rs)
      (rs_parent rs) (rs_world rs)
      = (nodeCtx, col, res, heartbeat_ticks l ctx cfg ttl (Suc n) w)"
    and "w_sess w = Some gr" "ctx_Err w = None" "el_Renew l gr ttl w = (Inl e, v)"
    and "ctx_Err v = None" "\<And>ev. ctx_Err (emit ctx cfg ev v) = None"
  shows "run_body g cfg rs
    = Inl (nr_State res, Some ErrLeaseLost, heartbeat_ticks l ctx cfg ttl (Suc n) w)"
proof -
  have live: "leaseLostFrom (rs_world rs) = None"
    using assms(3) cause_is_lease_lost_Err [of "rs_world rs"] by (auto simp: leaseLostFrom_eq)
  show ?thesis
    using assms(1-4) live heartbeat_ticks_lost [OF assms(6-10), of n]
    by (simp add: run_body_def handle_result_def Let_def call del: heartbeat_ticks.simps)
qed

theorem lost_lease_ends_run_witness:
  "\<exists>w'. run_body ticking_graph sample_config
      \<lparr>rs_ctx = Background, rs_state = Map.empty, rs_node = ''a'', rs_step = 0, rs_parent = '''',
       rs_world = (sample_world ())\<lparr>w_sess := Some sample_grant\<rparr>\<rparr>
    = Inl (Map.empty, Some ErrLeaseLost, w') \<and> ctx_Err w' = Some Canceled"
proof -
  let ?w = "(sample_world ())\<lparr>w_sess := Some sample_grant, w_collectors := [newArtifactCollector]\<rparr>"
  let ?cfg = "sample_config :: (unit, unit) runConfig"
  let ?w' = "heartbeat_ticks lost_lease Background ?cfg 9 (Suc 0) ?w"
  let ?r = "\<lparr>nr_Update = [(''x'', VInt 1)], nr_Err = None, nr_State = Map.empty\<rparr> :: node_result"
  let ?nc = "Background\<lparr>ctx_NodeID := ''a'', ctx_LeaseGrant := Some sample_grant,
    ctx_Collector := Some 0\<rparr> :: (unit, unit) Ctx"
  let ?rs = "\<lparr>rs_ctx = Background, rs_state = Map.empty, rs_node = ''a'', rs_step = 0,
    rs_parent = '''', rs_world = (sample_world ())\<lparr>w_sess := Some sample_grant\<rparr>\<rparr>"
  have "run_body ticking_graph ?cfg ?rs = Inl (nr_State ?r, Some ErrLeaseLost, ?w')"
    by (rule lost_lease_ends_run [where fn = ticking_node and nodeCtx = ?nc and col = 0
          and gr = sample_grant and e = ErrLeaseLost and v = ?w])
      (simp_all add: ticking_graph_def ticking_node_def bare_graph_def call_node_def Let_def
        node_context_def WithStepArtifacts_def emit_def safeEmit_def sample_config_def ctx_Err_def
        Background_def lost_lease_def del: heartbeat_ticks.simps)
  moreover have "ctx_Err ?w' = Some Canceled"
    by (simp add: heartbeat_tick_def ctx_Err_def lost_lease_def cancel_run_def emit_def safeEmit_def
        sample_config_def Background_def)
  ultimately show ?thesis by simp
qed

section \<open>Event order\<close>

text \<open>The lifecycle events delivered so far, without the custom ones.\<close>

definition lifecycle :: "('s, 'u) World \<Rightarrow> EventType list" where
  "lifecycle w = filter (\<lambda>t. t \<noteq> EventCustom) (map ev_Type (w_trace w))"

definition handler_of ::
  "('s, 'u) Ctx \<Rightarrow> ('s, 'u) runConfig \<Rightarrow> ('s, 'u) EventHandler option" where
  "handler_of ctx cfg = (case rc_events cfg of Some f \<Rightarrow> Some f | None \<Rightarrow> ctx_Events ctx)"

lemma lifecycle_emit:
  assumes "rc_events cfg \<noteq> None" "ev_Type e \<noteq> EventCustom"
  shows "lifecycle (emit ctx cfg e w) = lifecycle w @ [ev_Type e]"
  using assms by (auto simp: emit_def safeEmit_def lifecycle_def Let_def)

lemma ev_Type_node_event [simp]: "ev_Type (node_event t n s c) = t"
  by (simp add: node_event_def new_event_def)

lemma ev_Type_new_event [simp]: "ev_Type (new_event t) = t"
  by (simp add: new_event_def)

lemma lifecycle_draw_id [simp]: "draw_id w = (i, w') \<Longrightarrow> lifecycle w' = lifecycle w"
  by (auto simp: draw_id_def lifecycle_def split: prod.splits)

lemma lifecycle_node_context [simp]:
  "node_context ctx n p w = (nc, col, w') \<Longrightarrow> lifecycle w' = lifecycle w"
  by (auto simp: node_context_def WithStepArtifacts_def lifecycle_def Let_def)

text \<open>
  Nodes and stores that leave the lifecycle events alone: only the engine emits them, nodes
  can add custom events.
\<close>

definition quiet_nodes :: "('s, 'u) Compiled \<Rightarrow> bool" where
  "quiet_nodes g \<longleftrightarrow>
     (\<forall>n fn. g_nodes g n = Some fn \<longrightarrow> (\<forall>ctx s w. lifecycle (snd (fn ctx s w)) = lifecycle w))"

definition quiet_persist :: "('s, 'u) Compiled \<Rightarrow> bool" where
  "quiet_persist g \<longleftrightarrow>
     (\<forall>cfg snap arts w. lifecycle (snd (persist g cfg snap arts w)) = lifecycle w)"

text \<open>What a full round delivers, and what the last, incomplete round of a run can deliver.\<close>

definition round_events :: "('s, 'u) Compiled \<Rightarrow> EventType list" where
  "round_events g =
     [EventNodeStart, EventNodeEnd, EventRoute] @ (if hasStore g then [EventCheckpoint] else [])"

definition last_round_events :: "('s, 'u) Compiled \<Rightarrow> EventType list set" where
  "last_round_events g =
     {[], [EventNodeStart], [EventNodeStart, EventNodeError], [EventNodeStart, EventNodeEnd],
      round_events g}
     \<union> (if hasStore g
        then {[EventNodeStart, EventCheckpoint, EventInterrupt],
              [EventNodeStart, EventCheckpointError],
              [EventNodeStart, EventNodeEnd, EventRoute, EventCheckpointError]}
        else {})"

lemma lifecycle_persist:
  "quiet_persist g \<Longrightarrow> persist g cfg snap arts w = (e, w') \<Longrightarrow> lifecycle w' = lifecycle w"
  unfolding quiet_persist_def by (metis snd_conv)

lemma lifecycle_call_node:
  assumes "quiet_nodes g" "rc_events cfg \<noteq> None" "g_nodes g node = Some fn"
    and "call_node cfg fn ctx state node step parent w = (nodeCtx, col, res, w')"
  shows "lifecycle w' = lifecycle w @ [EventNodeStart]"
proof -
  obtain nc c w1 where n: "node_context ctx node parent w = (nc, c, w1)"
    by (cases "node_context ctx node parent w")
  let ?w2 = "emit nc cfg (node_event EventNodeStart node step parent) w1"
  have "w' = snd (fn nc state ?w2)"
    using assms(4) n by (auto simp: call_node_def Let_def split: prod.splits)
  moreover have "lifecycle (snd (fn nc state ?w2)) = lifecycle ?w2"
    using assms(1,3) by (auto simp: quiet_nodes_def)
  ultimately show ?thesis
    using assms(2) n by (simp add: lifecycle_emit)
qed

lemma lifecycle_write_checkpoint:
  assumes "quiet_persist g" "rc_events cfg \<noteq> None"
    and "write_checkpoint g cfg ctx nodeCtx col node nxt step parent state w = r"
  shows "case r of
      Inr (p, c, w') \<Rightarrow> lifecycle w' = lifecycle w @ (if hasStore g then [EventCheckpoint] else [])
    | Inl (s, e, w') \<Rightarrow> hasStore g \<and> lifecycle w' = lifecycle w @ [EventCheckpointError]"
  using assms lifecycle_persist [OF assms(1)]
  by (auto simp: write_checkpoint_def Let_def lifecycle_emit split: if_splits prod.splits option.splits)

lemma lifecycle_on_interrupt:
  assumes "quiet_persist g" "rc_events cfg \<noteq> None"
    and "on_interrupt g cfg nodeCtx col ie node step parent state w = (s, e, w')"
  shows "lifecycle w' \<in> (\<lambda>t. lifecycle w @ t) ` (if hasStore g
     then {[EventCheckpoint, EventInterrupt], [EventCheckpointError]} else {[EventNodeError]})"
  using assms lifecycle_persist [OF assms(1)]
  by (auto simp: on_interrupt_def Let_def lifecycle_emit split: if_splits prod.splits option.splits)

lemma lifecycle_after_node_Inl:
  assumes "quiet_persist g" "rc_events cfg \<noteq> None"
    and "after_node g cfg ctx nodeCtx col upd node step parent state w = Inl (s, e, w')"
  shows "\<exists>t. lifecycle w' = lifecycle w @ t \<and> [EventNodeStart] @ t \<in> last_round_events g"
proof -
  let ?w1 = "emit nodeCtx cfg (node_event EventNodeEnd node step parent) w"
  let ?st = "Apply state upd (g_reducers g)"
  let ?ctx = "ctx\<lparr>ctx_Resume := VNil\<rparr>"
  show ?thesis
  proof (cases "next_node g ?ctx node ?st")
    case (Inl e')
    with assms have "lifecycle w' = lifecycle w @ [EventNodeEnd]"
      by (auto simp: after_node_def Let_def lifecycle_emit)
    then show ?thesis by (simp add: last_round_events_def)
  next
    case (Inr nxt)
    let ?w2 = "emit nodeCtx cfg ((node_event EventRoute node (wrap64 (step + 1)) parent)
      \<lparr>ev_Metadata := [''from'' \<mapsto> AStr node, ''to'' \<mapsto> AStr nxt]\<rparr>) ?w1"
    have w2: "lifecycle ?w2 = lifecycle w @ [EventNodeEnd, EventRoute]"
      using assms(2) by (simp add: lifecycle_emit)
    obtain r where wc:
      "write_checkpoint g cfg ?ctx nodeCtx col node nxt (wrap64 (step + 1)) parent ?st ?w2 = r"
      by blast
    note lc = lifecycle_write_checkpoint [OF assms(1,2) wc, unfolded w2]
    have w': "(\<exists>s' e'. r = Inl (s', e', w')) \<or> (\<exists>p c. r = Inr (p, c, w'))"
      using assms(3) Inr wc
      by (auto simp: after_node_def Let_def split: sum.splits if_splits prod.splits)
    with lc have "lifecycle w' = lifecycle w @ [EventNodeEnd, EventRoute, EventCheckpointError] \<and> hasStore g
       \<or> lifecycle w' = lifecycle w @ [EventNodeEnd, EventRoute]
           @ (if hasStore g then [EventCheckpoint] else [])"
      by auto
    then show ?thesis
      by (auto simp: last_round_events_def round_events_def)
  qed
qed

lemma lifecycle_handle_result_Inl:
  assumes "quiet_persist g" "rc_events cfg \<noteq> None"
    and "handle_result g cfg ctx nodeCtx col res node step parent w = Inl (s, e, w')"
  shows "\<exists>t. lifecycle w' = lifecycle w @ t \<and> [EventNodeStart] @ t \<in> last_round_events g"
proof -
  consider (lost) "w' = w"
    | (interrupt) ie where "on_interrupt g cfg nodeCtx col ie node step parent (nr_State res) w = (s, e, w')"
    | (error) ev where "w' = emit nodeCtx cfg ev w" "ev_Type ev = EventNodeError"
    | (after) "after_node g cfg ctx nodeCtx col (nr_Update res) node step parent (nr_State res) w
        = Inl (s, e, w')"
    using assms(3) that
    by (auto simp: handle_result_def split: option.splits)
  then show ?thesis
  proof cases
    case lost
    then show ?thesis by (simp add: last_round_events_def)
  next
    case interrupt
    from lifecycle_on_interrupt [OF assms(1,2) this] show ?thesis
      by (auto simp: last_round_events_def split: if_splits)
  next
    case error
    with assms(2) show ?thesis by (simp add: lifecycle_emit last_round_events_def)
  next
    case after
    with assms show ?thesis by (intro lifecycle_after_node_Inl)
  qed
qed

lemma lifecycle_round:
  assumes q: "quiet_nodes g" "quiet_persist g" "rc_events cfg \<noteq> None"
  shows "case run_body g cfg rs of
      Inr rs' \<Rightarrow> lifecycle (rs_world rs') = lifecycle (rs_world rs) @ round_events g
    | Inl (s, e, w') \<Rightarrow> lifecycle w' \<in> (\<lambda>t. lifecycle (rs_world rs) @ t) ` last_round_events g"
proof (cases "run_body g cfg rs")
  case (Inr rs')
  then obtain fn nodeCtx col res w1 where
    n: "g_nodes g (rs_node rs) = Some fn"
    and c: "call_node cfg fn (rs_ctx rs) (rs_state rs) (rs_node rs) (rs_step rs) (rs_parent rs)
       (rs_world rs) = (nodeCtx, col, res, w1)"
    and a: "after_node g cfg (rs_ctx rs) nodeCtx col (nr_Update res) (rs_node rs) (rs_step rs)
       (rs_parent rs) (nr_State res) w1 = Inr rs'"
    by (rule run_body_Inr)
  from a show ?thesis
  proof (rule after_node_Inr)
    fix nxt w1a w2
    assume w: "w1a = emit nodeCtx cfg (node_event EventNodeEnd (rs_node rs) (rs_step rs) (rs_parent rs)) w1"
      and w2: "w2 = emit nodeCtx cfg
         ((node_event EventRoute (rs_node rs) (wrap64 (rs_step rs + 1)) (rs_parent rs))
          \<lparr>ev_Metadata := [''from'' \<mapsto> AStr (rs_node rs), ''to'' \<mapsto> AStr nxt]\<rparr>) w1a"
      and wc: "write_checkpoint g cfg ((rs_ctx rs)\<lparr>ctx_Resume := VNil\<rparr>) nodeCtx col (rs_node rs) nxt
         (wrap64 (rs_step rs + 1)) (rs_parent rs) (Apply (nr_State res) (nr_Update res) (g_reducers g)) w2
         = Inr (rs_parent rs', rs_ctx rs', rs_world rs')"
    show ?thesis
      using lifecycle_write_checkpoint [OF q(2,3) wc] lifecycle_call_node [OF q(1,3) n c] q(3)
      by (simp add: Inr w w2 lifecycle_emit round_events_def)
  qed
next
  case (Inl out)
  obtain s e w' where out: "out = (s, e, w')" by (cases out)
  let ?stop = "lifecycle w' = lifecycle (rs_world rs)"
  show ?thesis
  proof (cases ?stop)
    case True
    then show ?thesis by (simp add: Inl out last_round_events_def image_iff)
  next
    case False
    with Inl out obtain fn nodeCtx col res w1 where
      n: "g_nodes g (rs_node rs) = Some fn"
      and c: "call_node cfg fn (rs_ctx rs) (rs_state rs) (rs_node rs) (rs_step rs) (rs_parent rs)
         (rs_world rs) = (nodeCtx, col, res, w1)"
      and h: "handle_result g cfg (rs_ctx rs) nodeCtx col res (rs_node rs) (rs_step rs)
         (rs_parent rs) w1 = Inl (s, e, w')"
      by (auto simp: run_body_def Let_def split: if_splits option.splits prod.splits)
    from lifecycle_handle_result_Inl [OF q(2,3) h] lifecycle_call_node [OF q(1,3) n c]
    show ?thesis by (auto simp: Inl out)
  qed
qed

lemma concat_replicate_snoc:
  "concat (replicate (Suc k) xs) = concat (replicate k xs) @ xs"
  by (induction k) auto

text \<open>A run without its surrounding events: full rounds, then at most one incomplete one.\<close>

lemma lifecycle_run:
  assumes q: "quiet_nodes g" "quiet_persist g" "rc_events cfg \<noteq> None"
    and r: "run g ctx state node step parent cfg w = Some (out, err, w')"
  shows "\<exists>k. \<exists>t \<in> last_round_events g.
    lifecycle w' = lifecycle w @ concat (replicate k (round_events g)) @ t"
proof -
  let ?I = "\<lambda>rs. \<exists>k. lifecycle (rs_world rs) = lifecycle w @ concat (replicate k (round_events g))"
  let ?Q = "\<lambda>(out :: State, err :: gerror option, w'). \<exists>k. \<exists>t \<in> last_round_events g.
    lifecycle w' = lifecycle w @ concat (replicate k (round_events g)) @ t"
  have "?Q (out, err, w')"
  proof (rule go_loop_invariant [OF r [unfolded run_def], where I = ?I and Q = ?Q])
    show "?I \<lparr>rs_ctx = ctx, rs_state = state, rs_node = node, rs_step = step,
        rs_parent = parent, rs_world = w\<rparr>"
      by (simp add: exI [where x = 0])
  next
    fix t t'
    assume "?I t" "run_body g cfg t = Inr t'"
    then obtain k where k: "lifecycle (rs_world t) = lifecycle w @ concat (replicate k (round_events g))"
      and "lifecycle (rs_world t') = lifecycle (rs_world t) @ round_events g"
      using lifecycle_round [OF q, of t] by auto
    then have "lifecycle (rs_world t') = lifecycle w @ concat (replicate (Suc k) (round_events g))"
      by (simp add: concat_replicate_snoc del: replicate_Suc)
    then show "?I t'" by blast
  next
    fix t r'
    assume "?I t" "run_body g cfg t = Inl r'"
    then show "?Q r'"
      using lifecycle_round [OF q, of t] by (cases r') fastforce
  qed
  then show ?thesis by simp
qed

text \<open>
  C3: the events of an \<open>Invoke\<close> without a lease, in the order the handler gets them: the run's
  start, for every full round the node's start, its end, the route and (with a store) the
  checkpoint, then the events of at most one incomplete round (an error, an interrupt after
  its checkpoint, or a failed checkpoint), and last the run's end, however the run ended.
\<close>

theorem Invoke_event_order:
  assumes "quiet_nodes g" "quiet_persist g" "g_lease g = None"
    and "fst (prepareRun g opts (w\<lparr>w_sess := None\<rparr>)) = cfg" "rc_events cfg \<noteq> None"
    and "Invoke g ctx input opts w = Some (out, err, w')"
  shows "\<exists>k. \<exists>t \<in> last_round_events g.
    lifecycle w' = lifecycle w @ [EventRunStart] @ concat (replicate k (round_events g)) @ t
      @ [EventRunEnd]"
proof -
  obtain v where p: "prepareRun g opts (w\<lparr>w_sess := None\<rparr>) = (cfg, v)"
    using assms(4) by (metis prod.collapse)
  have v: "lifecycle v = lifecycle w"
    using p by (auto simp: prepareRun_def Let_def draw_id_def lifecycle_def split: prod.splits if_splits)
  let ?ctx = "enrichCtx ctx cfg '''' v"
  let ?v1 = "emit ?ctx cfg (new_event EventRunStart) v"
  obtain v2 where r: "run g ?ctx input (g_entry g) 0 '''' cfg ?v1 = Some (out, err, v2)"
    and w': "w' = emitRunEnd ?ctx cfg err v2"
    using assms(3,6) p by (auto simp: Invoke_def withLease_def Let_def split: option.splits)
  have "lifecycle ?v1 = lifecycle w @ [EventRunStart]"
    using assms(5) by (simp add: lifecycle_emit v)
  moreover have "lifecycle w' = lifecycle v2 @ [EventRunEnd]"
    using assms(5) by (simp add: w' emitRunEnd_def Let_def lifecycle_emit)
  ultimately show ?thesis
    using lifecycle_run [OF assms(1,2,5) r] by auto
qed

theorem Invoke_event_order_witness:
  "\<exists>out w'. Invoke two_step Background Map.empty [WithEventHandler (Some silent)] (sample_world ())
      = Some (out, None, w') \<and> out ''y'' = Some (VInt 1)
    \<and> (\<exists>k. \<exists>t \<in> last_round_events (two_step :: (unit, unit) Compiled).
        lifecycle w' = [EventRunStart]
          @ concat (replicate k (round_events (two_step :: (unit, unit) Compiled))) @ t
          @ [EventRunEnd])"
proof -
  let ?w = "sample_world ()" and ?o = "[WithEventHandler (Some silent)]"
  let ?g = "two_step :: (unit, unit) Compiled"
  obtain out w' where i: "Invoke ?g Background Map.empty ?o ?w = Some (out, None, w')"
    and y: "out ''y'' = Some (VInt 1)"
    by (simp add: run_eval WithEventHandler_def two_step_def)
  have "quiet_nodes ?g" "quiet_persist ?g"
    by (auto simp: quiet_nodes_def quiet_persist_def two_step_def bare_graph_def persist_def
        split: if_splits option.splits)
  from Invoke_event_order [OF this, of ?o ?w "sample_config\<lparr>rc_events := Some silent\<rparr>"
      Background Map.empty out None w'] i y
  show ?thesis
    by (simp add: two_step_def bare_graph_def prepareRun_def sample_draw_id WithEventHandler_def
        sample_config_def lifecycle_def)
qed

end
