(* ===== verification/Hex.thy ===== *)
theory Hex
  imports Runtime
begin

text \<open>Facts about the lower-case hex encoding of byte strings: its length, and that it is injective.\<close>

lemma length_hex_encode: "length (hex_encode bs) = 2 * length bs"
  by (induction bs) (auto simp: hex_encode_def)

lemma hex_digit_inject: "m < 16 \<Longrightarrow> n < 16 \<Longrightarrow> hex_digit m = hex_digit n \<longleftrightarrow> m = n"
proof -
  assume "m < 16" "n < 16"
  have "distinct ''0123456789abcdef''" by simp
  moreover have "length ''0123456789abcdef'' = 16" by simp
  ultimately show ?thesis
    using \<open>m < 16\<close> \<open>n < 16\<close> unfolding hex_digit_def by (metis nth_eq_iff_index_eq)
qed

lemma byte_nibbles_inject:
  fixes a b :: "8 word"
  assumes "unat a div 16 = unat b div 16" "unat a mod 16 = unat b mod 16"
  shows "a = b"
  using assms by (metis div_mult_mod_eq word_unat_eq_iff)

lemma unat_byte_div: "unat (a :: 8 word) div 16 < 16"
  using unsigned_less [of a, where 'a = nat] by simp

text \<open>Hex encoding loses nothing.\<close>

lemma hex_encode_inject: "hex_encode xs = hex_encode ys \<longleftrightarrow> xs = ys"
proof
  assume "hex_encode xs = hex_encode ys"
  then show "xs = ys"
  proof (induction xs arbitrary: ys)
    case Nil
    then show ?case by (cases ys) (auto simp: hex_encode_def)
  next
    case (Cons x xs)
    then obtain y ys' where ys: "ys = y # ys'"
      by (cases ys) (auto simp: hex_encode_def)
    with Cons.prems have "hex_digit (unat x div 16) = hex_digit (unat y div 16)"
      "hex_digit (unat x mod 16) = hex_digit (unat y mod 16)" "hex_encode xs = hex_encode ys'"
      by (simp_all add: hex_encode_def)
    then show ?case
      using ys Cons.IH byte_nibbles_inject [of x y]
      by (simp add: hex_digit_inject unat_byte_div)
  qed
qed simp

end
