(* ===== verification/RunStore.thy ===== *)
theory RunStore
  imports EngineFacts Hex
begin

text \<open>
  The contract between the engine and the store it checkpoints to, as the locale
  \<open>run_store\<close>, and what the engine guarantees on top of it: after every round the thread's
  latest snapshot is where the loop is, a completed run leaves its result, an interrupted run
  leaves the interrupt, and a failed run leaves the last point it reached. The locale is
  interpreted on the stores in the theories that define them.
\<close>

section \<open>Fresh identifiers\<close>

text \<open>The id that the \<open>i\<close>-th successful read of the random source makes.\<close>

definition drawn_id :: "rng \<Rightarrow> nat \<Rightarrow> string" where
  "drawn_id r i = hex_encode (case rng_reads r i of Some b \<Rightarrow> b | None \<Rightarrow> [])"

definition drawn_ids :: "rng \<Rightarrow> string set" where
  "drawn_ids r = drawn_id r ` {..<rng_pos r}"

text \<open>
  The first \<open>N\<close> reads of the random source succeed, return 16 bytes each, and do not collide.
\<close>

definition fresh_reads :: "nat \<Rightarrow> rng \<Rightarrow> bool" where
  "fresh_reads N r \<longleftrightarrow>
     (\<forall>i < N. \<exists>b. rng_reads r i = Some b \<and> length b = 16) \<and> inj_on (rng_reads r) {..<N}"

lemma drawn_id_nonempty: "fresh_reads N r \<Longrightarrow> i < N \<Longrightarrow> drawn_id r i \<noteq> ''''"
  by (auto simp: fresh_reads_def drawn_id_def length_hex_encode
      simp flip: length_greater_0_conv split: option.splits)

lemma drawn_id_inject:
  assumes "fresh_reads N r" "i < N" "j < N"
  shows "drawn_id r i = drawn_id r j \<longleftrightarrow> i = j"
proof
  assume eq: "drawn_id r i = drawn_id r j"
  obtain a b where "rng_reads r i = Some a" "rng_reads r j = Some b"
    using assms by (metis fresh_reads_def)
  with eq have "rng_reads r i = rng_reads r j"
    by (simp add: drawn_id_def hex_encode_inject)
  with assms show "i = j" by (auto simp: fresh_reads_def inj_on_def)
qed simp

lemma draw_id_fresh:
  assumes "draw_id w = (i, w')" "fresh_reads N (w_rng w)" "rng_pos (w_rng w) < N"
  shows "i = drawn_id (w_rng w) (rng_pos (w_rng w))" "i \<notin> drawn_ids (w_rng w)"
    "w' = w\<lparr>w_rng := (w_rng w)\<lparr>rng_pos := Suc (rng_pos (w_rng w))\<rparr>\<rparr>"
proof -
  obtain b where b: "rng_reads (w_rng w) (rng_pos (w_rng w)) = Some b"
    using assms by (metis fresh_reads_def)
  with assms(1) show i: "i = drawn_id (w_rng w) (rng_pos (w_rng w))"
    and "w' = w\<lparr>w_rng := (w_rng w)\<lparr>rng_pos := Suc (rng_pos (w_rng w))\<rparr>\<rparr>"
    by (auto simp: draw_id_def NewID_def drawn_id_def)
  show "i \<notin> drawn_ids (w_rng w)"
  proof
    assume "i \<in> drawn_ids (w_rng w)"
    then obtain j where j: "j < rng_pos (w_rng w)" "i = drawn_id (w_rng w) j"
      by (auto simp: drawn_ids_def)
    with assms(3) have "j < N" by simp
    from drawn_id_inject [OF assms(2) assms(3) this] i j show False by simp
  qed
qed

lemma draw_id_frame:
  assumes "draw_id w = (i, w')"
  shows "w_store w' = w_store w" "rng_reads (w_rng w') = rng_reads (w_rng w)"
    "rng_pos (w_rng w') = Suc (rng_pos (w_rng w))" "w_clock w' = w_clock w"
  using assms by (auto simp: draw_id_def NewID_def Let_def)

section \<open>The contract\<close>

text \<open>
  \<open>latest s t\<close> is the snapshot a resume of thread \<open>t\<close> would load, \<open>known s t\<close> the checkpoint
  ids the store would take for a retry, \<open>ok\<close> the store's invariant, and \<open>uses g\<close> says that
  the graph is compiled with this store.
\<close>

locale run_store =
  fixes uses :: "('s, 'u) Compiled \<Rightarrow> bool"
    and latest :: "'s \<Rightarrow> string \<Rightarrow> Snapshot option"
    and known :: "'s \<Rightarrow> string \<Rightarrow> string set"
    and ok :: "'s \<Rightarrow> bool"
  assumes has_store: "uses g \<Longrightarrow> hasStore g"
    and load: "uses g \<Longrightarrow> ok (w_store w) \<Longrightarrow> loadLatest g t w = Inr (latest (w_store w) t)"
    and persist_ok:
      "uses g \<Longrightarrow> ok (w_store w) \<Longrightarrow> persist g cfg snap arts w = (None, w') \<Longrightarrow>
       sn_ThreadID snap = rc_threadID cfg \<Longrightarrow>
       sn_CheckpointID snap \<notin> known (w_store w) (rc_threadID cfg) \<Longrightarrow>
       ok (w_store w')
       \<and> known (w_store w') (rc_threadID cfg)
           \<subseteq> insert (sn_CheckpointID snap) (known (w_store w) (rc_threadID cfg))
       \<and> (\<exists>r c. latest (w_store w') (rc_threadID cfg)
                 = Some (snap\<lparr>sn_Revision := r, sn_CreatedAt := c\<rparr>))"
    and persist_err:
      "uses g \<Longrightarrow> ok (w_store w) \<Longrightarrow> persist g cfg snap arts w = (Some e, w') \<Longrightarrow>
       sn_ThreadID snap = rc_threadID cfg \<Longrightarrow>
       AsInterrupt e = None \<and> ok (w_store w')
       \<and> latest (w_store w') (rc_threadID cfg) = latest (w_store w) (rc_threadID cfg)
       \<and> known (w_store w') (rc_threadID cfg) \<subseteq> known (w_store w) (rc_threadID cfg)"
    and persist_rng:
      "uses g \<Longrightarrow> persist g cfg snap arts w = (e', w') \<Longrightarrow>
       rng_reads (w_rng w') = rng_reads (w_rng w) \<and> rng_pos (w_rng w) \<le> rng_pos (w_rng w')"

section \<open>Calm environments\<close>

text \<open>
  A change of the world that leaves thread \<open>t\<close> of the store alone: nobody else commits to the
  thread. It may draw ids, advance the clock, cancel, and change other threads.
\<close>

definition calm ::
  "('s \<Rightarrow> string \<Rightarrow> Snapshot option) \<Rightarrow> ('s \<Rightarrow> string \<Rightarrow> string set) \<Rightarrow> ('s \<Rightarrow> bool)
   \<Rightarrow> string \<Rightarrow> ('s, 'u) World \<Rightarrow> ('s, 'u) World \<Rightarrow> bool" where
  "calm latest known ok t w w' \<longleftrightarrow>
     (ok (w_store w) \<longrightarrow> ok (w_store w'))
     \<and> latest (w_store w') t = latest (w_store w) t
     \<and> known (w_store w') t \<subseteq> known (w_store w) t
     \<and> rng_reads (w_rng w') = rng_reads (w_rng w)
     \<and> rng_pos (w_rng w) \<le> rng_pos (w_rng w')"

text \<open>The nodes of the graph and the run's event handler are calm on the run's thread.\<close>

definition calm_run ::
  "('s \<Rightarrow> string \<Rightarrow> Snapshot option) \<Rightarrow> ('s \<Rightarrow> string \<Rightarrow> string set) \<Rightarrow> ('s \<Rightarrow> bool)
   \<Rightarrow> ('s, 'u) Compiled \<Rightarrow> ('s, 'u) runConfig \<Rightarrow> ('s, 'u) EventHandler option \<Rightarrow> bool" where
  "calm_run latest known ok g cfg h \<longleftrightarrow>
     (\<forall>n fn. g_nodes g n = Some fn \<longrightarrow>
        (\<forall>ctx s w. calm latest known ok (rc_threadID cfg) w (snd (fn ctx s w))))
     \<and> (\<forall>f. h = Some f \<longrightarrow> (\<forall>e w. calm latest known ok (rc_threadID cfg) w (f e w)))"

lemma calm_refl [simp]: "calm latest known ok t w w"
  by (simp add: calm_def)

lemma calm_trans: "calm l k i t w w' \<Longrightarrow> calm l k i t w' w'' \<Longrightarrow> calm l k i t w w''"
  by (auto simp: calm_def)

lemma calm_same_store:
  "w_store w' = w_store w \<Longrightarrow> w_rng w' = w_rng w \<Longrightarrow> calm l k i t w w'"
  by (simp add: calm_def)

lemma calm_draw_id: "draw_id w = (x, w') \<Longrightarrow> calm l k i t w w'"
  using draw_id_frame [of w x w'] by (simp add: calm_def)

lemma handler_of_simps [simp]:
  "handler_of (ctx\<lparr>ctx_NodeID := a\<rparr>) cfg = handler_of ctx cfg"
  "handler_of (ctx\<lparr>ctx_ParentCheckpointID := a\<rparr>) cfg = handler_of ctx cfg"
  "handler_of (ctx\<lparr>ctx_Resume := v\<rparr>) cfg = handler_of ctx cfg"
  "handler_of (ctx\<lparr>ctx_LeaseGrant := lg\<rparr>) cfg = handler_of ctx cfg"
  "handler_of (ctx\<lparr>ctx_Collector := c\<rparr>) cfg = handler_of ctx cfg"
  by (auto simp: handler_of_def split: option.splits)

lemma handler_of_node_context:
  "node_context ctx n p w = (nc, col, w') \<Longrightarrow> handler_of nc cfg = handler_of ctx cfg"
  by (auto simp: node_context_def WithStepArtifacts_def Let_def split: option.splits)

lemma calm_emit:
  assumes "calm_run l k i g cfg (handler_of ctx cfg)"
  shows "calm l k i (rc_threadID cfg) w (emit ctx cfg e w)"
proof -
  obtain e' where
    "emit ctx cfg e w = (case handler_of ctx cfg of None \<Rightarrow> w
       | Some f \<Rightarrow> (f e' w)\<lparr>w_trace := w_trace w @ [e']\<rparr>)"
    by (fastforce simp: emit_def handler_of_def safeEmit_def Let_def split: option.splits)
  moreover have "calm l k i (rc_threadID cfg) w ((f e' w)\<lparr>w_trace := x\<rparr>)"
    if "handler_of ctx cfg = Some f" for f x
    using assms that by (auto simp: calm_run_def calm_def)
  ultimately show ?thesis by (simp split: option.splits)
qed

lemma calm_call_node:
  assumes "calm_run l k i g cfg (handler_of ctx cfg)" "g_nodes g n = Some fn"
    and "call_node cfg fn ctx s n step parent w = (nc, col, res, w')"
  shows "calm l k i (rc_threadID cfg) w w'" "handler_of nc cfg = handler_of ctx cfg"
proof -
  obtain c w1 where n: "node_context ctx n parent w = (nc, c, w1)"
    and w': "w' = snd (fn nc s (emit nc cfg (node_event EventNodeStart n step parent) w1))"
    using assms(3) by (auto simp: call_node_def Let_def split: prod.splits)
  show h: "handler_of nc cfg = handler_of ctx cfg"
    using n by (rule handler_of_node_context)
  have "calm l k i (rc_threadID cfg) w w1"
    using n by (auto simp: node_context_def WithStepArtifacts_def Let_def intro!: calm_same_store)
  moreover have "calm l k i (rc_threadID cfg) w1
      (emit nc cfg (node_event EventNodeStart n step parent) w1)"
    using assms(1) h by (simp add: calm_emit)
  moreover have "calm l k i (rc_threadID cfg) v (snd (fn nc s v))" for v
    using assms(1,2) by (auto simp: calm_run_def)
  ultimately show "calm l k i (rc_threadID cfg) w w'"
    unfolding w' by (meson calm_trans)
qed

section \<open>What one round does to the store\<close>

text \<open>
  The world as a run finds it and leaves it: the store is in order, and every id the store
  knows of the thread was drawn from the random source, which is good for \<open>N\<close> reads.
\<close>

definition store_ready ::
  "('s \<Rightarrow> string \<Rightarrow> string set) \<Rightarrow> ('s \<Rightarrow> bool) \<Rightarrow> string \<Rightarrow> nat \<Rightarrow> ('s, 'u) World \<Rightarrow> bool" where
  "store_ready known ok t N w \<longleftrightarrow>
     ok (w_store w) \<and> known (w_store w) t \<subseteq> drawn_ids (w_rng w) \<and> fresh_reads N (w_rng w)"

text \<open>The thread's latest snapshot is at the given point of the run.\<close>

definition at_point ::
  "('s \<Rightarrow> string \<Rightarrow> Snapshot option) \<Rightarrow> string \<Rightarrow> string \<Rightarrow> State \<Rightarrow> int \<Rightarrow> string
   \<Rightarrow> ('s, 'u) World \<Rightarrow> bool" where
  "at_point latest t node state step parent w \<longleftrightarrow>
     (\<exists>sn. latest (w_store w) t = Some sn \<and> sn_Node sn = node \<and> sn_State sn = state
        \<and> sn_Step sn = step \<and> sn_CheckpointID sn = parent \<and> sn_ThreadID sn = t
        \<and> \<not> sn_Interrupt sn)"

text \<open>The thread's latest snapshot is a pause at \<open>node\<close> with the given payload.\<close>

definition at_pause ::
  "('s \<Rightarrow> string \<Rightarrow> Snapshot option) \<Rightarrow> string \<Rightarrow> string \<Rightarrow> State \<Rightarrow> int \<Rightarrow> gval
   \<Rightarrow> ('s, 'u) World \<Rightarrow> bool" where
  "at_pause latest t node state step v w \<longleftrightarrow>
     (\<exists>sn. latest (w_store w) t = Some sn \<and> sn_Node sn = node \<and> sn_State sn = state
        \<and> sn_Step sn = step \<and> sn_Interrupt sn \<and> sn_InterruptValue sn = v \<and> sn_ThreadID sn = t)"

lemma drawn_ids_mono:
  assumes "rng_reads r' = rng_reads r" "rng_pos r \<le> rng_pos r'"
  shows "drawn_ids r \<subseteq> drawn_ids r'"
proof -
  have "drawn_id r' = drawn_id r" using assms(1) by (simp add: drawn_id_def fun_eq_iff)
  with assms(2) show ?thesis by (auto simp: drawn_ids_def)
qed

lemma fresh_reads_cong: "rng_reads r' = rng_reads r \<Longrightarrow> fresh_reads N r' = fresh_reads N r"
  by (simp add: fresh_reads_def)

lemma store_ready_calm:
  "store_ready k i t N w \<Longrightarrow> calm l k i t w w' \<Longrightarrow> store_ready k i t N w'"
  using drawn_ids_mono [of "w_rng w'" "w_rng w"] fresh_reads_cong [of "w_rng w'" "w_rng w" N]
  by (auto simp: store_ready_def calm_def)

lemma at_point_calm: "calm l k i t w w' \<Longrightarrow> at_point l t n s st p w' = at_point l t n s st p w"
  by (simp add: calm_def at_point_def)

lemma at_pause_calm: "calm l k i t w w' \<Longrightarrow> at_pause l t n s st v w' = at_pause l t n s st v w"
  by (simp add: calm_def at_pause_def)

lemma calm_pos: "calm l k i t w w' \<Longrightarrow> rng_pos (w_rng w) \<le> rng_pos (w_rng w')"
  by (simp add: calm_def)

lemma calm_latest: "calm l k i t w w' \<Longrightarrow> l (w_store w') t = l (w_store w) t"
  by (simp add: calm_def)

context run_store
begin

text \<open>Drawing an id and persisting a snapshot under it.\<close>

lemma commit_point:
  assumes "uses g" "store_ready known ok (rc_threadID cfg) N w" "draw_id w = (ckpt, w1)"
    and "sn_CheckpointID snap = ckpt" "sn_ThreadID snap = rc_threadID cfg"
    and "persist g cfg snap arts w1 = (None, w2)" "rng_pos (w_rng w2) \<le> N"
  shows "store_ready known ok (rc_threadID cfg) N w2"
    and "\<exists>r c. latest (w_store w2) (rc_threadID cfg)
          = Some (snap\<lparr>sn_Revision := r, sn_CreatedAt := c\<rparr>)"
proof -
  let ?t = "rc_threadID cfg"
  note f1 = draw_id_frame [OF assms(3)]
  have rng: "rng_reads (w_rng w2) = rng_reads (w_rng w1)" "rng_pos (w_rng w1) \<le> rng_pos (w_rng w2)"
    using persist_rng [OF assms(1,6)] by simp_all
  have pos: "rng_pos (w_rng w) < N"
    using rng(2) f1(3) assms(7) by simp
  have fr: "fresh_reads N (w_rng w)" and ok: "ok (w_store w1)"
    and kn: "known (w_store w1) ?t \<subseteq> drawn_ids (w_rng w)"
    using assms(2) f1 by (simp_all add: store_ready_def)
  note d = draw_id_fresh [OF assms(3) fr pos]
  have new: "sn_CheckpointID snap \<notin> known (w_store w1) ?t"
    using d(2) kn assms(4) by blast
  note p = persist_ok [OF assms(1) ok assms(6) assms(5) new]
  from p show "\<exists>r c. latest (w_store w2) ?t = Some (snap\<lparr>sn_Revision := r, sn_CreatedAt := c\<rparr>)"
    by blast
  have "ckpt \<in> drawn_ids (w_rng w1)"
    using d(1,3) by (auto simp: drawn_ids_def drawn_id_def)
  moreover have "drawn_ids (w_rng w) \<subseteq> drawn_ids (w_rng w1)"
    using f1 by (intro drawn_ids_mono) simp_all
  moreover have "drawn_ids (w_rng w1) \<subseteq> drawn_ids (w_rng w2)"
    using rng by (intro drawn_ids_mono) simp_all
  ultimately have "known (w_store w2) ?t \<subseteq> drawn_ids (w_rng w2)"
    using p kn assms(4) by blast
  moreover have "fresh_reads N (w_rng w2)"
    using fr f1 rng by (metis fresh_reads_cong)
  ultimately show "store_ready known ok ?t N w2"
    using p by (simp add: store_ready_def)
qed

lemma reject_calm:
  assumes "uses g" "persist g cfg snap arts w = (Some e, w')" "sn_ThreadID snap = rc_threadID cfg"
    and "ok (w_store w)"
  shows "calm latest known ok (rc_threadID cfg) w w'" "AsInterrupt e = None"
  using persist_err [OF assms(1,4,2,3)] persist_rng [OF assms(1,2)] by (simp_all add: calm_def)

lemma write_checkpoint_point:
  assumes "uses g" "calm_run latest known ok g cfg (handler_of nc cfg)"
    and "store_ready known ok (rc_threadID cfg) N w"
    and "write_checkpoint g cfg ctx nc col node nxt step parent state w = Inr (p', ctx', w')"
    and "rng_pos (w_rng w') \<le> N"
  shows "store_ready known ok (rc_threadID cfg) N w'"
    and "at_point latest (rc_threadID cfg) nxt state step p' w'"
    and "handler_of ctx' cfg = handler_of ctx cfg"
proof -
  let ?t = "rc_threadID cfg"
  obtain w1 w2 e where d: "draw_id w = (p', w1)"
    and p: "persist g cfg (new_snapshot cfg p' parent (w_clock w1) nxt state step None)
      (collector_snapshot col w1) w1 = (None, w2)"
    and w': "w' = emit nc cfg e w2" and ctx': "ctx' = ctx\<lparr>ctx_ParentCheckpointID := p'\<rparr>"
    using assms(4) has_store [OF assms(1)]
    by (auto simp: write_checkpoint_def Let_def split: prod.splits option.splits)
  let ?snap = "new_snapshot cfg p' parent (w_clock w1) nxt state step None"
  have snap: "sn_CheckpointID ?snap = p'" "sn_ThreadID ?snap = ?t" "sn_Node ?snap = nxt"
      "sn_State ?snap = state" "sn_Step ?snap = step" "\<not> sn_Interrupt ?snap"
    by (simp_all add: new_snapshot_def)
  have c: "calm latest known ok ?t w2 w'"
    using calm_emit [OF assms(2)] w' by simp
  have pos: "rng_pos (w_rng w2) \<le> N"
    using calm_pos [OF c] assms(5) by simp
  note cp = commit_point [OF assms(1,3) d snap(1,2) p pos]
  from cp(1) c show "store_ready known ok ?t N w'" by (rule store_ready_calm)
  have "at_point latest ?t nxt state step p' w2"
    using cp(2) snap by (auto simp: at_point_def)
  with c show "at_point latest ?t nxt state step p' w'" by (simp add: at_point_calm)
  show "handler_of ctx' cfg = handler_of ctx cfg" by (simp add: ctx')
qed

lemma write_checkpoint_fail:
  assumes "uses g" "calm_run latest known ok g cfg (handler_of nc cfg)" "ok (w_store w)"
    and "write_checkpoint g cfg ctx nc col node nxt step parent state w = Inl (s, e, w')"
  shows "calm latest known ok (rc_threadID cfg) w w'" "\<exists>x. e = Some x \<and> AsInterrupt x = None"
proof -
  let ?t = "rc_threadID cfg"
  obtain ckpt w1 w2 x ev where d: "draw_id w = (ckpt, w1)"
    and p: "persist g cfg (new_snapshot cfg ckpt parent (w_clock w1) nxt state step None)
      (collector_snapshot col w1) w1 = (Some x, w2)"
    and w': "w' = emit nc cfg ev w2" and e: "e = Some x"
    using assms(4) has_store [OF assms(1)]
    by (auto simp: write_checkpoint_def Let_def split: prod.splits option.splits)
  have snap: "sn_ThreadID (new_snapshot cfg ckpt parent (w_clock w1) nxt state step None) = ?t"
    by (simp add: new_snapshot_def)
  have ok1: "ok (w_store w1)" using assms(3) draw_id_frame(1) [OF d] by simp
  note r = reject_calm [OF assms(1) p snap ok1]
  from r(2) e show "\<exists>x. e = Some x \<and> AsInterrupt x = None" by blast
  show "calm latest known ok ?t w w'"
    using calm_draw_id [OF d] r(1) calm_emit [OF assms(2)] unfolding w' by (meson calm_trans)
qed

lemma on_interrupt_point:
  assumes "uses g" "calm_run latest known ok g cfg (handler_of nc cfg)"
    and "store_ready known ok (rc_threadID cfg) N w"
    and "on_interrupt g cfg nc col ie node step parent state w = (s, e, w')"
    and "rng_pos (w_rng w') \<le> N"
  shows "s = state" "store_ready known ok (rc_threadID cfg) N w'"
    "e = Some (Interrupted (ie\<lparr>ie_Node := node\<rparr>))
       \<and> at_pause latest (rc_threadID cfg) node state step (ie_Value ie) w'
     \<or> (\<exists>x. e = Some x \<and> AsInterrupt x = None \<and> calm latest known ok (rc_threadID cfg) w w')"
proof -
  let ?t = "rc_threadID cfg"
  obtain ckpt w1 where d: "draw_id w = (ckpt, w1)" by (cases "draw_id w")
  let ?snap = "new_snapshot cfg ckpt parent (w_clock w1) node state step (Some (ie_Value ie))"
  have snap: "sn_CheckpointID ?snap = ckpt" "sn_ThreadID ?snap = ?t"
    by (simp_all add: new_snapshot_def)
  obtain r w2 where p: "persist g cfg ?snap (collector_snapshot col w1) w1 = (r, w2)"
    by (cases "persist g cfg ?snap (collector_snapshot col w1) w1")
  note calm_e = calm_emit [OF assms(2)]
  show "s = state"
    using assms(4) has_store [OF assms(1)] d p
    by (auto simp: on_interrupt_def Let_def split: option.splits)
  show "store_ready known ok ?t N w'"
    and "e = Some (Interrupted (ie\<lparr>ie_Node := node\<rparr>))
       \<and> at_pause latest ?t node state step (ie_Value ie) w'
     \<or> (\<exists>x. e = Some x \<and> AsInterrupt x = None \<and> calm latest known ok ?t w w')"
  proof (atomize(full), cases r)
    case None
    from assms(4) has_store [OF assms(1)] d p None obtain ev1 ev2 where
      w': "w' = emit nc cfg ev2 (emit nc cfg ev1 w2)"
      and e: "e = Some (Interrupted (ie\<lparr>ie_Node := node\<rparr>))"
      by (auto simp: on_interrupt_def Let_def)
    have c: "calm latest known ok ?t w2 w'"
      unfolding w' by (meson calm_e calm_trans)
    with assms(5) have "rng_pos (w_rng w2) \<le> N" using calm_pos by fastforce
    note cp = commit_point [OF assms(1,3) d snap p [unfolded None] this]
    have "at_pause latest ?t node state step (ie_Value ie) w2"
      using cp(2) by (auto simp: at_pause_def new_snapshot_def)
    then show "store_ready known ok ?t N w' \<and>
      (e = Some (Interrupted (ie\<lparr>ie_Node := node\<rparr>))
         \<and> at_pause latest ?t node state step (ie_Value ie) w'
       \<or> (\<exists>x. e = Some x \<and> AsInterrupt x = None \<and> calm latest known ok ?t w w'))"
      using c cp(1) e by (simp add: at_pause_calm store_ready_calm [OF _ c])
  next
    case (Some x)
    from assms(4) has_store [OF assms(1)] d p Some obtain ev where
      w': "w' = emit nc cfg ev w2" and e: "e = Some x"
      by (auto simp: on_interrupt_def Let_def)
    have "ok (w_store w1)" using assms(3) draw_id_frame(1) [OF d] by (simp add: store_ready_def)
    note r = reject_calm [OF assms(1) p [unfolded Some] snap(2) this]
    have "calm latest known ok ?t w w'"
      using calm_draw_id [OF d] r(1) calm_e unfolding w' by (meson calm_trans)
    then show "store_ready known ok ?t N w' \<and>
      (e = Some (Interrupted (ie\<lparr>ie_Node := node\<rparr>))
         \<and> at_pause latest ?t node state step (ie_Value ie) w'
       \<or> (\<exists>x. e = Some x \<and> AsInterrupt x = None \<and> calm latest known ok ?t w w'))"
      using e r(2) store_ready_calm [OF assms(3)] by blast
  qed
qed

lemma write_checkpoint_handler:
  assumes "write_checkpoint g cfg ctx nc col node nxt step parent state w = Inr (p', ctx', w')"
  shows "handler_of ctx' cfg = handler_of ctx cfg"
  using assms by (auto simp: write_checkpoint_def Let_def split: prod.splits option.splits if_splits)

text \<open>No part of a round gives ids back.\<close>

lemma draw_persist_pos:
  assumes "uses g" "draw_id w = (i, w1)" "persist g cfg sn arts w1 = (x, w2)"
  shows "rng_pos (w_rng w) \<le> rng_pos (w_rng w2)"
  using draw_id_frame(3) [OF assms(2)] persist_rng [OF assms(1,3)] by simp

lemma emit_pos:
  assumes "calm_run latest known ok g cfg (handler_of nc cfg)"
  shows "rng_pos (w_rng w) \<le> rng_pos (w_rng (emit nc cfg e w))"
  using calm_pos [OF calm_emit [OF assms]] .

lemma write_checkpoint_pos:
  assumes "uses g" "calm_run latest known ok g cfg (handler_of nc cfg)"
    and wc: "write_checkpoint g cfg ctx nc col node nxt step parent state w = r"
  shows "case r of Inl (s, e, w') \<Rightarrow> rng_pos (w_rng w) \<le> rng_pos (w_rng w')
    | Inr (p', ctx', w') \<Rightarrow> rng_pos (w_rng w) \<le> rng_pos (w_rng w')"
proof -
  obtain i w1 where d: "draw_id w = (i, w1)" by (cases "draw_id w")
  obtain x w2 where p: "persist g cfg (new_snapshot cfg i parent (w_clock w1) nxt state step None)
      (collector_snapshot col w1) w1 = (x, w2)"
    by (cases "persist g cfg (new_snapshot cfg i parent (w_clock w1) nxt state step None)
      (collector_snapshot col w1) w1")
  note le = order_trans [OF draw_persist_pos [OF assms(1) d p] emit_pos [OF assms(2)]]
  show ?thesis
    using has_store [OF assms(1)] d p le
    by (cases x) (auto simp: wc [symmetric] write_checkpoint_def Let_def)
qed

lemma on_interrupt_pos:
  assumes "uses g" "calm_run latest known ok g cfg (handler_of nc cfg)"
    and oi: "on_interrupt g cfg nc col ie node step parent state w = (s, e, w')"
  shows "rng_pos (w_rng w) \<le> rng_pos (w_rng w')"
proof -
  obtain i w1 where d: "draw_id w = (i, w1)" by (cases "draw_id w")
  let ?snap = "new_snapshot cfg i parent (w_clock w1) node state step (Some (ie_Value ie))"
  obtain x w2 where p: "persist g cfg ?snap (collector_snapshot col w1) w1 = (x, w2)"
    by (cases "persist g cfg ?snap (collector_snapshot col w1) w1")
  note le = order_trans [OF draw_persist_pos [OF assms(1) d p] emit_pos [OF assms(2)]]
  show ?thesis
    using has_store [OF assms(1)] d p le order_trans [OF le emit_pos [OF assms(2)]] oi
    by (cases x) (auto simp: on_interrupt_def Let_def)
qed

lemma round_goes_on:
  assumes "uses g" "calm_run latest known ok g cfg (handler_of (rs_ctx rs) cfg)"
    and "run_body g cfg rs = Inr rs'"
  shows "handler_of (rs_ctx rs') cfg = handler_of (rs_ctx rs) cfg"
    and "rng_pos (w_rng (rs_world rs)) \<le> rng_pos (w_rng (rs_world rs'))"
    and "store_ready known ok (rc_threadID cfg) N (rs_world rs) \<Longrightarrow>
         rng_pos (w_rng (rs_world rs')) \<le> N \<Longrightarrow>
         store_ready known ok (rc_threadID cfg) N (rs_world rs')
         \<and> at_point latest (rc_threadID cfg) (rs_node rs') (rs_state rs') (rs_step rs')
             (rs_parent rs') (rs_world rs')"
proof -
  let ?t = "rc_threadID cfg"
  from assms(3) obtain fn nc col res w1 where
    n: "g_nodes g (rs_node rs) = Some fn"
    and c: "call_node cfg fn (rs_ctx rs) (rs_state rs) (rs_node rs) (rs_step rs) (rs_parent rs)
       (rs_world rs) = (nc, col, res, w1)"
    and a: "after_node g cfg (rs_ctx rs) nc col (nr_Update res) (rs_node rs) (rs_step rs)
       (rs_parent rs) (nr_State res) w1 = Inr rs'"
    by (rule run_body_Inr)
  note cn = calm_call_node [OF assms(2) n c]
  have h: "calm_run latest known ok g cfg (handler_of nc cfg)"
    using assms(2) cn(2) by simp
  obtain nxt w2 where
    w2: "calm latest known ok ?t w1 w2"
    and wc: "write_checkpoint g cfg ((rs_ctx rs)\<lparr>ctx_Resume := VNil\<rparr>) nc col (rs_node rs) nxt
      (rs_step rs') (rs_parent rs) (rs_state rs') w2 = Inr (rs_parent rs', rs_ctx rs', rs_world rs')"
    and nxt: "rs_node rs' = nxt"
    using a by (elim after_node_Inr) (metis calm_emit [OF h] calm_trans)
  have c2: "calm latest known ok ?t (rs_world rs) w2"
    using cn(1) w2 by (rule calm_trans)
  show "rng_pos (w_rng (rs_world rs)) \<le> rng_pos (w_rng (rs_world rs'))"
    using calm_pos [OF c2] write_checkpoint_pos [OF assms(1) h wc] by simp
  have hs: "handler_of (rs_ctx rs') cfg = handler_of ((rs_ctx rs)\<lparr>ctx_Resume := VNil\<rparr>) cfg"
    using wc by (rule write_checkpoint_handler)
  then show "handler_of (rs_ctx rs') cfg = handler_of (rs_ctx rs) cfg" by simp
  assume ready: "store_ready known ok ?t N (rs_world rs)" and pos: "rng_pos (w_rng (rs_world rs')) \<le> N"
  note wp = write_checkpoint_point [OF assms(1) h store_ready_calm [OF ready c2] wc pos]
  show "store_ready known ok ?t N (rs_world rs')
      \<and> at_point latest ?t (rs_node rs') (rs_state rs') (rs_step rs') (rs_parent rs') (rs_world rs')"
    using wp nxt by simp
qed

end

section \<open>How the graph moves\<close>

text \<open>
  One step of the graph, as an abstract machine on nodes and states: some call of the node
  returns without error, its update is applied, and some context routes to the next node.
\<close>

definition node_step :: "('s, 'u) Compiled \<Rightarrow> string \<times> State \<Rightarrow> string \<times> State \<Rightarrow> bool" where
  "node_step g a b \<longleftrightarrow>
     (\<exists>fn ctx w ctx'. g_nodes g (fst a) = Some fn \<and> fst a \<notin> {'''', END}
        \<and> nr_Err (fst (fn ctx (snd a) w)) = None
        \<and> snd b = Apply (nr_State (fst (fn ctx (snd a) w))) (nr_Update (fst (fn ctx (snd a) w))) (g_reducers g)
        \<and> next_node g ctx' (fst a) (snd b) = Inr (fst b))"

text \<open>The state a call of a node can leave when it pauses.\<close>

definition pause_state :: "('s, 'u) Compiled \<Rightarrow> string \<times> State \<Rightarrow> State \<Rightarrow> bool" where
  "pause_state g a s \<longleftrightarrow>
     (\<exists>fn ctx w. g_nodes g (fst a) = Some fn \<and> s = nr_State (fst (fn ctx (snd a) w)))"

text \<open>
  How a round can fail or pause after it called its node, seen from the world \<open>W\<close> in which the
  round began: either the node paused and the pause is the thread's latest snapshot, or the
  error is no interrupt and the latest snapshot is still the one from before the round or the
  one the round wrote (the step bound is checked after the checkpoint). \<open>Q\<close> holds of the
  point the round can have written, \<open>R\<close> of the state it can have paused with.
\<close>

definition failed_or_paused ::
  "('s \<Rightarrow> string \<Rightarrow> Snapshot option) \<Rightarrow> ('s \<Rightarrow> string \<Rightarrow> string set) \<Rightarrow> ('s \<Rightarrow> bool)
   \<Rightarrow> string \<Rightarrow> (string \<times> State \<Rightarrow> bool) \<Rightarrow> (State \<Rightarrow> bool) \<Rightarrow> string \<Rightarrow> int
   \<Rightarrow> ('s, 'u) World \<Rightarrow> ('s, 'u) outcome \<Rightarrow> bool" where
  "failed_or_paused latest known ok t Q R node step W out =
     (case out of (s, e, w') \<Rightarrow>
       (case e of
          None \<Rightarrow> False
        | Some x \<Rightarrow> (case AsInterrupt x of
            Some ie \<Rightarrow> x = Interrupted ie \<and> ie_Node ie = node \<and> R s
              \<and> at_pause latest t node s step (ie_Value ie) w'
          | None \<Rightarrow> calm latest known ok t W w' \<or> (\<exists>n st p. Q (n, s) \<and> at_point latest t n s st p w'))))"

lemma failed_or_paused_error:
  "AsInterrupt x = None \<Longrightarrow> calm l k i t W w' \<Longrightarrow> failed_or_paused l k i t Q R n st W (s, Some x, w')"
  by (simp add: failed_or_paused_def)

lemma ctx_Err_not_interrupt: "ctx_Err w = Some e \<Longrightarrow> AsInterrupt e = None"
  by (auto simp: ctx_Err_def split: option.splits if_splits)

lemma handle_result_cases:
  assumes "handle_result g cfg ctx nc col res node step parent w = Inl (s, e, w')"
  obtains (lost) "w' = w" "e = Some ErrLeaseLost"
    | (interrupt) ie where "on_interrupt g cfg nc col ie node step parent (nr_State res) w = (s, e, w')"
    | (error) ev err where "w' = emit nc cfg ev w" "AsInterrupt err = None"
        "e = Some (Wrapf ''graph: node %q: %w'' [AStr node] err)"
    | (after) "nr_Err res = None" "after_node g cfg ctx nc col (nr_Update res) node step parent (nr_State res) w
        = Inl (s, e, w')"
proof (cases "leaseLostFrom w")
  case (Some x)
  with assms show ?thesis using lost leaseLostFrom_SomeD [OF Some] by (simp add: handle_result_def)
next
  case None
  with assms interrupt error after show ?thesis
    by (auto simp: handle_result_def split: option.splits)
qed

text \<open>A round that leaves the loop after it called the node leaves it with an error.\<close>

lemma handle_result_not_None:
  "handle_result g cfg ctx nc col res node step parent w \<noteq> Inl (s, None, w')"
  by (auto simp: handle_result_def on_interrupt_def after_node_def write_checkpoint_def Let_def
      split: option.splits sum.splits prod.splits if_splits)

lemma run_body_Inl_cases:
  assumes "run_body g cfg rs = Inl (s, e, w')"
  obtains (finished) "e = None" "s = rs_state rs" "w' = rs_world rs" "rs_node rs \<in> {'''', END}"
    | (refused) x where "e = Some x" "AsInterrupt x = None" "w' = rs_world rs"
    | (called) fn nc col res w1 where "g_nodes g (rs_node rs) = Some fn"
        "call_node cfg fn (rs_ctx rs) (rs_state rs) (rs_node rs) (rs_step rs) (rs_parent rs)
           (rs_world rs) = (nc, col, res, w1)"
        "handle_result g cfg (rs_ctx rs) nc col res (rs_node rs) (rs_step rs) (rs_parent rs) w1
           = Inl (s, e, w')"
proof (cases "rs_node rs = '''' \<or> rs_node rs = END")
  case True
  with assms finished show ?thesis by (auto simp: run_body_def)
next
  case node: False
  show ?thesis
  proof (cases "leaseLostFrom (rs_world rs)")
    case (Some x)
    with assms node leaseLostFrom_SomeD [OF Some] show ?thesis
      by (intro refused [of x]) (auto simp: run_body_def)
  next
    case live: None
    show ?thesis
    proof (cases "ctx_Err (rs_world rs)")
      case (Some x)
      with assms node live ctx_Err_not_interrupt [OF Some] show ?thesis
        by (intro refused [of x]) (auto simp: run_body_def)
    next
      case None
      with assms node live refused called show ?thesis
        by (auto simp: run_body_def Let_def split: option.splits prod.splits)
    qed
  qed
qed

lemma next_node_error: "next_node g ctx n s = Inl e \<Longrightarrow> AsInterrupt e = None"
  by (auto simp: next_node_def Let_def split: option.splits if_splits)

context run_store
begin

lemma after_leaves:
  assumes "uses g" "calm_run latest known ok g cfg (handler_of nc cfg)"
    and "store_ready known ok (rc_threadID cfg) N w" "calm latest known ok (rc_threadID cfg) W w"
    and "after_node g cfg ctx nc col upd node step parent state w = Inl (s, e, w')"
    and "rng_pos (w_rng w') \<le> N"
    and Q: "\<And>ctx n. next_node g ctx node (Apply state upd (g_reducers g)) = Inr n \<Longrightarrow>
      Q (n, Apply state upd (g_reducers g))"
  shows "store_ready known ok (rc_threadID cfg) N w'"
    and "failed_or_paused latest known ok (rc_threadID cfg) Q R n0 st0 W (s, e, w')"
proof -
  let ?t = "rc_threadID cfg"
  let ?w1 = "emit nc cfg (node_event EventNodeEnd node step parent) w"
  let ?st = "Apply state upd (g_reducers g)"
  let ?ctx = "ctx\<lparr>ctx_Resume := VNil\<rparr>"
  have c1: "calm latest known ok ?t W ?w1"
    using assms(4) calm_emit [OF assms(2)] by (rule calm_trans)
  have r1: "store_ready known ok ?t N ?w1"
    using assms(3) calm_emit [OF assms(2)] by (rule store_ready_calm)
  have "store_ready known ok ?t N w' \<and> failed_or_paused latest known ok ?t Q R n0 st0 W (s, e, w')"
  proof (cases "next_node g ?ctx node ?st")
    case (Inl x)
    with assms(5) have "w' = ?w1" "e = Some x" by (auto simp: after_node_def Let_def)
    with c1 r1 next_node_error [OF Inl] show ?thesis by (simp add: failed_or_paused_error)
  next
    case (Inr nxt)
    let ?w2 = "emit nc cfg ((node_event EventRoute node (wrap64 (step + 1)) parent)
      \<lparr>ev_Metadata := [''from'' \<mapsto> AStr node, ''to'' \<mapsto> AStr nxt]\<rparr>) ?w1"
    have c2: "calm latest known ok ?t W ?w2"
      using c1 calm_emit [OF assms(2)] by (rule calm_trans)
    have r2: "store_ready known ok ?t N ?w2"
      using r1 calm_emit [OF assms(2)] by (rule store_ready_calm)
    have ok2: "ok (w_store ?w2)" using r2 by (simp add: store_ready_def)
    show ?thesis
    proof (cases "write_checkpoint g cfg ?ctx nc col node nxt (wrap64 (step + 1)) parent ?st ?w2")
      case wc: (Inl out)
      with Inr assms(5) have "out = (s, e, w')" by (simp add: after_node_def Let_def)
      note wf = write_checkpoint_fail [OF assms(1,2) ok2 wc [unfolded this]]
      show ?thesis
        using wf(2) calm_trans [OF c2 wf(1)] store_ready_calm [OF r2 wf(1)]
        by (auto intro: failed_or_paused_error)
    next
      case wc: (Inr r)
      obtain p' ctx' w3 where r: "r = (p', ctx', w3)" by (cases r)
      with wc Inr assms(5) have w': "w3 = w'" "s = ?st"
        "e = Some (Errorf ''graph: max steps %d exceeded'' [AInt (rc_maxSteps cfg)])"
        by (auto simp: after_node_def Let_def split: if_splits)
      note wp = write_checkpoint_point [OF assms(1,2) r2 wc [unfolded r w'(1)] assms(6)]
      show ?thesis
        using wp(1,2) w' Q [OF Inr] by (auto simp: failed_or_paused_def)
    qed
  qed
  then show "store_ready known ok ?t N w'"
    and "failed_or_paused latest known ok ?t Q R n0 st0 W (s, e, w')" by simp_all
qed

lemma handle_leaves:
  assumes "uses g" "calm_run latest known ok g cfg (handler_of nc cfg)"
    and "store_ready known ok (rc_threadID cfg) N w" "calm latest known ok (rc_threadID cfg) W w"
    and "handle_result g cfg ctx nc col res node step parent w = Inl (s, e, w')"
    and "rng_pos (w_rng w') \<le> N"
    and Q: "\<And>ctx n. nr_Err res = None \<Longrightarrow>
      next_node g ctx node (Apply (nr_State res) (nr_Update res) (g_reducers g)) = Inr n \<Longrightarrow>
      Q (n, Apply (nr_State res) (nr_Update res) (g_reducers g))"
    and R: "R (nr_State res)"
  shows "store_ready known ok (rc_threadID cfg) N w'"
    and "failed_or_paused latest known ok (rc_threadID cfg) Q R node step W (s, e, w')"
proof -
  let ?t = "rc_threadID cfg"
  consider (lost) "w' = w" "e = Some ErrLeaseLost"
    | (interrupt) ie where "on_interrupt g cfg nc col ie node step parent (nr_State res) w = (s, e, w')"
    | (error) ev err where "w' = emit nc cfg ev w" "AsInterrupt err = None"
        "e = Some (Wrapf ''graph: node %q: %w'' [AStr node] err)"
    | (after) "nr_Err res = None" "after_node g cfg ctx nc col (nr_Update res) node step parent (nr_State res) w
        = Inl (s, e, w')"
    using assms(5) by (rule handle_result_cases)
  then have "store_ready known ok ?t N w' \<and> failed_or_paused latest known ok ?t Q R node step W (s, e, w')"
  proof cases
    case lost
    with assms(3,4) show ?thesis by (simp add: failed_or_paused_error)
  next
    case interrupt
    note ip = on_interrupt_point [OF assms(1,2,3) this assms(6)]
    from ip(3) show ?thesis
    proof
      assume "e = Some (Interrupted (ie\<lparr>ie_Node := node\<rparr>))
        \<and> at_pause latest ?t node (nr_State res) step (ie_Value ie) w'"
      with ip(1,2) R show ?thesis by (simp add: failed_or_paused_def)
    next
      assume "\<exists>x. e = Some x \<and> AsInterrupt x = None \<and> calm latest known ok ?t w w'"
      with ip(2) calm_trans [OF assms(4)] show ?thesis by (auto intro: failed_or_paused_error)
    qed
  next
    case error
    have "calm latest known ok ?t w w'" using calm_emit [OF assms(2)] error(1) by simp
    with error assms(3,4) show ?thesis
      by (auto intro!: failed_or_paused_error intro: calm_trans store_ready_calm)
  next
    case after
    from after_leaves [OF assms(1-4) after(2) assms(6), of Q] Q [OF after(1)] show ?thesis by blast
  qed
  then show "store_ready known ok ?t N w'"
    and "failed_or_paused latest known ok ?t Q R node step W (s, e, w')" by simp_all
qed

text \<open>A round that leaves the loop: by the loop's condition, or by failing or pausing.\<close>

lemma round_leaves:
  assumes "uses g" "calm_run latest known ok g cfg (handler_of (rs_ctx rs) cfg)"
    and "store_ready known ok (rc_threadID cfg) N (rs_world rs)"
    and "run_body g cfg rs = Inl (s, e, w')" "rng_pos (w_rng w') \<le> N"
  shows "store_ready known ok (rc_threadID cfg) N w'"
    and "e = None \<and> s = rs_state rs \<and> w' = rs_world rs \<and> rs_node rs \<in> {'''', END}
      \<or> failed_or_paused latest known ok (rc_threadID cfg)
          (node_step g (rs_node rs, rs_state rs)) (pause_state g (rs_node rs, rs_state rs))
          (rs_node rs) (rs_step rs) (rs_world rs) (s, e, w')"
proof -
  let ?t = "rc_threadID cfg"
  consider (finished) "e = None" "s = rs_state rs" "w' = rs_world rs" "rs_node rs \<in> {'''', END}"
    | (refused) x where "e = Some x" "AsInterrupt x = None" "w' = rs_world rs"
    | (called) fn nc col res w1 where "g_nodes g (rs_node rs) = Some fn"
        "call_node cfg fn (rs_ctx rs) (rs_state rs) (rs_node rs) (rs_step rs) (rs_parent rs)
           (rs_world rs) = (nc, col, res, w1)"
        "handle_result g cfg (rs_ctx rs) nc col res (rs_node rs) (rs_step rs) (rs_parent rs) w1
           = Inl (s, e, w')"
    using assms(4) by (rule run_body_Inl_cases)
  then have "store_ready known ok ?t N w' \<and>
    (e = None \<and> s = rs_state rs \<and> w' = rs_world rs \<and> rs_node rs \<in> {'''', END}
     \<or> failed_or_paused latest known ok ?t
          (node_step g (rs_node rs, rs_state rs)) (pause_state g (rs_node rs, rs_state rs))
          (rs_node rs) (rs_step rs) (rs_world rs) (s, e, w'))"
  proof cases
    case finished
    with assms(3) show ?thesis by simp
  next
    case refused
    with assms(3) show ?thesis by (simp add: failed_or_paused_error)
  next
    case called
    note c = calm_call_node [OF assms(2) called(1,2)]
    have h: "calm_run latest known ok g cfg (handler_of nc cfg)" using assms(2) c(2) by simp
    obtain w0 where res: "res = fst (fn nc (rs_state rs) w0)"
      using called(2) by (auto simp: call_node_def Let_def split: prod.splits) (metis fst_conv)
    have "rs_node rs \<notin> {'''', END}"
      using assms(4) called(3) handle_result_not_None by (fastforce simp: run_body_def)
    then have Q: "node_step g (rs_node rs, rs_state rs)
        (n, Apply (nr_State res) (nr_Update res) (g_reducers g))"
      if "nr_Err res = None" "next_node g ctx (rs_node rs)
        (Apply (nr_State res) (nr_Update res) (g_reducers g)) = Inr n" for ctx n
      using that called(1) res by (auto simp: node_step_def)
    have R: "pause_state g (rs_node rs, rs_state rs) (nr_State res)"
      using called(1) res by (auto simp: pause_state_def)
    note hl = handle_leaves [where Q = "node_step g (rs_node rs, rs_state rs)"
        and R = "pause_state g (rs_node rs, rs_state rs)", OF assms(1) h
        store_ready_calm [OF assms(3) c(1)] c(1) called(3) assms(5)]
    show ?thesis
      by (intro conjI disjI2) (rule hl, rule Q, assumption+, rule R)+
  qed
  then show "store_ready known ok ?t N w'"
    and "e = None \<and> s = rs_state rs \<and> w' = rs_world rs \<and> rs_node rs \<in> {'''', END}
      \<or> failed_or_paused latest known ok ?t
          (node_step g (rs_node rs, rs_state rs)) (pause_state g (rs_node rs, rs_state rs))
          (rs_node rs) (rs_step rs) (rs_world rs) (s, e, w')"
    by blast+
qed

lemma after_node_pos:
  assumes "uses g" "calm_run latest known ok g cfg (handler_of nc cfg)"
    and an: "after_node g cfg ctx nc col upd node step parent state w = Inl (s, e, w')"
  shows "rng_pos (w_rng w) \<le> rng_pos (w_rng w')"
proof -
  let ?w1 = "emit nc cfg (node_event EventNodeEnd node step parent) w"
  let ?st = "Apply state upd (g_reducers g)"
  let ?ctx = "ctx\<lparr>ctx_Resume := VNil\<rparr>"
  note e1 = emit_pos [OF assms(2)]
  show ?thesis
  proof (cases "next_node g ?ctx node ?st")
    case (Inl x)
    with an e1 show ?thesis by (auto simp: after_node_def Let_def)
  next
    case (Inr nxt)
    let ?w2 = "emit nc cfg ((node_event EventRoute node (wrap64 (step + 1)) parent)
      \<lparr>ev_Metadata := [''from'' \<mapsto> AStr node, ''to'' \<mapsto> AStr nxt]\<rparr>) ?w1"
    obtain r where wc:
      "write_checkpoint g cfg ?ctx nc col node nxt (wrap64 (step + 1)) parent ?st ?w2 = r" by blast
    have "(\<exists>s' e'. r = Inl (s', e', w')) \<or> (\<exists>p c. r = Inr (p, c, w'))"
      using an Inr wc by (auto simp: after_node_def Let_def split: sum.splits if_splits prod.splits)
    then have "rng_pos (w_rng ?w2) \<le> rng_pos (w_rng w')"
      using write_checkpoint_pos [OF assms(1,2) wc] by auto
    with order_trans [OF e1 e1] show ?thesis by (rule order_trans)
  qed
qed

lemma round_leaves_pos:
  assumes "uses g" "calm_run latest known ok g cfg (handler_of (rs_ctx rs) cfg)"
    and "run_body g cfg rs = Inl (s, e, w')"
  shows "rng_pos (w_rng (rs_world rs)) \<le> rng_pos (w_rng w')"
  using assms(3)
proof (cases rule: run_body_Inl_cases)
  case (called fn nc col res w1)
  note c = calm_call_node [OF assms(2) called(1,2)]
  have h: "calm_run latest known ok g cfg (handler_of nc cfg)" using assms(2) c(2) by simp
  from called(3) have "rng_pos (w_rng w1) \<le> rng_pos (w_rng w')"
    by (cases rule: handle_result_cases)
      (auto intro: emit_pos [OF h] on_interrupt_pos [OF assms(1) h] after_node_pos [OF assms(1) h])
  with calm_pos [OF c(1)] show ?thesis by simp
qed simp_all

end

text \<open>A round that goes on is a step of the graph.\<close>

lemma round_steps:
  assumes "run_body g cfg rs = Inr rs'"
  shows "node_step g (rs_node rs, rs_state rs) (rs_node rs', rs_state rs')"
proof -
  from assms obtain fn nc col res w1 where n: "rs_node rs \<notin> {'''', END}" "g_nodes g (rs_node rs) = Some fn"
    and c: "call_node cfg fn (rs_ctx rs) (rs_state rs) (rs_node rs) (rs_step rs) (rs_parent rs)
       (rs_world rs) = (nc, col, res, w1)"
    and r: "nr_Err res = None"
    and a: "after_node g cfg (rs_ctx rs) nc col (nr_Update res) (rs_node rs) (rs_step rs)
       (rs_parent rs) (nr_State res) w1 = Inr rs'"
    by (elim run_body_Inr) auto
  obtain w0 where "res = fst (fn nc (rs_state rs) w0)"
    using c by (auto simp: call_node_def Let_def split: prod.splits) (metis fst_conv)
  with n r a show ?thesis
    by (elim after_node_Inr) (auto simp: node_step_def)
qed

text \<open>
  Where a run leaves the thread. A run that returns without error either had nothing to do,
  or its result is the thread's latest snapshot, at the end of the graph; a run that returns
  an interrupt has the pause as the latest snapshot; after any other error the latest
  snapshot is the one the run started from, or one the run wrote. Whatever the run wrote, the
  graph can reach from the run's start.
\<close>

definition run_left ::
  "('s, 'u) Compiled \<Rightarrow> ('s \<Rightarrow> string \<Rightarrow> Snapshot option) \<Rightarrow> string \<Rightarrow> State \<Rightarrow> string
   \<Rightarrow> ('s, 'u) World \<Rightarrow> ('s, 'u) outcome \<Rightarrow> bool" where
  "run_left g latest t state node w out =
     (case out of (s, e, w') \<Rightarrow>
       (case e of
          None \<Rightarrow> s = state \<and> latest (w_store w') t = latest (w_store w) t \<and> node \<in> {'''', END}
            \<or> (\<exists>n st p. n \<in> {'''', END} \<and> (node_step g)\<^sup>*\<^sup>* (node, state) (n, s)
                 \<and> at_point latest t n s st p w')
        | Some x \<Rightarrow> (case AsInterrupt x of
            Some ie \<Rightarrow> x = Interrupted ie
              \<and> (\<exists>st s0. (node_step g)\<^sup>*\<^sup>* (node, state) (ie_Node ie, s0)
                   \<and> pause_state g (ie_Node ie, s0) s
                   \<and> at_pause latest t (ie_Node ie) s st (ie_Value ie) w')
          | None \<Rightarrow> latest (w_store w') t = latest (w_store w) t
              \<or> (\<exists>n s' st p. (node_step g)\<^sup>*\<^sup>* (node, state) (n, s') \<and> at_point latest t n s' st p w'))))"

lemma failed_left:
  assumes re: "(node_step g)\<^sup>*\<^sup>* (node, state) (n0, s0)"
    and here: "latest (w_store W) t = latest (w_store w) t \<or> (\<exists>st p. at_point latest t n0 s0 st p W)"
    and fp: "failed_or_paused latest known ok t (node_step g (n0, s0)) (pause_state g (n0, s0)) n0 st0 W
      (s, e, w')"
  shows "run_left g latest t state node w (s, e, w')"
proof -
  obtain x where e: "e = Some x" using fp by (cases e) (auto simp: failed_or_paused_def)
  show ?thesis
  proof (cases "AsInterrupt x")
    case (Some ie)
    with fp re show ?thesis by (auto simp: failed_or_paused_def run_left_def e)
  next
    case None
    with fp e consider "calm latest known ok t W w'"
      | n st p where "node_step g (n0, s0) (n, s)" "at_point latest t n s st p w'"
      by (auto simp: failed_or_paused_def)
    then show ?thesis
    proof cases
      case 1
      with here re None show ?thesis
        by (auto simp: run_left_def e calm_latest at_point_calm)
    next
      case 2
      with re None show ?thesis
        by (auto simp: run_left_def e intro: rtranclp.rtrancl_into_rtrancl)
    qed
  qed
qed

context run_store
begin

lemma run_leaves:
  assumes "uses g" "calm_run latest known ok g cfg (handler_of ctx cfg)"
    and "store_ready known ok (rc_threadID cfg) N w"
    and r: "run g ctx state node step parent cfg w = Some (s, e, w')" "rng_pos (w_rng w') \<le> N"
  shows "store_ready known ok (rc_threadID cfg) N w'"
    and "run_left g latest (rc_threadID cfg) state node w (s, e, w')"
proof -
  let ?t = "rc_threadID cfg"
  let ?rs0 = "\<lparr>rs_ctx = ctx, rs_state = state, rs_node = node, rs_step = step,
    rs_parent = parent, rs_world = w\<rparr>"
  let ?reach = "\<lambda>rs. (node_step g)\<^sup>*\<^sup>* (node, state) (rs_node rs, rs_state rs)"
  let ?I = "\<lambda>rs. handler_of (rs_ctx rs) cfg = handler_of ctx cfg \<and> ?reach rs \<and>
    (rng_pos (w_rng (rs_world rs)) \<le> N \<longrightarrow>
       store_ready known ok ?t N (rs_world rs) \<and>
       (rs = ?rs0 \<or> at_point latest ?t (rs_node rs) (rs_state rs) (rs_step rs) (rs_parent rs)
          (rs_world rs)))"
  let ?Q = "\<lambda>(s, e, w'). rng_pos (w_rng w') \<le> N \<longrightarrow>
    store_ready known ok ?t N w' \<and> run_left g latest ?t state node w (s, e, w')"
  have "?Q (s, e, w')"
  proof (rule go_loop_invariant [OF r(1) [unfolded run_def], where I = ?I and Q = ?Q])
    show "?I ?rs0" using assms(3) by simp
  next
    fix rs rs'
    assume I: "?I rs" and b: "run_body g cfg rs = Inr rs'"
    then have cr: "calm_run latest known ok g cfg (handler_of (rs_ctx rs) cfg)"
      using assms(2) by simp
    have "?reach rs'" using I round_steps [OF b] by (auto intro: rtranclp.rtrancl_into_rtrancl)
    note rg = round_goes_on [OF assms(1) cr b]
    show "?I rs'" using I \<open>?reach rs'\<close> rg(1,2) rg(3) [where N = N] by auto
  next
    fix rs and out :: "('s, 'u) outcome"
    assume I: "?I rs" and b: "run_body g cfg rs = Inl out"
    obtain s e w' where out: "out = (s, e, w')" by (cases out)
    have cr: "calm_run latest known ok g cfg (handler_of (rs_ctx rs) cfg)"
      using assms(2) I by simp
    have re: "?reach rs" using I by blast
    note b' = b [unfolded out]
    show "?Q out"
    proof (unfold out, clarify)
      assume pos: "rng_pos (w_rng w') \<le> N"
      with round_leaves_pos [OF assms(1) cr b'] have ready: "store_ready known ok ?t N (rs_world rs)"
        and here: "rs = ?rs0 \<or> at_point latest ?t (rs_node rs) (rs_state rs) (rs_step rs)
          (rs_parent rs) (rs_world rs)"
        using I by auto
      note rl = round_leaves [OF assms(1) cr ready b' pos]
      from rl(2) have "run_left g latest ?t state node w (s, e, w')"
      proof
        assume "e = None \<and> s = rs_state rs \<and> w' = rs_world rs \<and> rs_node rs \<in> {'''', END}"
        then have e: "e = None" "s = rs_state rs" "w' = rs_world rs" "rs_node rs \<in> {'''', END}" by blast+
        from here show ?thesis
        proof
          assume "rs = ?rs0"
          with e show ?thesis by (simp add: run_left_def)
        next
          assume "at_point latest ?t (rs_node rs) (rs_state rs) (rs_step rs) (rs_parent rs) (rs_world rs)"
          with e re have "\<exists>n st p. n \<in> {'''', END} \<and> (node_step g)\<^sup>*\<^sup>* (node, state) (n, s)
              \<and> at_point latest ?t n s st p w'"
            by (intro exI [of _ "rs_node rs"] exI [of _ "rs_step rs"] exI [of _ "rs_parent rs"]) simp
          with e(1) show ?thesis by (simp add: run_left_def)
        qed
      next
        assume "failed_or_paused latest known ok ?t (node_step g (rs_node rs, rs_state rs))
          (pause_state g (rs_node rs, rs_state rs)) (rs_node rs) (rs_step rs) (rs_world rs) (s, e, w')"
        then show ?thesis
          by (rule failed_left [OF re, rotated]) (use here in auto)
      qed
      with rl(1) show "store_ready known ok ?t N w' \<and> run_left g latest ?t state node w (s, e, w')" ..
    qed
  qed
  with r(2) show "store_ready known ok ?t N w'"
    and "run_left g latest ?t state node w (s, e, w')" by simp_all
qed

end

end
