(* ===== verification/Recovery.thy ===== *)
theory Recovery
  imports RunStore
begin

text \<open>
  Invocation and resumption on top of the store contract: where \<open>Invoke\<close> and \<open>Resume\<close> leave
  the thread, with and without an execution lease, and that resuming is transparent: what a
  deterministic graph returns does not depend on where earlier attempts failed.
\<close>

section \<open>The lease around a run\<close>

text \<open>Acquiring and releasing the lease leaves the thread's checkpoints alone.\<close>

definition calm_lease ::
  "('s \<Rightarrow> string \<Rightarrow> Snapshot option) \<Rightarrow> ('s \<Rightarrow> string \<Rightarrow> string set) \<Rightarrow> ('s \<Rightarrow> bool)
   \<Rightarrow> string \<Rightarrow> ('s, 'u) Compiled \<Rightarrow> bool" where
  "calm_lease latest known ok t g \<longleftrightarrow>
     (\<forall>l. g_lease g = Some l \<longrightarrow>
        (\<forall>rid ttl w a w'. el_Acquire l t rid ttl w = (a, w') \<longrightarrow>
           calm latest known ok t w w' \<and> (\<forall>e. a = Inl e \<longrightarrow> AsInterrupt e = None))
        \<and> (\<forall>gr w. calm latest known ok t w (snd (el_Release l gr w))))"

lemma calm_lease_None: "g_lease g = None \<Longrightarrow> calm_lease l k i t g"
  by (simp add: calm_lease_def)

lemma handler_of_withEventHandler [simp]:
  "handler_of (withEventHandler ctx (rc_events cfg)) cfg = handler_of ctx cfg"
  by (auto simp: handler_of_def withEventHandler_def split: option.splits)

lemma handler_of_ctx_ids [simp]:
  "handler_of (ctx\<lparr>ctx_ThreadID := a\<rparr>) cfg = handler_of ctx cfg"
  "handler_of (ctx\<lparr>ctx_RunID := a\<rparr>) cfg = handler_of ctx cfg"
  by (auto simp: handler_of_def split: option.splits)

lemma handler_of_enrichCtx [simp]: "handler_of (enrichCtx ctx cfg p w) cfg = handler_of ctx cfg"
  by (simp add: enrichCtx_def Let_def split: option.splits)

lemma calm_cancel_run [simp]: "calm l k i t w (cancel_run c w)"
  by (auto simp: cancel_run_def intro: calm_same_store)

lemma calm_derive_ctx [simp]: "calm l k i t w (derive_ctx w)"
  by (auto simp: derive_ctx_def intro: calm_same_store)

lemma calm_release_lease:
  assumes "calm_run l k i g cfg (handler_of ctx cfg)" "calm_lease l k i (rc_threadID cfg) g"
    and "g_lease g = Some lz"
  shows "calm l k i (rc_threadID cfg) w (release_lease lz ctx cfg grant err w)"
proof -
  let ?t = "rc_threadID cfg"
  define w1 where "w1 = cancel_run Canceled w"
  obtain final ev where r: "release_lease lz ctx cfg grant err w
      = (let w2 = emit ctx cfg ev w1;
             (_, w3) = el_Release lz final (w2\<lparr>w_caller := None, w_cancel := None\<rparr>)
         in w3\<lparr>w_caller := w_caller w2, w_cancel := None\<rparr>)"
    by (auto simp: release_lease_def w1_def Let_def)
  let ?w2 = "emit ctx cfg ev w1"
  let ?w2' = "?w2\<lparr>w_caller := None, w_cancel := None\<rparr>"
  have "calm l k i ?t w w1" by (simp add: w1_def)
  moreover have "calm l k i ?t w1 ?w2" by (rule calm_emit [OF assms(1)])
  moreover have "calm l k i ?t ?w2 ?w2'" by (rule calm_same_store) simp_all
  moreover have "calm l k i ?t ?w2' (snd (el_Release lz final ?w2'))"
    using assms(2,3) by (simp add: calm_lease_def)
  moreover have "calm l k i ?t (snd (el_Release lz final ?w2')) (release_lease lz ctx cfg grant err w)"
    unfolding r by (auto simp: Let_def split: prod.splits intro: calm_same_store)
  ultimately show ?thesis by (meson calm_trans)
qed

text \<open>
  The lease around a body is calm: either it is not granted and nothing was run, or the body
  ran in a calm successor of the world, under a context with the same handler, and the
  result is its result, in a calm successor of the world it left.
\<close>

lemma withLease_cases:
  assumes "withLease g ctx cfg body w = Some (s, e, w')"
    and cr: "calm_run l k i g cfg (handler_of ctx cfg)" and cl: "calm_lease l k i (rc_threadID cfg) g"
  obtains (refused) x where "s = Map.empty" "e = Some x" "AsInterrupt x = None"
      "calm l k i (rc_threadID cfg) w w'"
    | (ran) ctx1 w1 w2 where "body ctx1 w1 = Some (s, e, w2)" "handler_of ctx1 cfg = handler_of ctx cfg"
      "calm l k i (rc_threadID cfg) w w1" "calm l k i (rc_threadID cfg) w2 w'"
proof (cases "g_lease g")
  case None
  with assms(1) ran show ?thesis by (simp add: withLease_def)
next
  case (Some lz)
  let ?t = "rc_threadID cfg"
  obtain a w1 where acq: "el_Acquire lz ?t (rc_runID cfg) (lease_ttl g cfg) w = (a, w1)"
    by (cases "el_Acquire lz ?t (rc_runID cfg) (lease_ttl g cfg) w")
  have c1: "calm l k i ?t w w1" and ni: "\<And>x. a = Inl x \<Longrightarrow> AsInterrupt x = None"
    using cl Some acq by (auto simp: calm_lease_def)
  show ?thesis
  proof (cases a)
    case (Inl x)
    with assms(1) Some acq have "s = Map.empty" "e = Some x" "w' = w1" by (simp_all add: withLease_def Let_def)
    with refused ni [OF Inl] c1 show ?thesis by simp
  next
    case (Inr grant)
    let ?w2 = "derive_ctx (w1\<lparr>w_sess := Some grant\<rparr>)"
    let ?rc = "(withEventHandler (ctx\<lparr>ctx_ThreadID := rc_threadID cfg, ctx_RunID := rc_runID cfg\<rparr>)
        (rc_events cfg))\<lparr>ctx_LeaseGrant := Some grant\<rparr>"
    obtain ev where "withLease g ctx cfg body w = (case body ?rc (emit ?rc cfg ev ?w2) of None \<Rightarrow> None
        | Some (out, err, w4) \<Rightarrow> Some (out, err, release_lease lz ctx cfg grant err w4))"
      using Some acq Inr by (auto simp: withLease_def Let_def)
    with assms(1) obtain w4 where b: "body ?rc (emit ?rc cfg ev ?w2) = Some (s, e, w4)"
      and w': "w' = release_lease lz ctx cfg grant e w4"
      by (auto split: option.splits)
    have h: "handler_of ?rc cfg = handler_of ctx cfg" by simp
    have "calm l k i ?t w1 (w1\<lparr>w_sess := Some grant\<rparr>)" by (rule calm_same_store) simp_all
    moreover have "calm l k i ?t (w1\<lparr>w_sess := Some grant\<rparr>) ?w2" by simp
    moreover have "calm l k i ?t ?w2 (emit ?rc cfg ev ?w2)"
      by (rule calm_emit) (use cr h in simp)
    ultimately have "calm l k i ?t w (emit ?rc cfg ev ?w2)" using c1 by (meson calm_trans)
    from ran [OF b h this] calm_release_lease [OF cr cl Some] w' show ?thesis by blast
  qed
qed

lemma calm_emitRunEnd:
  "calm_run l k i g cfg (handler_of ctx cfg) \<Longrightarrow> calm l k i (rc_threadID cfg) w (emitRunEnd ctx cfg e w)"
  by (simp add: emitRunEnd_def Let_def calm_emit)

lemma calm_prepareRun:
  assumes "prepareRun g opts w = (cfg, w')"
  shows "calm l k i t w w'"
proof -
  obtain r1 w1 where d1: "draw_id w = (r1, w1)" by (cases "draw_id w")
  obtain r2 w2 where d2: "draw_id w1 = (r2, w2)" by (cases "draw_id w1")
  have "w' = w1 \<or> w' = w2"
    using assms by (auto simp: prepareRun_def Let_def d1 d2 split: if_splits)
  then show ?thesis
    using calm_draw_id [OF d1] calm_trans [OF calm_draw_id [OF d1] calm_draw_id [OF d2]] by blast
qed

lemma run_left_calm:
  assumes "run_left g l t st n W (s, e, w')" "calm l k i t w W" "calm l k i t w' w''"
  shows "run_left g l t st n w (s, e, w'')"
proof (cases e)
  case None
  with assms show ?thesis by (simp add: run_left_def calm_latest at_point_calm)
next
  case (Some x)
  with assms show ?thesis
    by (cases "AsInterrupt x") (simp_all add: run_left_def calm_latest at_point_calm at_pause_calm)
qed

section \<open>Invoke\<close>

context run_store
begin

text \<open>
  An attempt whose body runs the graph from a point, under the run's lease, leaves the thread
  as that run leaves it.
\<close>

lemma attempt_leaves:
  assumes "uses g" "calm_run latest known ok g cfg (handler_of ctx0 cfg)"
    and "store_ready known ok (rc_threadID cfg) N w" "calm latest known ok (rc_threadID cfg) w v"
    and "run g ctx state node step parent cfg v = Some (s, e, v')"
    and "handler_of ctx cfg = handler_of ctx0 cfg"
    and "calm latest known ok (rc_threadID cfg) v' w'" "rng_pos (w_rng w') \<le> N"
  shows "store_ready known ok (rc_threadID cfg) N w'"
    and "run_left g latest (rc_threadID cfg) state node w (s, e, w')"
proof -
  have h: "calm_run latest known ok g cfg (handler_of ctx cfg)" using assms(2,6) by simp
  have pos: "rng_pos (w_rng v') \<le> N" using calm_pos [OF assms(7)] assms(8) by simp
  note rl = run_leaves [OF assms(1) h store_ready_calm [OF assms(3,4)] assms(5) pos]
  from rl(1) assms(7) show "store_ready known ok (rc_threadID cfg) N w'" by (rule store_ready_calm)
  from rl(2) assms(4,7) show "run_left g latest (rc_threadID cfg) state node w (s, e, w')"
    by (rule run_left_calm)
qed

lemma refused_left:
  "AsInterrupt x = None \<Longrightarrow> calm latest known ok t w w' \<Longrightarrow> run_left g latest t st n w (s, Some x, w')"
  by (simp add: run_left_def calm_latest)

lemma Invoke_leaves:
  assumes "uses g" "calm_run latest known ok g cfg (handler_of ctx0 cfg)"
    and "calm_lease latest known ok (rc_threadID cfg) g"
    and "fst (prepareRun g opts (w\<lparr>w_sess := None\<rparr>)) = cfg"
    and "store_ready known ok (rc_threadID cfg) N w"
    and "Invoke g ctx0 input opts w = Some (s, e, w')" "rng_pos (w_rng w') \<le> N"
  shows "store_ready known ok (rc_threadID cfg) N w'"
    and "run_left g latest (rc_threadID cfg) input (g_entry g) w (s, e, w')"
proof -
  let ?t = "rc_threadID cfg"
  obtain v where p: "prepareRun g opts (w\<lparr>w_sess := None\<rparr>) = (cfg, v)"
    using assms(4) by (metis prod.collapse)
  have "calm latest known ok ?t w (w\<lparr>w_sess := None\<rparr>)" by (rule calm_same_store) simp_all
  then have cv: "calm latest known ok ?t w v" using calm_prepareRun [OF p] by (rule calm_trans)
  let ?body = "\<lambda>ctx1 w1. let ctx = enrichCtx ctx1 cfg '''' w1;
                  w2 = emit ctx cfg (new_event EventRunStart) w1
              in case run g ctx input (g_entry g) 0 '''' cfg w2 of
                   None \<Rightarrow> None
                 | Some (out, err, w3) \<Rightarrow> Some (out, err, emitRunEnd ctx cfg err w3)"
  have "withLease g ctx0 cfg ?body v = Some (s, e, w')"
    using assms(6) by (simp add: Invoke_def p)
  from this assms(2,3) have "store_ready known ok ?t N w'
    \<and> run_left g latest ?t input (g_entry g) w (s, e, w')"
  proof (cases rule: withLease_cases)
    case (refused x)
    with calm_trans [OF cv refused(4)] show ?thesis
      using store_ready_calm [OF assms(5)] refused_left by blast
  next
    case (ran ctx1 w1 w2)
    let ?ctx = "enrichCtx ctx1 cfg '''' w1"
    have h: "handler_of ?ctx cfg = handler_of ctx0 cfg" using ran(2) by simp
    have cr: "calm_run latest known ok g cfg (handler_of ?ctx cfg)" using assms(2) h by simp
    let ?w2 = "emit ?ctx cfg (new_event EventRunStart) w1"
    from ran(1) obtain w3 where r: "run g ?ctx input (g_entry g) 0 '''' cfg ?w2 = Some (s, e, w3)"
      and w2: "w2 = emitRunEnd ?ctx cfg e w3"
      by (auto simp: Let_def split: option.splits)
    have c1: "calm latest known ok ?t w ?w2"
      using cv ran(3) calm_emit [OF cr] by (meson calm_trans)
    have c2: "calm latest known ok ?t w3 w'"
      using calm_emitRunEnd [OF cr] ran(4) unfolding w2 by (rule calm_trans)
    from attempt_leaves [OF assms(1,2,5) c1 r h c2 assms(7)] show ?thesis by blast
  qed
  then show "store_ready known ok ?t N w'"
    and "run_left g latest ?t input (g_entry g) w (s, e, w')" by simp_all
qed

end

section \<open>Resume\<close>

text \<open>The state and the node a resume continues from.\<close>

definition resume_state :: "('s, 'u) Compiled \<Rightarrow> ('s, 'u) runConfig \<Rightarrow> Snapshot \<Rightarrow> State" where
  "resume_state g cfg sn =
     (case rc_command cfg of
        Some cmd \<Rightarrow> (case cmd_Update cmd of Some u \<Rightarrow> Apply (sn_State sn) u (g_reducers g) | None \<Rightarrow> sn_State sn)
      | None \<Rightarrow> sn_State sn)"

definition resume_node :: "('s, 'u) runConfig \<Rightarrow> Snapshot \<Rightarrow> string" where
  "resume_node cfg sn =
     (case rc_command cfg of
        Some cmd \<Rightarrow> if cmd_Goto cmd \<noteq> '''' then cmd_Goto cmd else sn_Node sn
      | None \<Rightarrow> sn_Node sn)"

text \<open>The value a resume carries, nil without a command.\<close>

definition resume_value :: "('s, 'u) runConfig \<Rightarrow> gval" where
  "resume_value cfg = (case rc_command cfg of Some cmd \<Rightarrow> cmd_Resume cmd | None \<Rightarrow> VNil)"

definition wrong_checkpoint :: "('s, 'u) runConfig \<Rightarrow> Snapshot \<Rightarrow> bool" where
  "wrong_checkpoint cfg sn \<longleftrightarrow>
     rc_expectedCheckpointID cfg \<noteq> '''' \<and> sn_CheckpointID sn \<noteq> rc_expectedCheckpointID cfg"

text \<open>The configuration of a resume: a thread argument overrides the option.\<close>

definition resume_config ::
  "('s, 'u) Compiled \<Rightarrow> string \<Rightarrow> ('s, 'u) RunOption list \<Rightarrow> ('s, 'u) World \<Rightarrow> ('s, 'u) runConfig" where
  "resume_config g thread opts w =
     (let cfg = fst (prepareRun g opts (w\<lparr>w_sess := None\<rparr>))
      in if thread \<noteq> [] then cfg\<lparr>rc_threadID := thread\<rparr> else cfg)"

lemma resume_value_nil:
  "(case rc_command cfg of None \<Rightarrow> True | Some cmd \<Rightarrow> cmd_Resume cmd = VNil) \<longleftrightarrow> resume_value cfg = VNil"
  by (simp add: resume_value_def split: option.split)

lemma resume_body_point:
  assumes "loadLatest g (rc_threadID cfg) w = Inr (Some sn)"
  shows "resume_body g cfg ctx w =
    (let node = resume_node cfg sn; state = resume_state g cfg sn; ckpt = sn_CheckpointID sn
     in if wrong_checkpoint cfg sn then Some (Map.empty,
               Some (Wrapf ''%w: want %q, latest %q''
                 [AStr (rc_expectedCheckpointID cfg), AStr (sn_CheckpointID sn)]
                 ErrExpectedCheckpointMismatch), w)
        else if node = '''' \<or> node = END then
          (let ctx = enrichCtx ctx cfg ckpt w
           in Some (state, None,
                emit ctx cfg ((new_event EventRunEnd)
                   \<lparr>ev_CheckpointID := ckpt, ev_Step := sn_Step sn,
                    ev_Metadata := [''status'' \<mapsto> AStr ''completed'']\<rparr>)
                (emit ctx cfg ((new_event EventRunResume)
                   \<lparr>ev_CheckpointID := ckpt, ev_Step := sn_Step sn\<rparr>) w)))
        else if sn_Interrupt sn \<and> resume_value cfg = VNil
        then Some (state, Some (Errorf ''graph: interrupted at %q; resume requires WithCommand(Command{Resume: ...})''
                 [AStr node]), w)
        else
          (let ctx = enrichCtx (if sn_Interrupt sn then ctx\<lparr>ctx_Resume := resume_value cfg\<rparr> else ctx) cfg ckpt w
           in case run g ctx state node (sn_Step sn) ckpt cfg
                     (emit ctx cfg (node_event EventRunResume node (sn_Step sn) ckpt) w) of
                None \<Rightarrow> None
              | Some (out, err, w3) \<Rightarrow> Some (out, err, emitRunEnd ctx cfg err w3)))"
  unfolding resume_body_def assms sum.case option.case resume_value_nil Let_def resume_value_def [symmetric]
    resume_state_def [symmetric] resume_node_def [symmetric] wrong_checkpoint_def [symmetric] ..

context run_store
begin

text \<open>
  Where a resume leaves the thread, in terms of the snapshot it loaded. It is refused (and
  then nothing changed), or it ran the graph from the snapshot's point.
\<close>

lemma resume_body_leaves:
  assumes "uses g" "calm_run latest known ok g cfg (handler_of ctx cfg)"
    and "store_ready known ok (rc_threadID cfg) N w"
    and "latest (w_store w) (rc_threadID cfg) = Some sn"
    and b: "resume_body g cfg ctx w = Some (s, e, w')" and "rng_pos (w_rng w') \<le> N"
  shows "store_ready known ok (rc_threadID cfg) N w'"
    and "run_left g latest (rc_threadID cfg) (resume_state g cfg sn) (resume_node cfg sn) w (s, e, w')"
proof -
  let ?t = "rc_threadID cfg" and ?n = "resume_node cfg sn" and ?s = "resume_state g cfg sn"
  let ?G = "store_ready known ok ?t N w' \<and> run_left g latest ?t ?s ?n w (s, e, w')"
  have ld: "loadLatest g ?t w = Inr (Some sn)"
    using load [OF assms(1)] assms(3,4) by (simp add: store_ready_def)
  note rb = b [unfolded resume_body_point [OF ld]]
  let ?ckpt = "sn_CheckpointID sn"
  show "store_ready known ok ?t N w'" and "run_left g latest ?t ?s ?n w (s, e, w')"
  proof (atomize(full), cases "wrong_checkpoint cfg sn")
    case True
    with rb have "w' = w" "\<exists>x. e = Some x \<and> AsInterrupt x = None" by (auto simp: Let_def)
    with assms(3) show ?G by (auto intro: refused_left)
  next
    case right: False
    show ?G
    proof (cases "?n = '''' \<or> ?n = END")
      case True
      let ?ctx = "enrichCtx ctx cfg ?ckpt w"
      have cr: "calm_run latest known ok g cfg (handler_of ?ctx cfg)" using assms(2) by simp
      from True right rb obtain ev1 ev2 where "w' = emit ?ctx cfg ev2 (emit ?ctx cfg ev1 w)"
        "s = ?s" "e = None" by (auto simp: Let_def)
      moreover from this have "calm latest known ok ?t w w'"
        using calm_emit [OF cr] by (meson calm_trans)
      ultimately show ?G
        using True store_ready_calm [OF assms(3)] by (auto simp: run_left_def calm_latest)
    next
      case False
      show ?G
      proof (cases "sn_Interrupt sn \<and> resume_value cfg = VNil")
        case True
        with False right rb have "w' = w" "\<exists>x. e = Some x \<and> AsInterrupt x = None"
          by (auto simp: Let_def)
        with assms(3) show ?G by (auto intro: refused_left)
      next
        case go: False
        let ?ctx = "enrichCtx (if sn_Interrupt sn then ctx\<lparr>ctx_Resume := resume_value cfg\<rparr> else ctx)
          cfg ?ckpt w"
        have h: "handler_of ?ctx cfg = handler_of ctx cfg" by simp
        have cr: "calm_run latest known ok g cfg (handler_of ?ctx cfg)" using assms(2) by simp
        let ?w2 = "emit ?ctx cfg (node_event EventRunResume ?n (sn_Step sn) ?ckpt) w"
        from False right go rb obtain w3 where
          r: "run g ?ctx ?s ?n (sn_Step sn) ?ckpt cfg ?w2 = Some (s, e, w3)"
          and w': "w' = emitRunEnd ?ctx cfg e w3"
          by (auto simp: Let_def split: option.splits)
        have c2: "calm latest known ok ?t w3 w'" unfolding w' by (rule calm_emitRunEnd [OF cr])
        from attempt_leaves [OF assms(1-3) calm_emit [OF cr] r h c2 assms(6)] show ?G by blast
      qed
    qed
  qed
qed

lemma Resume_leaves:
  assumes "uses g" "calm_run latest known ok g cfg (handler_of ctx0 cfg)"
    and "calm_lease latest known ok (rc_threadID cfg) g"
    and "resume_config g thread opts w = cfg"
    and "store_ready known ok (rc_threadID cfg) N w"
    and "latest (w_store w) (rc_threadID cfg) = Some sn"
    and "Resume g ctx0 thread opts w = Some (s, e, w')" "rng_pos (w_rng w') \<le> N"
  shows "store_ready known ok (rc_threadID cfg) N w'"
    and "run_left g latest (rc_threadID cfg) (resume_state g cfg sn) (resume_node cfg sn) w (s, e, w')"
proof -
  let ?t = "rc_threadID cfg"
  let ?G = "store_ready known ok ?t N w'
    \<and> run_left g latest ?t (resume_state g cfg sn) (resume_node cfg sn) w (s, e, w')"
  obtain cfg0 v where p: "prepareRun g opts (w\<lparr>w_sess := None\<rparr>) = (cfg0, v)"
    by (cases "prepareRun g opts (w\<lparr>w_sess := None\<rparr>)")
  have "calm latest known ok ?t w (w\<lparr>w_sess := None\<rparr>)" by (rule calm_same_store) simp_all
  then have cv: "calm latest known ok ?t w v" using calm_prepareRun [OF p] by (rule calm_trans)
  have cfg: "(if thread \<noteq> [] then cfg0\<lparr>rc_threadID := thread\<rparr> else cfg0) = cfg"
    using assms(4) by (simp add: resume_config_def p)
  have st: "g_durable g \<noteq> None \<or> g_checkpointer g \<noteq> None"
    using has_store [OF assms(1)] by (simp add: hasStore_def)
  have "withLease g ctx0 cfg (resume_body g cfg) v = Some (s, e, w')"
    using assms(7) st by (auto simp: Resume_def p cfg Let_def split: if_splits)
  from this assms(2,3) have ?G
  proof (cases rule: withLease_cases)
    case (refused x)
    with calm_trans [OF cv refused(4)] show ?thesis
      using store_ready_calm [OF assms(5)] refused_left by blast
  next
    case (ran ctx1 w1 w2)
    have c1: "calm latest known ok ?t w w1" using cv ran(3) by (rule calm_trans)
    have cr: "calm_run latest known ok g cfg (handler_of ctx1 cfg)" using assms(2) ran(2) by simp
    have pos: "rng_pos (w_rng w2) \<le> N" using calm_pos [OF ran(4)] assms(8) by simp
    have l1: "latest (w_store w1) ?t = Some sn" using assms(6) calm_latest [OF c1] by simp
    note rb = resume_body_leaves [OF assms(1) cr store_ready_calm [OF assms(5) c1] l1 ran(1) pos]
    from store_ready_calm [OF rb(1) ran(4)] run_left_calm [OF rb(2) c1 ran(4)] show ?thesis ..
  qed
  then show "store_ready known ok ?t N w'"
    and "run_left g latest ?t (resume_state g cfg sn) (resume_node cfg sn) w (s, e, w')" by simp_all
qed

end

section \<open>Recovery\<close>

text \<open>
  A graph whose steps are functions of node and state: whenever a node returns without error
  the update, and with it the next node, is the same, and nodes do not write to the state
  they are given. Nodes may fail or pause at will.
\<close>

definition det_graph :: "('s, 'u) Compiled \<Rightarrow> bool" where
  "det_graph g \<longleftrightarrow> (\<forall>a b c. node_step g a b \<longrightarrow> node_step g a c \<longrightarrow> b = c)
     \<and> (\<forall>a s. pause_state g a s \<longrightarrow> s = snd a)"

text \<open>A resume whose command, if there is one, neither patches the state nor moves the node.\<close>

definition plain_resume :: "('s, 'u) runConfig \<Rightarrow> bool" where
  "plain_resume cfg \<longleftrightarrow>
     (case rc_command cfg of None \<Rightarrow> True | Some cmd \<Rightarrow> cmd_Update cmd = None \<and> cmd_Goto cmd = '''')"

lemma plain_resume_point:
  "plain_resume cfg \<Longrightarrow> resume_state g cfg sn = sn_State sn \<and> resume_node cfg sn = sn_Node sn"
  by (auto simp: plain_resume_def resume_state_def resume_node_def split: option.splits)

text \<open>The end of the graph, reached from \<open>a\<close> with the state \<open>s\<close>.\<close>

definition ends_with :: "('s, 'u) Compiled \<Rightarrow> string \<times> State \<Rightarrow> State \<Rightarrow> bool" where
  "ends_with g a s \<longleftrightarrow> (\<exists>n. n \<in> {'''', END} \<and> (node_step g)\<^sup>*\<^sup>* a (n, s))"

text \<open>The thread's latest snapshot is on the way from \<open>a\<close>.\<close>

definition on_course ::
  "('s, 'u) Compiled \<Rightarrow> ('s \<Rightarrow> string \<Rightarrow> Snapshot option) \<Rightarrow> string \<Rightarrow> string \<times> State
   \<Rightarrow> ('s, 'u) World \<Rightarrow> bool" where
  "on_course g latest t a w \<longleftrightarrow>
     (\<exists>sn. latest (w_store w) t = Some sn \<and> (node_step g)\<^sup>*\<^sup>* a (sn_Node sn, sn_State sn))"

lemma det_path_unique:
  assumes d: "\<And>a b c. node_step g a b \<Longrightarrow> node_step g a c \<Longrightarrow> b = c"
    and "(node_step g)\<^sup>*\<^sup>* a b" "(node_step g)\<^sup>*\<^sup>* a c" "fst b \<in> {'''', END}" "fst c \<in> {'''', END}"
  shows "b = c"
  using assms(2,3)
proof (induction rule: converse_rtranclp_induct)
  case base
  then show ?case
    using assms(4) by (cases rule: converse_rtranclpE) (auto simp: node_step_def)
next
  case (step a x)
  from step.prems show ?case
  proof (cases rule: converse_rtranclpE)
    case base
    with step.hyps(1) assms(5) show ?thesis by (auto simp: node_step_def)
  next
    case (step y)
    with d [OF \<open>node_step g a x\<close> step(1)] \<open>(node_step g)\<^sup>*\<^sup>* x c \<Longrightarrow> b = c\<close> show ?thesis by simp
  qed
qed

lemma ends_with_unique: "det_graph g \<Longrightarrow> ends_with g a s \<Longrightarrow> ends_with g a s' \<Longrightarrow> s = s'"
proof -
  assume d: "det_graph g" and "ends_with g a s" "ends_with g a s'"
  then obtain n n' where p: "(node_step g)\<^sup>*\<^sup>* a (n, s)" "(node_step g)\<^sup>*\<^sup>* a (n', s')"
    "n \<in> {[], END}" "n' \<in> {[], END}"
    by (auto simp: ends_with_def)
  have "(n, s) = (n', s')"
    by (rule det_path_unique [OF _ p(1,2)]) (use d p(3,4) in \<open>auto simp: det_graph_def\<close>)
  then show "s = s'" by simp
qed

lemma on_course_calm: "calm l k i t w w' \<Longrightarrow> on_course g l t a w' = on_course g l t a w"
  by (simp add: on_course_def calm_latest)

lemma run_left_course:
  assumes "det_graph g" "run_left g l t st n w (s, e, w')" "(node_step g)\<^sup>*\<^sup>* a (n, st)"
  shows "e = None \<Longrightarrow> ends_with g a s"
    and "e \<noteq> None \<Longrightarrow> l (w_store w') t = l (w_store w) t \<or> on_course g l t a w'"
proof -
  show "ends_with g a s" if "e = None"
    using that assms(2,3) by (auto simp: run_left_def ends_with_def intro: rtranclp_trans)
  show "l (w_store w') t = l (w_store w) t \<or> on_course g l t a w'" if ne: "e \<noteq> None"
  proof -
    obtain x where e: "e = Some x" using ne by blast
    show ?thesis
    proof (cases "AsInterrupt x")
      case None
      with assms(2,3) e show ?thesis
        by (auto simp: run_left_def on_course_def at_point_def intro: rtranclp_trans)
    next
      case (Some ie)
      with assms(2) e obtain stp s0 where p: "(node_step g)\<^sup>*\<^sup>* (n, st) (ie_Node ie, s0)"
        "pause_state g (ie_Node ie, s0) s" "at_pause l t (ie_Node ie) s stp (ie_Value ie) w'"
        by (auto simp: run_left_def)
      then have "s = s0" using assms(1) by (fastforce simp: det_graph_def)
      with p assms(3) show ?thesis by (auto simp: on_course_def at_pause_def intro: rtranclp_trans)
    qed
  qed
qed

text \<open>
  Any number of attempts to resume the thread, each of which ended in an error, with calm
  changes of the world in between.
\<close>

inductive tried ::
  "('s \<Rightarrow> string \<Rightarrow> Snapshot option) \<Rightarrow> ('s \<Rightarrow> string \<Rightarrow> string set) \<Rightarrow> ('s \<Rightarrow> bool)
   \<Rightarrow> ('s, 'u) Compiled \<Rightarrow> ('s, 'u) Ctx \<Rightarrow> string \<Rightarrow> nat \<Rightarrow> ('s, 'u) World \<Rightarrow> ('s, 'u) World \<Rightarrow> bool"
  for latest known ok g ctx0 t N w where
  tried_none: "tried latest known ok g ctx0 t N w w"
| tried_again: "tried latest known ok g ctx0 t N w w1 \<Longrightarrow> calm latest known ok t w1 w2 \<Longrightarrow>
    resume_config g t opts w2 = cfg \<Longrightarrow> rc_threadID cfg = t \<Longrightarrow> plain_resume cfg \<Longrightarrow>
    calm_run latest known ok g cfg (handler_of ctx0 cfg) \<Longrightarrow>
    Resume g ctx0 t opts w2 = Some (s, Some e, w3) \<Longrightarrow> rng_pos (w_rng w3) \<le> N \<Longrightarrow>
    tried latest known ok g ctx0 t N w w3"

context run_store
begin

lemma resume_course:
  assumes "uses g" "det_graph g" "calm_run latest known ok g cfg (handler_of ctx0 cfg)"
    and "calm_lease latest known ok t g" "resume_config g t opts w = cfg" "rc_threadID cfg = t"
    and "plain_resume cfg" "store_ready known ok t N w" "on_course g latest t a w"
    and "Resume g ctx0 t opts w = Some (s, e, w')" "rng_pos (w_rng w') \<le> N"
  shows "store_ready known ok t N w'" "e = None \<Longrightarrow> ends_with g a s"
    "e \<noteq> None \<Longrightarrow> on_course g latest t a w'"
proof -
  obtain sn where sn: "latest (w_store w) t = Some sn" "(node_step g)\<^sup>*\<^sup>* a (sn_Node sn, sn_State sn)"
    using assms(9) by (auto simp: on_course_def)
  note rl = Resume_leaves [OF assms(1,3) _ assms(5) _ _ assms(10,11), unfolded assms(6),
      OF assms(4,8) sn(1)]
  from rl(1) show "store_ready known ok t N w'" .
  have pt: "resume_state g cfg sn = sn_State sn" "resume_node cfg sn = sn_Node sn"
    using plain_resume_point [OF assms(7)] by simp_all
  note rc = run_left_course [OF assms(2) rl(2) [unfolded pt] sn(2)]
  from rc(1) show "e = None \<Longrightarrow> ends_with g a s" .
  from rc(2) show "e \<noteq> None \<Longrightarrow> on_course g latest t a w'"
    using assms(9) by (auto simp: on_course_def)
qed

lemma tried_course:
  assumes "tried latest known ok g ctx0 t N w w'"
    and "uses g" "det_graph g" "calm_lease latest known ok t g"
    and "store_ready known ok t N w" "on_course g latest t a w"
  shows "store_ready known ok t N w' \<and> on_course g latest t a w'"
  using assms(1)
proof (induction rule: tried.induct)
  case tried_none
  with assms show ?case by simp
next
  case (tried_again w1 w2 opts cfg s e w3)
  have r2: "store_ready known ok t N w2" and c2: "on_course g latest t a w2"
    using tried_again(9) store_ready_calm [OF _ tried_again(2)] on_course_calm [OF tried_again(2)] by blast+
  note rc = resume_course [OF assms(2,3) tried_again(6) assms(4) tried_again(3,4,5) r2 c2 tried_again(7,8)]
  from rc(1,3) show ?case by simp
qed

text \<open>
  However often the thread is resumed after a failed invocation, the resume that succeeds
  returns the state in which the graph ends when it starts from the invocation's input.
\<close>

lemma recovery:
  assumes "uses g" "det_graph g" "calm_lease latest known ok t g"
    and i: "fst (prepareRun g opts0 (w\<lparr>w_sess := None\<rparr>)) = cfg0" "rc_threadID cfg0 = t"
      "calm_run latest known ok g cfg0 (handler_of ctx0 cfg0)" "store_ready known ok t N w"
      "latest (w_store w) t = None"
      "Invoke g ctx0 input opts0 w = Some (s0, Some e0, w0)" "rng_pos (w_rng w0) \<le> N"
      "latest (w_store w0) t \<noteq> None"
    and tr: "tried latest known ok g ctx1 t N w0 w1" "calm latest known ok t w1 w2"
    and r: "resume_config g t opts w2 = cfg" "rc_threadID cfg = t" "plain_resume cfg"
      "calm_run latest known ok g cfg (handler_of ctx1 cfg)"
      "Resume g ctx1 t opts w2 = Some (out, None, w3)" "rng_pos (w_rng w3) \<le> N"
  shows "ends_with g (g_entry g, input) out"
proof -
  let ?a = "(g_entry g, input)"
  note il = Invoke_leaves [OF assms(1) i(3) _ i(1) _ i(6,7), unfolded i(2), OF assms(3) i(4)]
  have c0: "on_course g latest t ?a w0"
    using run_left_course(2) [OF assms(2) il(2) rtranclp.rtrancl_refl] i(5,8) by simp
  from tried_course [OF tr(1) assms(1-3) il(1) c0] tr(2)
  have "store_ready known ok t N w2" "on_course g latest t ?a w2"
    using store_ready_calm [OF _ tr(2)] on_course_calm [OF tr(2)] by blast+
  from resume_course(2) [OF assms(1,2) r(4) assms(3) r(1-3) this r(5,6)] show ?thesis by simp
qed

lemma undisturbed:
  assumes "uses g" "det_graph g" "calm_lease latest known ok (rc_threadID cfg) g"
    and "fst (prepareRun g opts (w\<lparr>w_sess := None\<rparr>)) = cfg"
    and "calm_run latest known ok g cfg (handler_of ctx cfg)" "store_ready known ok (rc_threadID cfg) N w"
    and "Invoke g ctx input opts w = Some (out, None, w')" "rng_pos (w_rng w') \<le> N"
  shows "ends_with g (g_entry g, input) out"
  using run_left_course(1) [OF assms(2) Invoke_leaves(2) [OF assms(1,5,3,4,6,7,8)]] by simp

end

end
