(* ===== verification/DurableMemory.thy ===== *)
theory DurableMemory
  imports Engine
begin

text \<open>
  \<^verbatim>\<open>checkpoint/durable_memory.go\<close>: the in-process durable checkpointer with append
  history, parent compare-and-set, agent session references and pruning. Every operation
  runs under the store's mutex, so it is one function of the store. The maps the code ranges
  over (references, sessions) are association lists, \<open>m.threads\<close> is a partial function.
\<close>

section \<open>State\<close>

record memAgentMeta =
  am_threadID :: string
  am_agentID :: string

record memThread =
  mt_latestID :: string
  mt_revision :: int
  mt_history :: "Snapshot list"
  mt_sessions :: "(string \<times> string) list"
  mt_agentMeta :: "(string \<times> memAgentMeta) list"
  mt_refs :: "(string \<times> (string \<times> string) list) list"

type_synonym DurableMemory = "string \<Rightarrow> memThread option"

definition NewDurableMemory :: DurableMemory where
  "NewDurableMemory = Map.empty"

definition new_thread :: memThread where
  "new_thread = \<lparr>mt_latestID = '''', mt_revision = 0, mt_history = [], mt_sessions = [],
     mt_agentMeta = [], mt_refs = []\<rparr>"

definition threadLocked :: "string \<Rightarrow> DurableMemory \<Rightarrow> memThread \<times> DurableMemory" where
  "threadLocked threadID m =
     (case m threadID of
        Some t \<Rightarrow> (t, m)
      | None \<Rightarrow> (new_thread, m(threadID \<mapsto> new_thread)))"

section \<open>CommitStep\<close>

text \<open>
  The loop over the artifacts: every \<open>agent_session\<close> artifact becomes a new session blob that
  the checkpoint's reference for its agent points to.
\<close>

fun commit_artifacts ::
  "gotime \<Rightarrow> string \<Rightarrow> StepArtifact list \<Rightarrow> (string \<times> string) list \<Rightarrow> memThread \<Rightarrow> rng
   \<Rightarrow> (string \<times> string) list \<times> memThread \<times> rng" where
  "commit_artifacts now threadID [] newRefs t r = (newRefs, t, r)"
| "commit_artifacts now threadID (art # arts) newRefs t r =
     (if art_Kind art \<noteq> ArtifactAgentSession
      then commit_artifacts now threadID arts newRefs t r
      else
        (let (sid, r') = NewID now r;
             t' = t\<lparr>mt_sessions := AList.update sid (art_Payload art) (mt_sessions t),
                    mt_agentMeta := AList.update sid
                      \<lparr>am_threadID = threadID, am_agentID = art_Key art\<rparr> (mt_agentMeta t)\<rparr>
         in commit_artifacts now threadID arts (AList.update (art_Key art) sid newRefs) t' r'))"

definition parent_refs :: "memThread \<Rightarrow> string \<Rightarrow> (string \<times> string) list" where
  "parent_refs t parent =
     (if parent \<noteq> '''' then
        (case map_of (mt_refs t) parent of Some refs \<Rightarrow> refs | None \<Rightarrow> [])
      else [])"

definition commitStepLocked ::
  "gotime \<Rightarrow> Snapshot \<Rightarrow> StepArtifact list \<Rightarrow> DurableMemory \<Rightarrow> rng
   \<Rightarrow> gerror option \<times> DurableMemory \<times> rng" where
  "commitStepLocked now snap0 arts m0 r =
     (let (t, m) = threadLocked (sn_ThreadID snap0) m0
      in case List.find (\<lambda>e. sn_CheckpointID e = sn_CheckpointID snap0) (mt_history t) of
           Some existing \<Rightarrow>
             if sn_ParentCheckpointID existing = sn_ParentCheckpointID snap0
                \<and> sn_ThreadID existing = sn_ThreadID snap0
             then (None, m, r)
             else (Some (Wrapf ''%w: checkpoint %q exists with different parent''
                     [AStr (sn_CheckpointID snap0)] ErrCheckpointConflict), m, r)
         | None \<Rightarrow>
         if mt_latestID t \<noteq> sn_ParentCheckpointID snap0
         then (Some (Wrapf ''%w: want parent %q, have latest %q''
                 [AStr (sn_ParentCheckpointID snap0), AStr (mt_latestID t)] ErrCheckpointConflict), m, r)
         else
           (let rev = wrap64 (mt_revision t + 1);
                snap = snap0\<lparr>sn_Revision := rev,
                  sn_CreatedAt := (if sn_CreatedAt snap0 = 0 then now else sn_CreatedAt snap0)\<rparr>;
                (newRefs, t1, r1) = commit_artifacts now (sn_ThreadID snap) arts
                  (parent_refs t (sn_ParentCheckpointID snap)) t r;
                t2 = t1\<lparr>mt_history := mt_history t1 @ [snap],
                        mt_refs := AList.update (sn_CheckpointID snap) newRefs (mt_refs t1),
                        mt_latestID := sn_CheckpointID snap,
                        mt_revision := rev\<rparr>
            in (None, m(sn_ThreadID snap \<mapsto> t2), r1)))"

definition DM_CommitStep ::
  "gotime \<Rightarrow> Snapshot \<Rightarrow> StepArtifact list \<Rightarrow> DurableMemory \<Rightarrow> rng
   \<Rightarrow> gerror option \<times> DurableMemory \<times> rng" where
  "DM_CommitStep now snap arts m r =
     (if sn_ThreadID snap = ''''
      then (Some (Errorf ''checkpoint: CommitStep requires ThreadID'' []), m, r)
      else if sn_CheckpointID snap = ''''
      then (Some (Errorf ''checkpoint: CommitStep requires CheckpointID'' []), m, r)
      else commitStepLocked now snap arts m r)"

section \<open>Reading\<close>

definition DM_GetLatest :: "string \<Rightarrow> DurableMemory \<Rightarrow> Snapshot option" where
  "DM_GetLatest threadID m =
     (case m threadID of
        None \<Rightarrow> None
      | Some t \<Rightarrow>
          if mt_latestID t = '''' then None
          else List.find (\<lambda>s. sn_CheckpointID s = mt_latestID t) (rev (mt_history t)))"

definition DM_GetByID :: "string \<Rightarrow> string \<Rightarrow> DurableMemory \<Rightarrow> Snapshot option" where
  "DM_GetByID threadID checkpointID m =
     (case m threadID of
        None \<Rightarrow> None
      | Some t \<Rightarrow> List.find (\<lambda>s. sn_CheckpointID s = checkpointID) (mt_history t))"

definition meta_of :: "Snapshot \<Rightarrow> SnapshotMeta" where
  "meta_of s = \<lparr>sm_CheckpointID = sn_CheckpointID s, sm_ThreadID = sn_ThreadID s,
     sm_Node = sn_Node s, sm_Step = sn_Step s, sm_Revision = sn_Revision s,
     sm_Interrupt = sn_Interrupt s, sm_CreatedAt = sn_CreatedAt s\<rparr>"

text \<open>The loop of \<open>List\<close> over the history from its end, with \<open>out\<close> built up so far.\<close>

fun list_loop ::
  "int \<Rightarrow> int \<Rightarrow> Snapshot list \<Rightarrow> SnapshotMeta list \<Rightarrow> SnapshotMeta list" where
  "list_loop beforeRevision limit [] out = out"
| "list_loop beforeRevision limit (s # ss) out =
     (if beforeRevision > 0 \<and> sn_Revision s \<ge> beforeRevision
      then list_loop beforeRevision limit ss out
      else
        (let out' = out @ [meta_of s]
         in if limit > 0 \<and> int (length out') \<ge> limit then out'
            else list_loop beforeRevision limit ss out'))"

definition DM_List :: "string \<Rightarrow> int \<Rightarrow> int \<Rightarrow> DurableMemory \<Rightarrow> SnapshotMeta list" where
  "DM_List threadID beforeRevision limit m =
     (case m threadID of
        None \<Rightarrow> []
      | Some t \<Rightarrow> list_loop beforeRevision limit (rev (mt_history t)) [])"

definition DM_GetAgentSession ::
  "string \<Rightarrow> string \<Rightarrow> string \<Rightarrow> DurableMemory \<Rightarrow> string option" where
  "DM_GetAgentSession threadID checkpointID agentID m =
     (case m threadID of
        None \<Rightarrow> None
      | Some t \<Rightarrow>
          (case map_of (mt_refs t) checkpointID of
             None \<Rightarrow> None
           | Some refs \<Rightarrow>
               (case map_of refs agentID of
                  None \<Rightarrow> None
                | Some sid \<Rightarrow> map_of (mt_sessions t) sid)))"

section \<open>Deleting and pruning\<close>

definition DM_DeleteThread :: "string \<Rightarrow> DurableMemory \<Rightarrow> DurableMemory" where
  "DM_DeleteThread threadID m = m(threadID := None)"

text \<open>The session ids some remaining checkpoint refers to.\<close>

definition live_sessions :: "(string \<times> (string \<times> string) list) list \<Rightarrow> string list" where
  "live_sessions refs = concat (map (\<lambda>(c, rs). map snd rs) refs)"

text \<open>The part of \<open>Prune\<close> that drops all but the last \<open>keepLast\<close> checkpoints of a thread.\<close>

definition prune_thread :: "nat \<Rightarrow> memThread \<Rightarrow> memThread" where
  "prune_thread keepLast t =
     (let history = sort_key sn_Revision (mt_history t);
          cut = length history - keepLast;
          drop_part = take cut history;
          keep = drop cut history;
          refs = fold (\<lambda>s. AList.delete (sn_CheckpointID s)) drop_part (mt_refs t);
          live = live_sessions refs
      in t\<lparr>mt_refs := refs,
           mt_history := keep,
           mt_sessions := filter (\<lambda>(sid, p). sid \<in> set live) (mt_sessions t),
           mt_agentMeta := filter (\<lambda>(sid, p). sid \<in> set live \<or> map_of (mt_sessions t) sid = None) (mt_agentMeta t),
           mt_latestID := (if keep \<noteq> [] then sn_CheckpointID (last keep) else ''''),
           mt_revision := (if keep \<noteq> [] then sn_Revision (last keep) else 0)\<rparr>)"

definition DM_Prune :: "string \<Rightarrow> int \<Rightarrow> DurableMemory \<Rightarrow> gerror option \<times> DurableMemory" where
  "DM_Prune threadID keepLast m =
     (if keepLast < 0 then (Some (Errorf ''checkpoint: keepLast must be >= 0'' []), m)
      else (case m threadID of
              None \<Rightarrow> (None, m)
            | Some t \<Rightarrow>
                if keepLast = 0 then (None, m(threadID := None))
                else if int (length (mt_history t)) \<le> keepLast then (None, m)
                else (None, m(threadID \<mapsto> prune_thread (nat keepLast) t))))"

section \<open>The legacy interface\<close>

text \<open>
  \<open>Put\<close> reads the thread's latest id under the mutex, releases it, and then calls
  \<open>CommitStep\<close>; the two halves are one step here, as they are when no other goroutine commits
  to the thread in between.
\<close>

definition DM_Put ::
  "gotime \<Rightarrow> string \<Rightarrow> Snapshot \<Rightarrow> DurableMemory \<Rightarrow> rng
   \<Rightarrow> gerror option \<times> DurableMemory \<times> rng" where
  "DM_Put now threadID snap0 m r =
     (let snap = (if threadID \<noteq> '''' then snap0\<lparr>sn_ThreadID := threadID\<rparr> else snap0);
          (snap, r1) = (if sn_CheckpointID snap = ''''
             then (let (i, r') = NewID now r in (snap\<lparr>sn_CheckpointID := i\<rparr>, r')) else (snap, r));
          (t, m1) = threadLocked (sn_ThreadID snap) m
      in DM_CommitStep now (snap\<lparr>sn_ParentCheckpointID := mt_latestID t\<rparr>) [] m1 r1)"

section \<open>The store behind the interfaces\<close>

text \<open>
  The methods as \<open>DurableCheckpointer\<close> and \<open>Checkpointer\<close>, for a store that sits at the place
  of the world's shared state that \<open>get\<close> reads and \<open>put\<close> writes.
\<close>

definition on_store ::
  "('s \<Rightarrow> DurableMemory) \<Rightarrow> (DurableMemory \<Rightarrow> 's \<Rightarrow> 's)
   \<Rightarrow> (gotime \<Rightarrow> DurableMemory \<Rightarrow> rng \<Rightarrow> gerror option \<times> DurableMemory \<times> rng)
   \<Rightarrow> ('s, 'u) World \<Rightarrow> gerror option \<times> ('s, 'u) World" where
  "on_store get put op w =
     (let (e, m, r) = op (w_clock w) (get (w_store w)) (w_rng w)
      in (e, w\<lparr>w_store := put m (w_store w), w_rng := r\<rparr>))"

definition DurableMemory_at ::
  "('s \<Rightarrow> DurableMemory) \<Rightarrow> (DurableMemory \<Rightarrow> 's \<Rightarrow> 's) \<Rightarrow> ('s, 'u) DurableCheckpointer" where
  "DurableMemory_at get put =
     \<lparr>dc_CommitStep = (\<lambda>snap arts. on_store get put (\<lambda>now. DM_CommitStep now snap arts)),
      dc_GetLatest = (\<lambda>t w. Inr (DM_GetLatest t (get (w_store w)))),
      dc_GetByID = (\<lambda>t c w. Inr (DM_GetByID t c (get (w_store w)))),
      dc_List = (\<lambda>t b l w. Inr (DM_List t b l (get (w_store w)))),
      dc_DeleteThread = (\<lambda>t w. (None, w\<lparr>w_store := put (DM_DeleteThread t (get (w_store w))) (w_store w)\<rparr>)),
      dc_Prune = (\<lambda>t k w. (let (e, m) = DM_Prune t k (get (w_store w)) in (e, w\<lparr>w_store := put m (w_store w)\<rparr>))),
      dc_GetAgentSession = (\<lambda>t c a w. Inr (DM_GetAgentSession t c a (get (w_store w)))),
      dc_CommitStepFenced = None\<rparr>"

definition DurableMemory_legacy :: "(DurableMemory, 'u) Checkpointer" where
  "DurableMemory_legacy =
     \<lparr>cp_Put = (\<lambda>t snap. on_store (\<lambda>s. s) (\<lambda>m s. m) (\<lambda>now. DM_Put now t snap)),
      cp_Get = (\<lambda>t w. Inr (DM_GetLatest t (w_store w)))\<rparr>"

abbreviation dm_store :: "(DurableMemory, 'u) DurableCheckpointer" where
  "dm_store \<equiv> DurableMemory_at (\<lambda>s. s) (\<lambda>m s. m)"

end
