(* ===== verification/DurableFacts.thy ===== *)
theory DurableFacts
  imports DurableMemory
begin

text \<open>
  What \<open>DurableMemory\<close> guarantees: its invariant (every thread's history is a chain linked by
  parent ids with consecutive revisions, ending in the latest id, and every reference leads
  to a session), the compare-and-set of \<open>CommitStep\<close>, what the reads return after it, and what
  \<open>Prune\<close> keeps.
\<close>

section \<open>The invariant\<close>

text \<open>One snapshot follows another: it names it as its parent and has the next revision.\<close>

definition follows :: "Snapshot \<Rightarrow> Snapshot \<Rightarrow> bool" where
  "follows a b \<longleftrightarrow> sn_ParentCheckpointID b = sn_CheckpointID a \<and> sn_Revision b = sn_Revision a + 1"

definition latest_of :: "Snapshot list \<Rightarrow> string" where
  "latest_of h = (if h = [] then '''' else sn_CheckpointID (last h))"

definition revision_of :: "Snapshot list \<Rightarrow> int" where
  "revision_of h = (if h = [] then 0 else sn_Revision (last h))"

definition thread_ok :: "string \<Rightarrow> memThread \<Rightarrow> bool" where
  "thread_ok tid t \<longleftrightarrow>
     distinct (map sn_CheckpointID (mt_history t))
     \<and> (\<forall>s \<in> set (mt_history t). sn_CheckpointID s \<noteq> '''' \<and> sn_ThreadID s = tid \<and> 0 < sn_Revision s)
     \<and> successively follows (mt_history t)
     \<and> mt_latestID t = latest_of (mt_history t) \<and> mt_revision t = revision_of (mt_history t)
     \<and> fst ` set (mt_refs t) = sn_CheckpointID ` set (mt_history t)
     \<and> distinct (map fst (mt_refs t))
     \<and> (\<forall>c rs. (c, rs) \<in> set (mt_refs t) \<longrightarrow> distinct (map fst rs) \<and>
          snd ` set rs \<subseteq> fst ` set (mt_sessions t))"

definition store_ok :: "DurableMemory \<Rightarrow> bool" where
  "store_ok m \<longleftrightarrow> (\<forall>tid t. m tid = Some t \<longrightarrow> thread_ok tid t)"

lemma store_okD: "store_ok m \<Longrightarrow> m tid = Some t \<Longrightarrow> thread_ok tid t"
  by (simp add: store_ok_def)

lemma store_ok_new: "store_ok NewDurableMemory"
  by (simp add: store_ok_def NewDurableMemory_def)

lemma thread_ok_new: "thread_ok tid new_thread"
  by (simp add: thread_ok_def new_thread_def latest_of_def revision_of_def)

lemma store_ok_upd: "store_ok m \<Longrightarrow> thread_ok tid t \<Longrightarrow> store_ok (m(tid \<mapsto> t))"
  by (simp add: store_ok_def)

text \<open>A linked history has increasing revisions.\<close>

lemma follows_revisions: "successively follows h \<Longrightarrow> sorted_wrt (\<lambda>a b. sn_Revision a < sn_Revision b) h"
proof -
  assume "successively follows h"
  then have "successively (\<lambda>a b. sn_Revision a < sn_Revision b) h"
    by (rule successively_mono) (auto simp: follows_def)
  then show ?thesis by (subst (asm) successively_iff_sorted_wrt_strong) (auto intro: less_trans)
qed

text \<open>The thread as \<open>threadLocked\<close> finds or makes it.\<close>

definition thread_at :: "DurableMemory \<Rightarrow> string \<Rightarrow> memThread" where
  "thread_at m tid = (case m tid of Some t \<Rightarrow> t | None \<Rightarrow> new_thread)"

lemma threadLocked_eq: "threadLocked tid m = (thread_at m tid, m(tid \<mapsto> thread_at m tid))"
  by (auto simp: threadLocked_def thread_at_def fun_upd_idem split: option.splits)

lemma thread_at_ok: "store_ok m \<Longrightarrow> thread_ok tid (thread_at m tid)"
  by (auto simp: thread_at_def thread_ok_new dest: store_okD split: option.splits)

lemma thread_at_upd [simp]: "thread_at (m(tid \<mapsto> t)) tid' = (if tid' = tid then t else thread_at m tid')"
  by (simp add: thread_at_def)

lemma thread_at_same [simp]: "thread_at (m(tid \<mapsto> thread_at m tid)) = thread_at m"
  by (simp add: thread_at_def fun_eq_iff)

text \<open>The reads depend on the threads alone, and do not tell a missing thread from a new one.\<close>

lemma GetLatest_thread [store_simps]:
  "DM_GetLatest tid m = (let t = thread_at m tid in if mt_latestID t = '''' then None
     else List.find (\<lambda>s. sn_CheckpointID s = mt_latestID t) (rev (mt_history t)))"
  by (auto simp: DM_GetLatest_def thread_at_def new_thread_def split: option.splits)

lemma GetByID_thread [store_simps]:
  "DM_GetByID tid c m = List.find (\<lambda>s. sn_CheckpointID s = c) (mt_history (thread_at m tid))"
  by (auto simp: DM_GetByID_def thread_at_def new_thread_def split: option.splits)

lemma List_thread [store_simps]:
  "DM_List tid b l m = list_loop b l (rev (mt_history (thread_at m tid))) []"
  by (auto simp: DM_List_def thread_at_def new_thread_def split: option.splits)

definition session_of :: "memThread \<Rightarrow> string \<Rightarrow> string \<Rightarrow> string option" where
  "session_of t c a =
     Option.bind (map_of (mt_refs t) c) (\<lambda>refs. Option.bind (map_of refs a) (map_of (mt_sessions t)))"

lemma GetAgentSession_thread [store_simps]:
  "DM_GetAgentSession tid c a m = session_of (thread_at m tid) c a"
  by (auto simp: DM_GetAgentSession_def thread_at_def new_thread_def session_of_def split: option.splits)

lemma GetLatest_last [store_simps]:
  assumes "store_ok m"
  shows "DM_GetLatest tid m = (let h = mt_history (thread_at m tid) in if h = [] then None else Some (last h))"
proof -
  let ?t = "thread_at m tid"
  have "thread_ok tid ?t" using assms by (rule thread_at_ok)
  then have l: "mt_latestID ?t = latest_of (mt_history ?t)"
    and ne: "\<forall>s \<in> set (mt_history ?t). sn_CheckpointID s \<noteq> ''''"
    by (auto simp: thread_ok_def)
  then show ?thesis
    by (auto simp: GetLatest_thread Let_def latest_of_def intro!: find_rev_last)
qed

section \<open>CommitStep\<close>

text \<open>
  The loop over the artifacts changes nothing but the references, sessions and their data,
  and every reference it makes leads to a session.
\<close>

lemma commit_artifacts_induct [consumes 1, case_names Nil Other Session]:
  assumes "commit_artifacts now tid arts refs t r = (refs', t', r')"
    and "\<And>refs t r. P [] refs t r refs t r"
    and "\<And>art arts refs t r refs' t' r'. art_Kind art \<noteq> ArtifactAgentSession \<Longrightarrow>
      P arts refs t r refs' t' r' \<Longrightarrow> P (art # arts) refs t r refs' t' r'"
    and "\<And>art arts refs t r refs' t' r' sid r1. art_Kind art = ArtifactAgentSession \<Longrightarrow>
      NewID now r = (sid, r1) \<Longrightarrow>
      P arts (AList.update (art_Key art) sid refs)
        (t\<lparr>mt_sessions := AList.update sid (art_Payload art) (mt_sessions t),
           mt_agentMeta := AList.update sid \<lparr>am_threadID = tid, am_agentID = art_Key art\<rparr>
             (mt_agentMeta t)\<rparr>) r1 refs' t' r' \<Longrightarrow>
      P (art # arts) refs t r refs' t' r'"
  shows "P arts refs t r refs' t' r'"
  using assms(1)
proof (induction arts arbitrary: refs t r)
  case (Cons art arts)
  then show ?case
    using assms(3,4) by (auto simp: Let_def split: if_splits prod.splits)
qed (simp add: assms(2))

lemma commit_artifacts_frame:
  assumes "commit_artifacts now tid arts refs t r = (refs', t', r')"
  shows "mt_history t' = mt_history t \<and> mt_refs t' = mt_refs t \<and> mt_latestID t' = mt_latestID t
     \<and> mt_revision t' = mt_revision t \<and> fst ` set (mt_sessions t) \<subseteq> fst ` set (mt_sessions t')
     \<and> rng_reads r' = rng_reads r \<and> rng_pos r \<le> rng_pos r'"
  using assms
proof (induction rule: commit_artifacts_induct)
  case (Session art arts refs t r refs' t' r' sid r1)
  then have "rng_reads r1 = rng_reads r" "rng_pos r1 = Suc (rng_pos r)" by (auto simp: NewID_def)
  with Session.IH show ?case by (auto simp: dom_update)
qed simp_all

lemma snd_update: "snd ` set (AList.update k v al) \<subseteq> insert v (snd ` set al)"
  by (induction al) auto

lemma commit_artifacts_refs:
  assumes "commit_artifacts now tid arts refs t r = (refs', t', r')"
  shows "distinct (map fst refs) \<Longrightarrow> snd ` set refs \<subseteq> fst ` set (mt_sessions t) \<Longrightarrow>
     distinct (map fst refs') \<and> snd ` set refs' \<subseteq> fst ` set (mt_sessions t')"
  using assms
proof (induction rule: commit_artifacts_induct)
  case (Session art arts refs t r refs' t' r' sid r1)
  have "snd ` set (AList.update (art_Key art) sid refs)
      \<subseteq> fst ` set (AList.update sid (art_Payload art) (mt_sessions t))"
    using snd_update [of "art_Key art" sid refs] Session.prems(2) by (simp add: dom_update) blast
  with Session show ?case by (simp add: distinct_update)
qed simp_all

text \<open>The three ways a commit can go.\<close>

definition appended :: "gotime \<Rightarrow> Snapshot \<Rightarrow> memThread \<Rightarrow> Snapshot" where
  "appended now snap t = snap\<lparr>sn_Revision := wrap64 (mt_revision t + 1),
     sn_CreatedAt := (if sn_CreatedAt snap = 0 then now else sn_CreatedAt snap)\<rparr>"

lemma CommitStep_cases:
  assumes "DM_CommitStep now snap arts m r = (e, m', r')"
  obtains (invalid) x where "e = Some (Errorf x [])" "m' = m" "r' = r"
      "sn_ThreadID snap = '''' \<or> sn_CheckpointID snap = ''''"
    | (retry) s where "e = None" "r' = r"
      "s \<in> set (mt_history (thread_at m (sn_ThreadID snap)))" "sn_CheckpointID s = sn_CheckpointID snap"
      "sn_ParentCheckpointID s = sn_ParentCheckpointID snap" "sn_ThreadID s = sn_ThreadID snap"
      "m' = m(sn_ThreadID snap \<mapsto> thread_at m (sn_ThreadID snap))"
    | (conflict) x a where "e = Some (Wrapf x a ErrCheckpointConflict)" "r' = r"
      "m' = m(sn_ThreadID snap \<mapsto> thread_at m (sn_ThreadID snap))"
      "sn_ThreadID snap \<noteq> ''''" "sn_CheckpointID snap \<noteq> ''''"
      "\<not> (\<exists>s. List.find (\<lambda>e. sn_CheckpointID e = sn_CheckpointID snap)
                (mt_history (thread_at m (sn_ThreadID snap))) = Some s
            \<and> sn_ParentCheckpointID s = sn_ParentCheckpointID snap \<and> sn_ThreadID s = sn_ThreadID snap)"
      "sn_CheckpointID snap \<in> sn_CheckpointID ` set (mt_history (thread_at m (sn_ThreadID snap)))
        \<or> mt_latestID (thread_at m (sn_ThreadID snap)) \<noteq> sn_ParentCheckpointID snap"
    | (append) refs t1 where "e = None" "sn_ThreadID snap \<noteq> ''''" "sn_CheckpointID snap \<noteq> ''''"
      "sn_CheckpointID snap \<notin> sn_CheckpointID ` set (mt_history (thread_at m (sn_ThreadID snap)))"
      "mt_latestID (thread_at m (sn_ThreadID snap)) = sn_ParentCheckpointID snap"
      "commit_artifacts now (sn_ThreadID snap) arts
         (parent_refs (thread_at m (sn_ThreadID snap)) (sn_ParentCheckpointID snap))
         (thread_at m (sn_ThreadID snap)) r = (refs, t1, r')"
      "m' = m(sn_ThreadID snap \<mapsto> t1
         \<lparr>mt_history := mt_history t1 @ [appended now snap (thread_at m (sn_ThreadID snap))],
          mt_refs := AList.update (sn_CheckpointID snap) refs (mt_refs t1),
          mt_latestID := sn_CheckpointID snap,
          mt_revision := wrap64 (mt_revision (thread_at m (sn_ThreadID snap)) + 1)\<rparr>)"
proof (cases "sn_ThreadID snap = '''' \<or> sn_CheckpointID snap = ''''")
  case True
  with assms invalid show ?thesis by (auto simp: DM_CommitStep_def split: if_splits)
next
  case valid: False
  let ?t = "thread_at m (sn_ThreadID snap)"
  show ?thesis
  proof (cases "List.find (\<lambda>e. sn_CheckpointID e = sn_CheckpointID snap) (mt_history ?t)")
    case (Some s)
    then have s: "s \<in> set (mt_history ?t)" "sn_CheckpointID s = sn_CheckpointID snap"
      by (auto simp: find_Some_iff)
    from s have mem: "sn_CheckpointID snap \<in> sn_CheckpointID ` set (mt_history ?t)"
      by (metis imageI)
    let ?c = "sn_ParentCheckpointID s = sn_ParentCheckpointID snap \<and> sn_ThreadID s = sn_ThreadID snap"
    have eq: "DM_CommitStep now snap arts m r
        = (if ?c then None else Some (Wrapf ''%w: checkpoint %q exists with different parent''
             [AStr (sn_CheckpointID snap)] ErrCheckpointConflict),
           m(sn_ThreadID snap \<mapsto> ?t), r)"
      using Some valid by (simp add: DM_CommitStep_def commitStepLocked_def threadLocked_eq)
    show ?thesis
    proof (cases ?c)
      case True
      with eq assms have "e = None" "r' = r" "m' = m(sn_ThreadID snap \<mapsto> ?t)" by auto
      with True s show ?thesis by (intro retry [of s]) auto
    next
      case False
      with eq assms have e: "e = Some (Wrapf ''%w: checkpoint %q exists with different parent''
          [AStr (sn_CheckpointID snap)] ErrCheckpointConflict)"
        "r' = r" "m' = m(sn_ThreadID snap \<mapsto> ?t)" by auto
      show ?thesis
        by (rule conflict [OF e]) (use valid False Some mem in auto)
    qed
  next
    case None
    then have new: "sn_CheckpointID snap \<notin> sn_CheckpointID ` set (mt_history ?t)"
      by (auto simp: find_None_iff)
    obtain refs t1 r1 where ca: "commit_artifacts now (sn_ThreadID snap) arts
        (parent_refs ?t (sn_ParentCheckpointID snap)) ?t r = (refs, t1, r1)"
      by (rule prod_cases3)
    show ?thesis
    proof (cases "mt_latestID ?t = sn_ParentCheckpointID snap")
      case True
      then show ?thesis
        using None valid assms ca new
        by (intro append [of refs t1])
          (auto simp: DM_CommitStep_def commitStepLocked_def threadLocked_eq Let_def appended_def
            dest: sym)
    next
      case False
      then show ?thesis
        using None valid assms
        by (intro conflict) (auto simp: DM_CommitStep_def commitStepLocked_def threadLocked_eq)
    qed
  qed
qed

lemma appended_simps [simp]:
  "sn_CheckpointID (appended now snap t) = sn_CheckpointID snap"
  "sn_ParentCheckpointID (appended now snap t) = sn_ParentCheckpointID snap"
  "sn_ThreadID (appended now snap t) = sn_ThreadID snap"
  "sn_Revision (appended now snap t) = wrap64 (mt_revision t + 1)"
  "sn_Node (appended now snap t) = sn_Node snap" "sn_State (appended now snap t) = sn_State snap"
  "sn_Step (appended now snap t) = sn_Step snap" "sn_Interrupt (appended now snap t) = sn_Interrupt snap"
  "sn_InterruptValue (appended now snap t) = sn_InterruptValue snap"
  by (simp_all add: appended_def)

lemma thread_ok_revision: "thread_ok tid t \<Longrightarrow> 0 \<le> mt_revision t"
  by (auto simp: thread_ok_def revision_of_def intro: less_imp_le)

lemma thread_ok_refs:
  "thread_ok tid t \<Longrightarrow> (c, rs) \<in> set (mt_refs t) \<Longrightarrow>
     distinct (map fst rs) \<and> snd ` set rs \<subseteq> fst ` set (mt_sessions t)"
  by (simp add: thread_ok_def)

lemma parent_refs_ok:
  assumes "thread_ok tid t"
  shows "distinct (map fst (parent_refs t p)) \<and> snd ` set (parent_refs t p) \<subseteq> fst ` set (mt_sessions t)"
proof (cases "p = '''' \<or> map_of (mt_refs t) p = None")
  case True
  then have "parent_refs t p = []" by (cases "p = ''''") (simp_all add: parent_refs_def)
  then show ?thesis by simp
next
  case False
  then obtain rs where "p \<noteq> ''''" "map_of (mt_refs t) p = Some rs" by auto
  with thread_ok_refs [OF assms map_of_SomeD] show ?thesis by (simp add: parent_refs_def)
qed

lemma set_update_assoc:
  "set (AList.update k v al) \<subseteq> insert (k, v) (set al)"
  by (induction al) auto

text \<open>Appending keeps a thread in order, as long as the revision counter does not overflow.\<close>

lemma thread_ok_append:
  assumes ok: "thread_ok tid t" and "mt_revision t < max_int64"
    and "sn_ThreadID snap = tid" "sn_CheckpointID snap \<noteq> ''''"
    and new: "sn_CheckpointID snap \<notin> sn_CheckpointID ` set (mt_history t)"
    and parent: "mt_latestID t = sn_ParentCheckpointID snap"
    and ca: "commit_artifacts now tid arts (parent_refs t (sn_ParentCheckpointID snap)) t r = (refs, t1, r')"
  shows "thread_ok tid (t1\<lparr>mt_history := mt_history t1 @ [appended now snap t],
      mt_refs := AList.update (sn_CheckpointID snap) refs (mt_refs t1),
      mt_latestID := sn_CheckpointID snap, mt_revision := wrap64 (mt_revision t + 1)\<rparr>)"
    (is "thread_ok tid ?t'")
proof -
  let ?h = "mt_history t" and ?a = "appended now snap t"
  note fr = commit_artifacts_frame [OF ca]
  have rev: "wrap64 (mt_revision t + 1) = revision_of ?h + 1"
    using thread_ok_revision [OF ok] assms(2) ok by (simp add: wrap64_succ thread_ok_def)
  have refs: "distinct (map fst refs) \<and> snd ` set refs \<subseteq> fst ` set (mt_sessions t1)"
    using commit_artifacts_refs [OF ca] parent_refs_ok [OF ok] by blast
  have "follows (last ?h) ?a" if "?h \<noteq> []"
    using that parent ok rev by (simp add: follows_def thread_ok_def latest_of_def revision_of_def)
  then have "successively follows (?h @ [?a])"
    using ok by (cases "?h = []") (simp_all add: successively_append_iff thread_ok_def)
  moreover have "0 \<le> revision_of ?h" using thread_ok_revision [OF ok] ok by (simp add: thread_ok_def)
  moreover have "distinct (map fst rs) \<and> snd ` set rs \<subseteq> fst ` set (mt_sessions t1)"
    if "(c, rs) \<in> set (AList.update (sn_CheckpointID snap) refs (mt_refs t))" for c rs
  proof -
    from that have "rs = refs \<or> (c, rs) \<in> set (mt_refs t)"
      using set_update_assoc [of "sn_CheckpointID snap" refs "mt_refs t"] by auto
    then show ?thesis
    proof
      assume "(c, rs) \<in> set (mt_refs t)"
      from thread_ok_refs [OF ok this] fr show ?thesis by (meson order_trans)
    qed (use refs in simp)
  qed
  ultimately have chain: "successively follows (?h @ [?a])" and pos: "0 < revision_of ?h + 1"
    and sess: "\<forall>c rs. (c, rs) \<in> set (AList.update (sn_CheckpointID snap) refs (mt_refs t)) \<longrightarrow>
       distinct (map fst rs) \<and> snd ` set rs \<subseteq> fst ` set (mt_sessions t1)"
    by auto
  have "distinct (map sn_CheckpointID (?h @ [?a]))"
    using ok new by (simp add: thread_ok_def)
  moreover have "\<forall>s \<in> set (?h @ [?a]). sn_CheckpointID s \<noteq> '''' \<and> sn_ThreadID s = tid \<and> 0 < sn_Revision s"
    using ok assms(3,4) rev pos by (simp add: thread_ok_def)
  moreover have "fst ` set (AList.update (sn_CheckpointID snap) refs (mt_refs t))
      = sn_CheckpointID ` set (?h @ [?a])"
    using ok by (simp add: thread_ok_def dom_update)
  moreover have "distinct (map fst (AList.update (sn_CheckpointID snap) refs (mt_refs t)))"
    using ok by (simp add: thread_ok_def distinct_update)
  ultimately show ?thesis
    using chain sess fr rev by (simp add: thread_ok_def latest_of_def revision_of_def)
qed

text \<open>No commit breaks the invariant while there are revisions left.\<close>

lemma CommitStep_ok:
  assumes "store_ok m" "mt_revision (thread_at m (sn_ThreadID snap)) < max_int64"
    and "DM_CommitStep now snap arts m r = (e, m', r')"
  shows "store_ok m'"
  using assms(3)
proof (cases rule: CommitStep_cases)
  case (append refs t1)
  show ?thesis
    unfolding append(7)
    by (rule store_ok_upd [OF assms(1) thread_ok_append])
      (use append assms thread_at_ok in auto)
qed (use assms(1) in \<open>auto intro: store_ok_upd thread_at_ok\<close>)

text \<open>A commit raises no revision by more than one, and touches one thread only.\<close>

lemma CommitStep_frame:
  assumes "DM_CommitStep now snap arts m r = (e, m', r')" "tid \<noteq> sn_ThreadID snap"
  shows "m' tid = m tid"
  using assms by (cases rule: CommitStep_cases) auto

lemma CommitStep_rejected:
  assumes "DM_CommitStep now snap arts m r = (Some e, m', r')"
  shows "thread_at m' tid = thread_at m tid" "r' = r"
proof -
  from assms have "thread_at m' tid = thread_at m tid \<and> r' = r"
    by (cases rule: CommitStep_cases) (auto split: if_splits)
  then show "thread_at m' tid = thread_at m tid" "r' = r" by simp_all
qed

lemma CommitStep_revision:
  assumes "store_ok m" "mt_revision (thread_at m tid) < max_int64"
    and "DM_CommitStep now snap arts m r = (e, m', r')"
  shows "mt_revision (thread_at m' tid) \<le> mt_revision (thread_at m tid) + 1"
proof (cases "tid = sn_ThreadID snap")
  case True
  have "0 \<le> mt_revision (thread_at m tid)"
    using thread_ok_revision [OF thread_at_ok [OF assms(1)]] .
  with assms(2) True have "wrap64 (mt_revision (thread_at m (sn_ThreadID snap)) + 1)
      = mt_revision (thread_at m tid) + 1" by (simp add: wrap64_succ)
  with assms(3) show ?thesis
    using True by (cases rule: CommitStep_cases) auto
next
  case False
  then show ?thesis using CommitStep_frame [OF assms(3) False] by (simp add: thread_at_def)
qed

section \<open>Prune\<close>

lemma map_of_fold_delete:
  "map_of (fold (\<lambda>s. AList.delete (f s)) ss al) k = (if k \<in> f ` set ss then None else map_of al k)"
  by (induction ss arbitrary: al) (auto simp: delete_conv')

lemma set_fold_delete:
  "set (fold (\<lambda>s. AList.delete (f s)) ss al) = {(k, v) \<in> set al. k \<notin> f ` set ss}"
  by (induction ss arbitrary: al) (auto simp: AList.delete_eq)

lemma distinct_fold_delete:
  "distinct (map fst al) \<Longrightarrow> distinct (map fst (fold (\<lambda>s. AList.delete (f s)) ss al))"
  by (induction ss arbitrary: al) (auto simp: AList.distinct_delete)

lemma set_live_sessions: "set (live_sessions refs) = (\<Union>(c, rs) \<in> set refs. snd ` set rs)"
  by (induction refs) (auto simp: live_sessions_def)

lemma sorted_history:
  assumes "thread_ok tid t"
  shows "sort_key sn_Revision (mt_history t) = mt_history t"
proof (rule sort_key_id_if_sorted)
  have "sorted_wrt (\<lambda>a b. sn_Revision a < sn_Revision b) (mt_history t)"
    using assms follows_revisions by (simp add: thread_ok_def)
  then show "sorted (map sn_Revision (mt_history t))"
    by (simp add: sorted_map) (rule sorted_wrt_mono_rel, auto)
qed

text \<open>What pruning leaves of a thread that is in order.\<close>

lemma prune_thread_frame:
  assumes ok: "thread_ok tid t" and k: "0 < k" "k < length (mt_history t)"
  defines "h \<equiv> drop (length (mt_history t) - k) (mt_history t)"
  shows "mt_history (prune_thread k t) = h" "mt_latestID (prune_thread k t) = mt_latestID t"
    "mt_revision (prune_thread k t) = mt_revision t"
    "map_of (mt_refs (prune_thread k t)) c
       = (if c \<in> sn_CheckpointID ` set h then map_of (mt_refs t) c else None)"
    "set (mt_refs (prune_thread k t)) = {(c, rs) \<in> set (mt_refs t). c \<in> sn_CheckpointID ` set h}"
    "mt_sessions (prune_thread k t) = filter (\<lambda>(sid, p). \<exists>c rs. (c, rs) \<in> set (mt_refs t)
       \<and> c \<in> sn_CheckpointID ` set h \<and> sid \<in> snd ` set rs) (mt_sessions t)"
proof -
  let ?n = "length (mt_history t) - k" and ?H = "mt_history t"
  have split: "?H = take ?n ?H @ h" by (simp add: h_def)
  have ne: "h \<noteq> []" using k by (simp add: h_def)
  have lst: "last h = last ?H" using ne split by (metis last_appendR)
  have "distinct (map sn_CheckpointID (take ?n ?H @ h))"
    using ok split by (simp add: thread_ok_def)
  then have dj: "sn_CheckpointID ` set (take ?n ?H) \<inter> sn_CheckpointID ` set h = {}" by auto
  have "sn_CheckpointID ` set ?H = sn_CheckpointID ` set (take ?n ?H) \<union> sn_CheckpointID ` set h"
    using split by (metis image_Un set_append)
  with ok have dom: "fst ` set (mt_refs t) = sn_CheckpointID ` set (take ?n ?H) \<union> sn_CheckpointID ` set h"
    by (simp add: thread_ok_def)
  show hist: "mt_history (prune_thread k t) = h"
    by (simp add: prune_thread_def Let_def sorted_history [OF ok] h_def)
  show "mt_latestID (prune_thread k t) = mt_latestID t" "mt_revision (prune_thread k t) = mt_revision t"
    using ok ne lst h_def
    by (auto simp: prune_thread_def Let_def sorted_history [OF ok] thread_ok_def latest_of_def
        revision_of_def)
  have refs: "mt_refs (prune_thread k t)
      = fold (\<lambda>s. AList.delete (sn_CheckpointID s)) (take ?n ?H) (mt_refs t)"
    by (simp add: prune_thread_def Let_def sorted_history [OF ok])
  have kept: "c \<notin> sn_CheckpointID ` set (take ?n ?H) \<longleftrightarrow> c \<in> sn_CheckpointID ` set h"
    if "c \<in> fst ` set (mt_refs t)" for c
    using that dom dj by blast
  show "map_of (mt_refs (prune_thread k t)) c
       = (if c \<in> sn_CheckpointID ` set h then map_of (mt_refs t) c else None)"
    using kept [of c] dj by (auto simp: refs map_of_fold_delete map_of_eq_None_iff)
  define A B where "A = sn_CheckpointID ` set (take ?n ?H)" and "B = sn_CheckpointID ` set h"
  have "(c \<notin> A) = (c \<in> B)" if "(c, rs) \<in> set (mt_refs t)" for c rs
    using kept [of c] that unfolding A_def B_def by (metis fst_conv imageI)
  then have "{(c, rs) \<in> set (mt_refs t). c \<notin> A} = {(c, rs) \<in> set (mt_refs t). c \<in> B}" by auto
  then show sr: "set (mt_refs (prune_thread k t))
      = {(c, rs) \<in> set (mt_refs t). c \<in> sn_CheckpointID ` set h}"
    by (simp add: refs set_fold_delete A_def B_def)
  have "mt_sessions (prune_thread k t)
      = filter (\<lambda>(sid, p). sid \<in> set (live_sessions (mt_refs (prune_thread k t)))) (mt_sessions t)"
    unfolding refs by (simp add: prune_thread_def Let_def sorted_history [OF ok])
  then show "mt_sessions (prune_thread k t) = filter (\<lambda>(sid, p). \<exists>c rs. (c, rs) \<in> set (mt_refs t)
       \<and> c \<in> sn_CheckpointID ` set h \<and> sid \<in> snd ` set rs) (mt_sessions t)"
    by (simp add: set_live_sessions sr)
qed

lemma successively_drop: "successively P xs \<Longrightarrow> successively P (drop n xs)"
proof -
  assume "successively P xs"
  then have "successively P (take n xs @ drop n xs)" by simp
  then show ?thesis by (simp only: successively_append_iff)
qed

lemma prune_refs_distinct:
  "thread_ok tid t \<Longrightarrow> distinct (map fst (mt_refs (prune_thread k t)))"
  by (simp add: prune_thread_def Let_def thread_ok_def distinct_fold_delete)

lemma prune_thread_ok:
  assumes ok: "thread_ok tid t" and k: "0 < k" "k < length (mt_history t)"
  shows "thread_ok tid (prune_thread k t)"
proof -
  let ?h = "drop (length (mt_history t) - k) (mt_history t)"
  note f = prune_thread_frame [OF ok k]
  have ne: "?h \<noteq> []" using k by simp
  have sub: "set ?h \<subseteq> set (mt_history t)" by (rule set_drop_subset)
  have split: "mt_history t = take (length (mt_history t) - k) (mt_history t) @ ?h" by simp
  then have lst: "last ?h = last (mt_history t)" using ne by (metis last_appendR)
  have H: "mt_history t \<noteq> []" using k by auto
  have "distinct (map sn_CheckpointID ?h)" "successively follows ?h"
    using ok by (simp_all add: thread_ok_def successively_drop flip: drop_map)
  moreover have "\<forall>s \<in> set ?h. sn_CheckpointID s \<noteq> '''' \<and> sn_ThreadID s = tid \<and> 0 < sn_Revision s"
    using ok sub by (auto simp: thread_ok_def)
  moreover have "mt_latestID t = latest_of ?h" "mt_revision t = revision_of ?h"
    using ok ne lst H by (simp_all add: thread_ok_def latest_of_def revision_of_def)
  moreover have "fst ` {(c, rs) \<in> set (mt_refs t). c \<in> sn_CheckpointID ` set ?h}
      = sn_CheckpointID ` set ?h"
  proof -
    have "sn_CheckpointID ` set ?h \<subseteq> fst ` set (mt_refs t)"
      using ok sub by (simp add: thread_ok_def image_mono)
    then show ?thesis by force
  qed
  moreover have "distinct (map fst rs) \<and> snd ` set rs \<subseteq> fst ` set (filter (\<lambda>(sid, p). \<exists>c rs.
      (c, rs) \<in> set (mt_refs t) \<and> c \<in> sn_CheckpointID ` set ?h \<and> sid \<in> snd ` set rs) (mt_sessions t))"
    if c: "(c, rs) \<in> set (mt_refs t)" "c \<in> sn_CheckpointID ` set ?h" for c rs
  proof -
    from thread_ok_refs [OF ok c(1)] have "snd ` set rs \<subseteq> fst ` set (mt_sessions t)"
      and d: "distinct (map fst rs)" by simp_all
    show ?thesis
    proof (intro conjI d subsetI)
      fix sid assume sid: "sid \<in> snd ` set rs"
      with \<open>snd ` set rs \<subseteq> _\<close> obtain p where "(sid, p) \<in> set (mt_sessions t)" by force
      with c sid show "sid \<in> fst ` set (filter (\<lambda>(sid, p). \<exists>c rs. (c, rs) \<in> set (mt_refs t)
          \<and> c \<in> sn_CheckpointID ` set ?h \<and> sid \<in> snd ` set rs) (mt_sessions t))"
        by (intro image_eqI [where x = "(sid, p)"]) (simp, simp, blast)
    qed
  qed
  ultimately show ?thesis
    using prune_refs_distinct [OF ok, of k] by (simp add: thread_ok_def f) blast
qed

lemma Prune_ok:
  assumes "store_ok m" "DM_Prune tid k m = (e, m')"
  shows "store_ok m'"
proof -
  consider "m' = m" | "m' = m(tid := None)"
    | t where "m tid = Some t" "0 < nat k" "nat k < length (mt_history t)"
        "m' = m(tid \<mapsto> prune_thread (nat k) t)"
    using assms(2) by (fastforce simp: DM_Prune_def split: if_splits option.splits)
  then show ?thesis
  proof cases
    case 3
    then show ?thesis
      using prune_thread_ok [OF store_okD [OF assms(1)]] assms(1) by (simp add: store_ok_upd)
  qed (use assms in \<open>auto simp: store_ok_def\<close>)
qed

lemma Prune_revision:
  assumes "store_ok m" "DM_Prune tid k m = (e, m')"
  shows "mt_revision (thread_at m' tid') \<le> mt_revision (thread_at m tid')"
proof -
  consider "m' = m" | "m' = m(tid := None)"
    | t where "m tid = Some t" "0 < nat k" "nat k < length (mt_history t)"
        "m' = m(tid \<mapsto> prune_thread (nat k) t)"
    using assms(2) by (fastforce simp: DM_Prune_def split: if_splits option.splits)
  then show ?thesis
  proof cases
    case 2
    have "0 \<le> mt_revision (thread_at m tid')"
      using thread_ok_revision [OF thread_at_ok [OF assms(1)]] .
    then show ?thesis by (cases "tid' = tid") (simp_all add: 2 thread_at_def new_thread_def)
  next
    case 3
    then show ?thesis
      using prune_thread_frame(3) [OF store_okD [OF assms(1)]] by (simp add: thread_at_def)
  qed simp
qed

end
