(* ===== verification/DurableProps.thy ===== *)
theory DurableProps
  imports DurableFacts RunStore
begin

text \<open>
  The properties of \<open>DurableMemory\<close>: what every commit does, that no sequence of operations
  breaks the invariant, that retries and racing writers are safe, that stored checkpoints and
  their agent sessions never change, and what pruning and listing give.
\<close>

section \<open>Views of the store\<close>

text \<open>Two stores that no read tells apart.\<close>

definition same_view :: "DurableMemory \<Rightarrow> DurableMemory \<Rightarrow> bool" where
  "same_view m m' \<longleftrightarrow>
     (\<forall>tid c a b l. DM_GetLatest tid m' = DM_GetLatest tid m \<and> DM_GetByID tid c m' = DM_GetByID tid c m
        \<and> DM_List tid b l m' = DM_List tid b l m
        \<and> DM_GetAgentSession tid c a m' = DM_GetAgentSession tid c a m)"

lemma same_viewI: "(\<And>tid. thread_at m' tid = thread_at m tid) \<Longrightarrow> same_view m m'"
  by (simp add: same_view_def GetLatest_thread GetByID_thread List_thread GetAgentSession_thread)

lemma reads_new [simp]:
  "DM_GetLatest tid NewDurableMemory = None" "DM_GetByID tid c NewDurableMemory = None"
  by (simp_all add: DM_GetLatest_def DM_GetByID_def NewDurableMemory_def)

lemma thread_at_new: "thread_at NewDurableMemory tid = new_thread"
  by (simp add: thread_at_def NewDurableMemory_def)

text \<open>The id a commit has to name as its parent.\<close>

definition head_id :: "DurableMemory \<Rightarrow> string \<Rightarrow> string" where
  "head_id m tid = (case DM_GetLatest tid m of None \<Rightarrow> '''' | Some s \<Rightarrow> sn_CheckpointID s)"

definition head_revision :: "DurableMemory \<Rightarrow> string \<Rightarrow> int" where
  "head_revision m tid = (case DM_GetLatest tid m of None \<Rightarrow> 0 | Some s \<Rightarrow> sn_Revision s)"

lemma head_id_thread: "store_ok m \<Longrightarrow> head_id m tid = mt_latestID (thread_at m tid)"
  using thread_at_ok [of m tid]
  by (auto simp: head_id_def GetLatest_last Let_def thread_ok_def latest_of_def)

lemma head_revision_thread: "store_ok m \<Longrightarrow> head_revision m tid = mt_revision (thread_at m tid)"
  using thread_at_ok [of m tid]
  by (auto simp: head_revision_def GetLatest_last Let_def thread_ok_def revision_of_def)

text \<open>The snapshot as the store keeps it.\<close>

definition stored :: "gotime \<Rightarrow> int \<Rightarrow> Snapshot \<Rightarrow> Snapshot" where
  "stored now n snap = snap\<lparr>sn_Revision := n,
     sn_CreatedAt := (if sn_CreatedAt snap = 0 then now else sn_CreatedAt snap)\<rparr>"

lemma CommitStep_conflict_cases:
  assumes "store_ok m" "sn_ThreadID snap \<noteq> ''''" "sn_CheckpointID snap \<noteq> ''''"
    and "DM_GetByID (sn_ThreadID snap) (sn_CheckpointID snap) m = Some s"
    and "DM_CommitStep now snap arts m r = (e, m', r')"
  shows "same_view m m' \<and> (e = None \<longleftrightarrow> sn_ParentCheckpointID s = sn_ParentCheckpointID snap)
    \<and> (\<forall>x. e = Some x \<longrightarrow> errors_is x ErrCheckpointConflict)"
  using assms(5)
proof (cases rule: CommitStep_cases)
  case (retry s')
  let ?h = "mt_history (thread_at m (sn_ThreadID snap))"
  have "distinct (map sn_CheckpointID ?h)"
    using thread_at_ok [OF assms(1)] by (simp add: thread_ok_def)
  then have "List.find (\<lambda>y. sn_CheckpointID y = sn_CheckpointID s') ?h = Some s'"
    using retry(3) by (rule find_distinct)
  then have "s = s'" using assms(4) retry(4) by (simp add: GetByID_thread)
  with retry show ?thesis by (auto intro: same_viewI)
next
  case (conflict x a)
  let ?h = "mt_history (thread_at m (sn_ThreadID snap))"
  from assms(4) have f: "List.find (\<lambda>y. sn_CheckpointID y = sn_CheckpointID snap) ?h = Some s"
    by (simp add: GetByID_thread)
  then have "sn_ThreadID s = sn_ThreadID snap"
    using thread_at_ok [OF assms(1), of "sn_ThreadID snap"] by (auto simp: thread_ok_def find_Some_iff)
  with conflict f show ?thesis by (auto intro: same_viewI)
next
  case append
  from assms(4) have "sn_CheckpointID snap \<in> sn_CheckpointID ` set (mt_history (thread_at m (sn_ThreadID snap)))"
    unfolding GetByID_thread by (metis (mono_tags, lifting) find_SomeD imageI)
  with append(4) show ?thesis by simp
qed (use assms in auto)

text \<open>
  C7: \<open>CommitStep\<close> is a compare-and-set on the thread's head. For a checkpoint id the thread
  does not have, it succeeds exactly when the named parent is the head, and then the
  snapshot, with the next revision and its creation time filled in, is the new head;
  otherwise it reports a conflict and no read changes. For an id the thread has, it succeeds
  exactly when the parent is the recorded one, reports a conflict otherwise, and changes no
  read either way.
\<close>

theorem CommitStep_compare_and_set:
  assumes "store_ok m" "sn_ThreadID snap = tid" "tid \<noteq> ''''" "sn_CheckpointID snap \<noteq> ''''"
    and "DM_CommitStep now snap arts m r = (e, m', r')"
  shows "case DM_GetByID tid (sn_CheckpointID snap) m of
      None \<Rightarrow>
        (if sn_ParentCheckpointID snap = head_id m tid
         then e = None
           \<and> DM_GetLatest tid m' = Some (stored now (wrap64 (head_revision m tid + 1)) snap)
           \<and> DM_GetByID tid (sn_CheckpointID snap) m' = DM_GetLatest tid m'
         else (\<exists>x. e = Some x \<and> errors_is x ErrCheckpointConflict) \<and> same_view m m')
    | Some s \<Rightarrow> same_view m m' \<and>
        (if sn_ParentCheckpointID s = sn_ParentCheckpointID snap then e = None
         else \<exists>x. e = Some x \<and> errors_is x ErrCheckpointConflict)"
proof (cases "DM_GetByID tid (sn_CheckpointID snap) m")
  case (Some s)
  with CommitStep_conflict_cases [OF assms(1) _ assms(4) _ assms(5)] assms(2,3) show ?thesis by auto
next
  case None
  let ?t = "thread_at m tid"
  have new: "sn_CheckpointID snap \<notin> sn_CheckpointID ` set (mt_history ?t)"
    using None by (auto simp: GetByID_thread find_None_iff)
  from assms(5) show ?thesis
  proof (cases rule: CommitStep_cases)
    case (append refs t1)
    note fr = commit_artifacts_frame [OF append(6)]
    have a: "appended now snap ?t = stored now (wrap64 (head_revision m tid + 1)) snap"
      by (simp add: appended_def stored_def head_revision_thread [OF assms(1)])
    have h: "mt_history (thread_at m' tid) = mt_history ?t @ [appended now snap ?t]"
      "mt_latestID (thread_at m' tid) = sn_CheckpointID snap"
      using fr assms(2) by (simp_all add: append(7))
    have "DM_GetByID tid (sn_CheckpointID snap) m' = Some (appended now snap ?t)"
      using None h by (simp add: GetByID_thread find_append)
    moreover have "DM_GetLatest tid m' = Some (appended now snap ?t)"
      using h assms(4) by (simp add: GetLatest_thread Let_def)
    ultimately show ?thesis
      using None append(1,5) assms(2) by (simp add: head_id_thread [OF assms(1)] a)
  next
    case retry
    with None assms(2) show ?thesis by (auto simp: GetByID_thread find_None_iff)
  next
    case conflict
    with None new assms(2) show ?thesis
      by (auto simp: head_id_thread [OF assms(1)] intro: same_viewI)
  qed (use assms in auto)
qed

theorem CommitStep_compare_and_set_witness:
  fixes snap :: Snapshot
  defines "snap \<equiv> new_snapshot sample_config ''c1'' '''' 7 ''a'' Map.empty 1 None"
  shows "fst (DM_CommitStep 9 snap [] NewDurableMemory sample_rng) = None
    \<and> DM_GetLatest ''default'' (fst (snd (DM_CommitStep 9 snap [] NewDurableMemory sample_rng)))
      = Some (stored 9 1 snap)"
proof -
  obtain e m' r' where c: "DM_CommitStep 9 snap [] NewDurableMemory sample_rng = (e, m', r')"
    by (rule prod_cases3)
  have s: "sn_ThreadID snap = ''default''" "sn_CheckpointID snap \<noteq> ''''" "sn_CreatedAt snap = 7"
    "sn_ParentCheckpointID snap = ''''"
    by (simp_all add: snap_def new_snapshot_def sample_config_def)
  from CommitStep_compare_and_set [OF store_ok_new s(1) _ s(2) c] show ?thesis
    using s by (simp add: c head_id_def head_revision_def wrap64_def)
qed

section \<open>Sequences of operations\<close>

text \<open>The operations that change the store, as a client calls them.\<close>

datatype dm_op =
    OpCommit gotime Snapshot "StepArtifact list"
  | OpPut gotime string Snapshot
  | OpPrune string int
  | OpDelete string

fun dm_exec :: "dm_op \<Rightarrow> DurableMemory \<times> rng \<Rightarrow> gerror option \<times> DurableMemory \<times> rng" where
  "dm_exec (OpCommit now snap arts) (m, r) = DM_CommitStep now snap arts m r"
| "dm_exec (OpPut now tid snap) (m, r) = DM_Put now tid snap m r"
| "dm_exec (OpPrune tid k) (m, r) = (let (e, m') = DM_Prune tid k m in (e, m', r))"
| "dm_exec (OpDelete tid) (m, r) = (None, DM_DeleteThread tid m, r)"

fun dm_run :: "dm_op list \<Rightarrow> DurableMemory \<times> rng \<Rightarrow> DurableMemory \<times> rng" where
  "dm_run [] s = s"
| "dm_run (x # xs) s = dm_run xs (snd (dm_exec x s))"

text \<open>\<open>Put\<close> is a commit onto the current head, of a snapshot it completes.\<close>

lemma NewID_mono: "NewID now r = (i, r') \<Longrightarrow> rng_reads r' = rng_reads r \<and> rng_pos r \<le> rng_pos r'"
  by (auto simp: NewID_def)

lemma Put_commit:
  assumes "DM_Put now tid snap0 m r = (e, m', r')"
  obtains snap m1 r1 where "DM_CommitStep now snap [] m1 r1 = (e, m', r')"
    "thread_at m1 = thread_at m" "rng_reads r1 = rng_reads r" "rng_pos r \<le> rng_pos r1"
proof -
  define s0 where "s0 = (if tid \<noteq> '''' then snap0\<lparr>sn_ThreadID := tid\<rparr> else snap0)"
  obtain i r2 where n: "NewID now r = (i, r2)" by (cases "NewID now r")
  define s1 where "s1 = (if sn_CheckpointID s0 = '''' then s0\<lparr>sn_CheckpointID := i\<rparr> else s0)"
  define r1 where "r1 = (if sn_CheckpointID s0 = '''' then r2 else r)"
  let ?m1 = "m(sn_ThreadID s1 \<mapsto> thread_at m (sn_ThreadID s1))"
  let ?snap = "s1\<lparr>sn_ParentCheckpointID := mt_latestID (thread_at m (sn_ThreadID s1))\<rparr>"
  have "(if sn_CheckpointID s0 = '''' then (let (i, r') = NewID now r in (s0\<lparr>sn_CheckpointID := i\<rparr>, r'))
      else (s0, r)) = (s1, r1)"
    using n by (simp add: s1_def r1_def)
  with assms have a: "DM_CommitStep now ?snap [] ?m1 r1 = (e, m', r')"
    by (simp add: DM_Put_def threadLocked_eq flip: s0_def)
  show ?thesis
    by (rule that [OF a]) (use NewID_mono [OF n] in \<open>auto simp: r1_def fun_eq_iff\<close>)
qed

lemma store_ok_threads: "thread_at m1 = thread_at m \<Longrightarrow> store_ok m \<Longrightarrow> store_ok m1"
  unfolding store_ok_def by (metis option.simps(5) store_ok_def thread_at_def thread_at_ok)

lemma dm_exec_ok:
  assumes "store_ok m" "\<And>tid. mt_revision (thread_at m tid) < max_int64"
    and "dm_exec x (m, r) = (e, m', r')"
  shows "store_ok m'" "mt_revision (thread_at m' tid) \<le> mt_revision (thread_at m tid) + 1"
proof -
  have "store_ok m' \<and> mt_revision (thread_at m' tid) \<le> mt_revision (thread_at m tid) + 1"
  proof (cases x)
    case (OpCommit now snap arts)
    with assms show ?thesis using CommitStep_ok CommitStep_revision by simp
  next
    case (OpPut now t snap0)
    then have "DM_Put now t snap0 m r = (e, m', r')" using assms(3) by simp
    then obtain snap m1 r1 where c: "DM_CommitStep now snap [] m1 r1 = (e, m', r')"
      and th: "thread_at m1 = thread_at m"
      by (rule Put_commit)
    have "store_ok m1" using th assms(1) by (rule store_ok_threads)
    with assms(2) th CommitStep_ok [OF _ _ c] CommitStep_revision [OF _ _ c] show ?thesis by simp
  next
    case (OpPrune t k)
    with assms(3) have p: "DM_Prune t k m = (e, m')" by (auto split: prod.splits)
    from Prune_ok [OF assms(1) p] Prune_revision [OF assms(1) p, of tid] show ?thesis by simp
  next
    case (OpDelete t)
    with assms(1,3) have "m' = m(t := None)" by (auto simp: DM_DeleteThread_def)
    moreover have "0 \<le> mt_revision (thread_at m tid)"
      using thread_ok_revision [OF thread_at_ok [OF assms(1)]] .
    ultimately show ?thesis
      using assms(1) by (cases "tid = t") (auto simp: store_ok_def thread_at_def new_thread_def)
  qed
  then show "store_ok m'" "mt_revision (thread_at m' tid) \<le> mt_revision (thread_at m tid) + 1" by simp_all
qed

lemma dm_run_ok:
  assumes "store_ok m" "\<And>tid. mt_revision (thread_at m tid) \<le> n" "n + int (length xs) \<le> max_int64"
  shows "store_ok (fst (dm_run xs (m, r)))"
  using assms
proof (induction xs arbitrary: m r n)
  case (Cons x xs)
  obtain e m' r' where x: "dm_exec x (m, r) = (e, m', r')" by (rule prod_cases3)
  have lt: "mt_revision (thread_at m tid) < max_int64" for tid
    using Cons.prems(2) [of tid] Cons.prems(3) by simp
  have "mt_revision (thread_at m' tid) \<le> n + 1" for tid
    using dm_exec_ok(2) [OF Cons.prems(1) lt x, of tid] Cons.prems(2) [of tid] by linarith
  with dm_exec_ok(1) [OF Cons.prems(1) lt x] Cons.prems(3) show ?case
    using Cons.IH [of m' "n + 1" r'] by (simp add: x)
qed simp

text \<open>
  C8: every store that fewer than \<open>2^63\<close> operations make of the empty one is in order: in each
  thread the checkpoint ids are distinct and not empty, the history is one chain in which
  every snapshot names the one before it as its parent and has the next revision, its last
  snapshot is the head, exactly the checkpoints of the history have agent references, and
  every reference leads to a session the store still holds.
\<close>

theorem DurableMemory_invariant:
  assumes "int (length ops) \<le> max_int64"
  shows "store_ok (fst (dm_run ops (NewDurableMemory, r)))"
  by (rule dm_run_ok [where n = 0])
    (use assms in \<open>simp_all add: store_ok_new thread_at_new new_thread_def\<close>)

theorem DurableMemory_invariant_witness:
  "store_ok (fst (dm_run [OpPut 5 ''t'' (new_snapshot sample_config '''' '''' 0 ''a'' Map.empty 1 None),
      OpPut 6 ''t'' (new_snapshot sample_config '''' '''' 0 ''b'' Map.empty 2 None),
      OpPrune ''t'' 1] (NewDurableMemory, sample_rng)))"
  by (rule DurableMemory_invariant) (simp add: max_int64_def)

section \<open>Agent sessions\<close>

lemma NewID_fresh:
  assumes "NewID now r = (sid, r1)" "fresh_reads N r" "rng_pos r < N"
  shows "sid \<notin> drawn_ids r" "drawn_ids r1 = insert sid (drawn_ids r)" "fresh_reads N r1"
    "rng_pos r1 = Suc (rng_pos r)" "rng_reads r1 = rng_reads r"
proof -
  obtain b where b: "rng_reads r (rng_pos r) = Some b"
    using assms(2,3) by (metis fresh_reads_def)
  with assms(1) have sid: "sid = drawn_id r (rng_pos r)" and r1: "r1 = r\<lparr>rng_pos := Suc (rng_pos r)\<rparr>"
    by (auto simp: NewID_def drawn_id_def)
  then show "rng_pos r1 = Suc (rng_pos r)" "rng_reads r1 = rng_reads r" by simp_all
  then show "fresh_reads N r1" using assms(2) fresh_reads_cong by metis
  have "drawn_id r1 = drawn_id r" by (simp add: r1 drawn_id_def fun_eq_iff)
  then show "drawn_ids r1 = insert sid (drawn_ids r)"
    by (simp add: drawn_ids_def r1 sid lessThan_Suc)
  show "sid \<notin> drawn_ids r"
  proof
    assume "sid \<in> drawn_ids r"
    then obtain j where "j < rng_pos r" "sid = drawn_id r j" by (auto simp: drawn_ids_def)
    with sid drawn_id_inject [OF assms(2,3), of j] assms(3) show False by simp
  qed
qed

text \<open>The last session artifact of a step for an agent.\<close>

definition last_session :: "StepArtifact list \<Rightarrow> string \<Rightarrow> StepArtifact option" where
  "last_session arts a =
     List.find (\<lambda>art. art_Kind art = ArtifactAgentSession \<and> art_Key art = a) (rev arts)"

lemma last_session_Cons:
  "last_session (art # arts) a = (case last_session arts a of Some x \<Rightarrow> Some x
     | None \<Rightarrow> if art_Kind art = ArtifactAgentSession \<and> art_Key art = a then Some art else None)"
  by (auto simp: last_session_def find_append split: option.splits)

definition session_at :: "(string \<times> string) list \<Rightarrow> (string \<times> string) list \<Rightarrow> string \<Rightarrow> string option" where
  "session_at refs sessions a = Option.bind (map_of refs a) (map_of sessions)"

lemma commit_artifacts_sessions:
  assumes "commit_artifacts now tid arts refs t r = (refs', t', r')"
  shows "rng_pos r \<le> rng_pos r' \<and>
    (fresh_reads N r \<longrightarrow> rng_pos r' \<le> N \<longrightarrow> fst ` set (mt_sessions t) \<subseteq> drawn_ids r \<longrightarrow>
       snd ` set refs \<subseteq> drawn_ids r \<longrightarrow>
       fst ` set (mt_sessions t') \<subseteq> drawn_ids r' \<and> fresh_reads N r'
       \<and> (\<forall>sid \<in> drawn_ids r. map_of (mt_sessions t') sid = map_of (mt_sessions t) sid)
       \<and> session_at refs' (mt_sessions t') a = (case last_session arts a of
           Some art \<Rightarrow> Some (art_Payload art) | None \<Rightarrow> session_at refs (mt_sessions t) a))"
  using assms
proof (induction rule: commit_artifacts_induct)
  case (Nil refs t r)
  show ?case by (simp add: last_session_def)
next
  case (Other art arts refs t r refs' t' r')
  then show ?case by (simp add: last_session_Cons split: option.splits)
next
  case (Session art arts refs t r refs' t' r' sid r1)
  let ?refs1 = "AList.update (art_Key art) sid refs"
  let ?s1 = "AList.update sid (art_Payload art) (mt_sessions t)"
  have "rng_pos r1 = Suc (rng_pos r)" using Session(2) by (auto simp: NewID_def)
  with Session.IH have pos: "Suc (rng_pos r) \<le> rng_pos r'" by simp
  have "fst ` set (mt_sessions t') \<subseteq> drawn_ids r' \<and> fresh_reads N r'
       \<and> (\<forall>sid \<in> drawn_ids r. map_of (mt_sessions t') sid = map_of (mt_sessions t) sid)
       \<and> session_at refs' (mt_sessions t') a = (case last_session (art # arts) a of
           Some art \<Rightarrow> Some (art_Payload art) | None \<Rightarrow> session_at refs (mt_sessions t) a)"
    if fresh: "fresh_reads N r" and le: "rng_pos r' \<le> N"
      and s: "fst ` set (mt_sessions t) \<subseteq> drawn_ids r" and rf: "snd ` set refs \<subseteq> drawn_ids r"
  proof -
    note n = NewID_fresh [OF Session(2) fresh] 
    have lt: "rng_pos r < N" using pos le by simp
    have "snd ` set ?refs1 \<subseteq> drawn_ids r1"
      using snd_update [of "art_Key art" sid refs] rf n(2) [OF lt] by blast
    moreover have "fst ` set ?s1 \<subseteq> drawn_ids r1"
      using s n(2) [OF lt] by (auto simp: dom_update)
    ultimately have ih: "fst ` set (mt_sessions t') \<subseteq> drawn_ids r'" "fresh_reads N r'"
      "\<forall>x \<in> drawn_ids r1. map_of (mt_sessions t') x = map_of ?s1 x"
      "session_at refs' (mt_sessions t') a = (case last_session arts a of
           Some art \<Rightarrow> Some (art_Payload art) | None \<Rightarrow> session_at ?refs1 ?s1 a)"
      using Session.IH n(3) [OF lt] le by (simp_all cong: option.case_cong)
    have keep: "map_of ?s1 x = map_of (mt_sessions t) x" if "x \<in> drawn_ids r" for x
      using that n(1) [OF lt] by (auto simp: update_conv')
    have "session_at ?refs1 ?s1 a = (if art_Key art = a then Some (art_Payload art)
        else session_at refs (mt_sessions t) a)"
    proof (cases "map_of refs a")
      case (Some x)
      then have "x \<in> drawn_ids r" using rf by (force dest: map_of_SomeD)
      with Some keep show ?thesis by (simp add: session_at_def update_conv')
    qed (simp add: session_at_def update_conv')
    with ih n(2) [OF lt] keep Session(1) show ?thesis
      by (auto simp: last_session_Cons split: option.splits)
  qed
  with pos show ?case by simp
qed

text \<open>Every session id of the store was drawn from the random source.\<close>

definition sessions_drawn :: "DurableMemory \<Rightarrow> rng \<Rightarrow> bool" where
  "sessions_drawn m r \<longleftrightarrow> (\<forall>tid. fst ` set (mt_sessions (thread_at m tid)) \<subseteq> drawn_ids r)"

lemma session_of_eq:
  "session_of t c a = Option.bind (map_of (mt_refs t) c) (\<lambda>refs. session_at refs (mt_sessions t) a)"
  by (simp add: session_of_def session_at_def)

lemma thread_refs_drawn:
  assumes "store_ok m" "sessions_drawn m r" "map_of (mt_refs (thread_at m tid)) c = Some rs"
  shows "snd ` set rs \<subseteq> drawn_ids r"
proof -
  have "snd ` set rs \<subseteq> fst ` set (mt_sessions (thread_at m tid))"
    using thread_ok_refs [OF thread_at_ok [OF assms(1)] map_of_SomeD [OF assms(3)]] by simp
  also have "\<dots> \<subseteq> drawn_ids r" using assms(2) by (simp add: sessions_drawn_def)
  finally show ?thesis .
qed

lemma session_at_cong:
  assumes "\<And>sid. sid \<in> snd ` set refs \<Longrightarrow> map_of s' sid = map_of s sid"
  shows "session_at refs s' a = session_at refs s a"
  using assms by (cases "map_of refs a") (force simp: session_at_def dest: map_of_SomeD)+

lemma CommitStep_keeps:
  assumes c: "DM_CommitStep now snap arts m r = (e, m', r')"
    and ok: "store_ok m" and dr: "sessions_drawn m r" and fresh: "fresh_reads N r" and le: "rng_pos r' \<le> N"
  shows "sessions_drawn m' r' \<and> fresh_reads N r'" "rng_pos r \<le> rng_pos r'"
    and "DM_GetByID tid x m = Some s \<Longrightarrow>
      DM_GetByID tid x m' = Some s \<and> DM_GetAgentSession tid x a m' = DM_GetAgentSession tid x a m"
proof -
  let ?k = "\<lambda>m'. DM_GetByID tid x m = Some s \<longrightarrow>
      DM_GetByID tid x m' = Some s \<and> DM_GetAgentSession tid x a m' = DM_GetAgentSession tid x a m"
  have same: "sessions_drawn m'' r \<and> ?k m''" if "\<And>t. thread_at m'' t = thread_at m t" for m''
    using that dr by (simp add: sessions_drawn_def GetByID_thread GetAgentSession_thread)
  have "(sessions_drawn m' r' \<and> fresh_reads N r') \<and> rng_pos r \<le> rng_pos r' \<and> ?k m'"
    using c
  proof (cases rule: CommitStep_cases)
    case (append refs t1)
    let ?tid = "sn_ThreadID snap"
    let ?t = "thread_at m ?tid" and ?p = "sn_ParentCheckpointID snap"
    have ss: "fst ` set (mt_sessions ?t) \<subseteq> drawn_ids r" using dr by (simp add: sessions_drawn_def)
    have "snd ` set (parent_refs ?t ?p) \<subseteq> fst ` set (mt_sessions ?t)"
      using parent_refs_ok [OF thread_at_ok [OF ok]] by blast
    with ss have pr: "snd ` set (parent_refs ?t ?p) \<subseteq> drawn_ids r" by (rule order_trans [rotated])
    note cs = commit_artifacts_sessions [OF append(6), where N = N and a = a]
    note fr = commit_artifacts_frame [OF append(6)]
    from cs fresh le ss pr have s1: "fst ` set (mt_sessions t1) \<subseteq> drawn_ids r'" "fresh_reads N r'"
      "\<forall>sid \<in> drawn_ids r. map_of (mt_sessions t1) sid = map_of (mt_sessions ?t) sid"
      "rng_pos r \<le> rng_pos r'" by simp_all
    have mono: "drawn_ids r \<subseteq> drawn_ids r'" using fr by (intro drawn_ids_mono) simp_all
    have d': "sessions_drawn m' r'"
      unfolding sessions_drawn_def
    proof
      fix tid
      have "fst ` set (mt_sessions (thread_at m tid)) \<subseteq> drawn_ids r"
        using dr by (simp add: sessions_drawn_def)
      with mono s1(1) show "fst ` set (mt_sessions (thread_at m' tid)) \<subseteq> drawn_ids r'"
        by (cases "tid = ?tid") (simp_all add: append(7) order_trans [of _ "drawn_ids r"])
    qed
    have "?k m'"
    proof
      assume g: "DM_GetByID tid x m = Some s"
      show "DM_GetByID tid x m' = Some s \<and> DM_GetAgentSession tid x a m' = DM_GetAgentSession tid x a m"
      proof (cases "tid = ?tid")
        case True
        have ne: "x \<noteq> sn_CheckpointID snap"
          using g append(4) True unfolding GetByID_thread by (metis (mono_tags, lifting) find_SomeD imageI)
        have "session_at rs (mt_sessions t1) a = session_at rs (mt_sessions ?t) a"
          if "map_of (mt_refs ?t) x = Some rs" for rs
          using thread_refs_drawn [OF ok dr that] s1(3) by (intro session_at_cong) blast
        then have "session_of (thread_at m' ?tid) x a = session_of ?t x a"
          using ne fr by (cases "map_of (mt_refs ?t) x") (simp_all add: session_of_eq append(7) update_conv')
        moreover have "DM_GetByID tid x m' = Some s"
          using g fr True by (simp add: GetByID_thread append(7) find_append)
        ultimately show ?thesis using True by (simp add: GetAgentSession_thread)
      next
        case False
        with g show ?thesis by (simp add: GetByID_thread GetAgentSession_thread append(7))
      qed
    qed
    with d' s1 show ?thesis by simp
  next
    case invalid
    with same [of m'] fresh show ?thesis by simp
  next
    case retry
    with same [of m'] fresh show ?thesis by simp
  next
    case conflict
    with same [of m'] fresh show ?thesis by simp
  qed
  then show "sessions_drawn m' r' \<and> fresh_reads N r'" "rng_pos r \<le> rng_pos r'"
    "DM_GetByID tid x m = Some s \<Longrightarrow>
      DM_GetByID tid x m' = Some s \<and> DM_GetAgentSession tid x a m' = DM_GetAgentSession tid x a m"
    by simp_all
qed

text \<open>
  C12: the agent sessions of a new checkpoint. For every agent the checkpoint reads the last
  session blob that the step registered for it, or, if the step registered none, what the
  parent checkpoint reads (nothing, for a first checkpoint).
\<close>

theorem CommitStep_agent_sessions:
  assumes "store_ok m" "sessions_drawn m r" "fresh_reads N r" "rng_pos r' \<le> N"
    and "DM_GetByID (sn_ThreadID snap) (sn_CheckpointID snap) m = None"
    and "DM_CommitStep now snap arts m r = (None, m', r')"
  shows "DM_GetAgentSession (sn_ThreadID snap) (sn_CheckpointID snap) a m'
    = (case last_session arts a of
         Some art \<Rightarrow> Some (art_Payload art)
       | None \<Rightarrow> if sn_ParentCheckpointID snap = '''' then None
           else DM_GetAgentSession (sn_ThreadID snap) (sn_ParentCheckpointID snap) a m)"
  using assms(6)
proof (cases rule: CommitStep_cases)
  case (append refs t1)
  let ?t = "thread_at m (sn_ThreadID snap)" and ?p = "sn_ParentCheckpointID snap"
  have ss: "fst ` set (mt_sessions ?t) \<subseteq> drawn_ids r" using assms(2) by (simp add: sessions_drawn_def)
  have "snd ` set (parent_refs ?t ?p) \<subseteq> fst ` set (mt_sessions ?t)"
    using parent_refs_ok [OF thread_at_ok [OF assms(1)]] by blast
  with ss have pr: "snd ` set (parent_refs ?t ?p) \<subseteq> drawn_ids r" by (rule order_trans [rotated])
  from commit_artifacts_sessions [OF append(6), where N = N and a = a] assms(3,4) ss pr
  have "session_at refs (mt_sessions t1) a = (case last_session arts a of
      Some art \<Rightarrow> Some (art_Payload art) | None \<Rightarrow> session_at (parent_refs ?t ?p) (mt_sessions ?t) a)"
    by simp
  moreover have "session_at (parent_refs ?t ?p) (mt_sessions ?t) a
      = (if ?p = '''' then None else session_of ?t ?p a)"
  proof (cases "?p = ''''")
    case False
    then show ?thesis
      by (cases "map_of (mt_refs ?t) ?p") (simp_all add: parent_refs_def session_of_eq session_at_def)
  qed (simp add: parent_refs_def session_at_def)
  ultimately have "session_at refs (mt_sessions t1) a = (case last_session arts a of
      Some art \<Rightarrow> Some (art_Payload art)
    | None \<Rightarrow> if ?p = '''' then None else session_of ?t ?p a)"
    by (simp only:)
  then show ?thesis
    by (simp add: GetAgentSession_thread append(7) session_of_eq [of _ "sn_CheckpointID snap"]
        update_conv' cong: option.case_cong)
next
  case (retry s)
  then have "DM_GetByID (sn_ThreadID snap) (sn_CheckpointID snap) m \<noteq> None"
    by (auto simp: GetByID_thread find_None_iff)
  with assms(5) show ?thesis by simp
qed simp_all

text \<open>Operations that only commit.\<close>

fun is_commit :: "dm_op \<Rightarrow> bool" where
  "is_commit (OpCommit now snap arts) = True"
| "is_commit (OpPut now tid snap) = True"
| "is_commit _ = False"

lemma CommitStep_rng:
  assumes "DM_CommitStep now snap arts m r = (e, m', r')"
  shows "rng_pos r \<le> rng_pos r'"
  using assms
proof (cases rule: CommitStep_cases)
  case (append refs t1)
  then show ?thesis using commit_artifacts_frame by blast
qed simp_all

lemma is_commit_exec:
  assumes "is_commit x" "dm_exec x (m, r) = (e, m', r')"
  obtains now snap arts m1 r1 where "DM_CommitStep now snap arts m1 r1 = (e, m', r')"
    "thread_at m1 = thread_at m" "rng_reads r1 = rng_reads r" "rng_pos r \<le> rng_pos r1"
proof (cases x)
  case (OpCommit now snap arts)
  then show ?thesis using that [of now snap arts m r] assms(2) by simp
next
  case (OpPut now tid snap0)
  then have "DM_Put now tid snap0 m r = (e, m', r')" using assms(2) by simp
  then show ?thesis using that by (rule Put_commit)
qed (use assms(1) in simp_all)

lemma dm_run_rng:
  "\<forall>x \<in> set xs. is_commit x \<Longrightarrow> dm_run xs (m, r) = (m', r') \<Longrightarrow> rng_pos r \<le> rng_pos r'"
proof (induction xs arbitrary: m r)
  case (Cons x xs)
  obtain e m1 r1 where x: "dm_exec x (m, r) = (e, m1, r1)" by (rule prod_cases3)
  from Cons.prems(1) x obtain now snap arts m2 r2
    where "DM_CommitStep now snap arts m2 r2 = (e, m1, r1)" "rng_pos r \<le> rng_pos r2"
    by (auto elim: is_commit_exec)
  with CommitStep_rng [of now snap arts m2 r2 e m1 r1] Cons.IH [of m1 r1] Cons.prems x
  show ?case by simp
qed simp

lemma dm_exec_keeps:
  assumes "is_commit x" "dm_exec x (m, r) = (e, m', r')" "store_ok m" "sessions_drawn m r"
    "fresh_reads N r" "rng_pos r' \<le> N"
  shows "sessions_drawn m' r' \<and> fresh_reads N r'" "rng_pos r \<le> rng_pos r'"
    and "DM_GetByID tid c m = Some s \<Longrightarrow>
      DM_GetByID tid c m' = Some s \<and> DM_GetAgentSession tid c a m' = DM_GetAgentSession tid c a m"
proof -
  from assms(1,2) obtain now snap arts m1 r1 where c: "DM_CommitStep now snap arts m1 r1 = (e, m', r')"
    and m1: "thread_at m1 = thread_at m" and r1: "rng_reads r1 = rng_reads r" "rng_pos r \<le> rng_pos r1"
    by (rule is_commit_exec)
  have ok1: "store_ok m1" using m1 assms(3) by (rule store_ok_threads)
  have dr1: "sessions_drawn m1 r1"
    using assms(4) drawn_ids_mono [OF r1] m1 by (auto simp: sessions_drawn_def intro: order_trans)
  have fr1: "fresh_reads N r1" using assms(5) fresh_reads_cong [OF r1(1)] by simp
  note k = CommitStep_keeps [OF c ok1 dr1 fr1 assms(6)]
  from k(1) show "sessions_drawn m' r' \<and> fresh_reads N r'" .
  from k(2) r1(2) show "rng_pos r \<le> rng_pos r'" by simp
  show "DM_GetByID tid c m = Some s \<Longrightarrow>
      DM_GetByID tid c m' = Some s \<and> DM_GetAgentSession tid c a m' = DM_GetAgentSession tid c a m"
    using k(3) [of tid c s a] m1 by (simp add: GetByID_thread GetAgentSession_thread)
qed

lemma dm_run_keeps:
  assumes "\<forall>x \<in> set xs. is_commit x" "dm_run xs (m, r) = (m', r')" "store_ok m" "sessions_drawn m r"
    "fresh_reads N r" "rng_pos r' \<le> N"
    "\<And>t. mt_revision (thread_at m t) \<le> n" "n + int (length xs) \<le> max_int64"
    "DM_GetByID tid c m = Some s"
  shows "DM_GetByID tid c m' = Some s \<and> DM_GetAgentSession tid c a m' = DM_GetAgentSession tid c a m"
  using assms
proof (induction xs arbitrary: m r n)
  case (Cons x xs)
  obtain e m1 r1 where x: "dm_exec x (m, r) = (e, m1, r1)" by (rule prod_cases3)
  have lt: "mt_revision (thread_at m t) < max_int64" for t
    using Cons.prems(7) [of t] Cons.prems(8) by simp
  have ok1: "store_ok m1" using dm_exec_ok(1) [OF Cons.prems(3) lt x] .
  have rev1: "mt_revision (thread_at m1 t) \<le> n + 1" for t
    using dm_exec_ok(2) [OF Cons.prems(3) lt x, of t] Cons.prems(7) [of t] by linarith
  have run1: "dm_run xs (m1, r1) = (m', r')" using Cons.prems(2) x by simp
  have pos: "rng_pos r1 \<le> rng_pos r'" using dm_run_rng [OF _ run1] Cons.prems(1) by simp
  have cx: "is_commit x" and cxs: "\<forall>x \<in> set xs. is_commit x" using Cons.prems(1) by simp_all
  have le1: "rng_pos r1 \<le> N" using pos Cons.prems(6) by simp
  note k = dm_exec_keeps [OF cx x Cons.prems(3-5) le1]
  have k1: "sessions_drawn m1 r1" "fresh_reads N r1" using k(1) by simp_all
  have len: "n + 1 + int (length xs) \<le> max_int64" using Cons.prems(8) by simp
  from k(3) [OF Cons.prems(9), of a]
    Cons.IH [OF cxs run1 ok1 k1 Cons.prems(6) rev1 len, of] show ?case by simp
qed simp

text \<open>
  C9: stored checkpoints are immutable. Whatever is committed after it, to its thread or to
  another, a checkpoint keeps its content and every agent session it reads, as long as the
  random source does not collide and the revisions do not overflow.
\<close>

theorem checkpoints_immutable:
  assumes "store_ok m" "DM_GetByID tid c m = Some s"
    and "\<forall>x \<in> set ops. is_commit x" "dm_run ops (m, r) = (m', r')"
    and "sessions_drawn m r" "fresh_reads N r" "rng_pos r' \<le> N"
    and "\<And>t. head_revision m t + int (length ops) \<le> max_int64"
  shows "DM_GetByID tid c m' = Some s \<and> DM_GetAgentSession tid c a m' = DM_GetAgentSession tid c a m"
proof -
  have r: "mt_revision (thread_at m t) \<le> max_int64 - int (length ops)" for t
    using assms(8) [of t] by (simp add: head_revision_thread [OF assms(1)])
  from dm_run_keeps [OF assms(3,4,1,5,6,7) r _ assms(2)] show ?thesis by simp
qed

section \<open>Retries and races\<close>

lemma CommitStep_GetByID:
  assumes "DM_CommitStep now snap arts m r = (e, m', r')" "DM_GetByID tid c m = Some s"
  shows "DM_GetByID tid c m' = Some s"
  using assms(1)
proof (cases rule: CommitStep_cases)
  case (append refs t1)
  note fr = commit_artifacts_frame [OF append(6)]
  show ?thesis
    using assms(2) fr
    by (cases "tid = sn_ThreadID snap") (auto simp: GetByID_thread append(7) find_append)
qed (use assms(2) in \<open>simp_all add: GetByID_thread\<close>)

lemma dm_run_GetByID:
  "\<forall>x \<in> set xs. is_commit x \<Longrightarrow> dm_run xs (m, r) = (m', r') \<Longrightarrow>
     DM_GetByID tid c m = Some s \<Longrightarrow> DM_GetByID tid c m' = Some s"
proof (induction xs arbitrary: m r)
  case (Cons x xs)
  obtain e m1 r1 where x: "dm_exec x (m, r) = (e, m1, r1)" by (rule prod_cases3)
  from Cons.prems(1) have "is_commit x" by simp
  from this x obtain now snap arts m2 r2 where c: "DM_CommitStep now snap arts m2 r2 = (e, m1, r1)"
    and "thread_at m2 = thread_at m"
    by (rule is_commit_exec)
  with Cons.prems(3) have "DM_GetByID tid c m2 = Some s" by (simp add: GetByID_thread)
  from CommitStep_GetByID [OF c this] Cons.IH [of m1 r1] Cons.prems x show ?case by simp
qed simp

text \<open>
  C11: a commit that succeeded can be retried at any later time. Whatever was committed in
  between, the retry of the same checkpoint succeeds, and no read of the store changes.
\<close>

theorem CommitStep_retry:
  assumes "store_ok m0" "DM_CommitStep now snap arts m0 r0 = (None, m, r)"
    and "\<forall>x \<in> set ops. is_commit x" "dm_run ops (m, r) = (m', r')"
    and "\<And>t. head_revision m0 t + 1 + int (length ops) \<le> max_int64"
    and "DM_CommitStep now' snap arts' m' r2 = (e, m'', r3)"
  shows "e = None \<and> same_view m' m''"
proof -
  have rev: "mt_revision (thread_at m0 t) < max_int64" for t
    using assms(5) [of t] by (simp add: head_revision_thread [OF assms(1)])
  have ok: "store_ok m" using CommitStep_ok [OF assms(1) rev assms(2)] .
  have rm: "mt_revision (thread_at m t) \<le> max_int64 - int (length ops)" for t
    using CommitStep_revision [OF assms(1) rev assms(2), of t] assms(5) [of t]
    by (simp add: head_revision_thread [OF assms(1)])
  then have ok': "store_ok m'"
    using dm_run_ok [OF ok rm, of ops r] assms(4) by simp
  have ids: "sn_ThreadID snap \<noteq> ''''" "sn_CheckpointID snap \<noteq> ''''"
    using assms(2) by (auto simp: DM_CommitStep_def split: if_splits)
  note cas = CommitStep_compare_and_set [OF assms(1) refl ids assms(2)]
  have "\<exists>s. DM_GetByID (sn_ThreadID snap) (sn_CheckpointID snap) m = Some s
      \<and> sn_ParentCheckpointID s = sn_ParentCheckpointID snap"
  proof (cases "DM_GetByID (sn_ThreadID snap) (sn_CheckpointID snap) m0")
    case None
    with cas show ?thesis by (auto simp: stored_def split: if_splits)
  next
    case (Some s)
    with cas show ?thesis by (auto simp: same_view_def split: if_splits)
  qed
  then obtain s where s: "DM_GetByID (sn_ThreadID snap) (sn_CheckpointID snap) m = Some s"
      "sn_ParentCheckpointID s = sn_ParentCheckpointID snap" by blast
  note g = dm_run_GetByID [OF assms(3,4) s(1)]
  from CommitStep_conflict_cases [OF ok' ids g assms(6)] s(2) show ?thesis by auto
qed

fun dm_results :: "dm_op list \<Rightarrow> DurableMemory \<times> rng \<Rightarrow> gerror option list" where
  "dm_results [] s = []"
| "dm_results (x # xs) s = fst (dm_exec x s) # dm_results xs (snd (dm_exec x s))"

text \<open>A commit to thread \<open>tid\<close>, onto parent \<open>p\<close>, of a checkpoint the thread does not have.\<close>

fun commits_onto :: "string \<Rightarrow> string \<Rightarrow> DurableMemory \<Rightarrow> dm_op \<Rightarrow> bool" where
  "commits_onto tid p m (OpCommit now snap arts) \<longleftrightarrow>
     sn_ThreadID snap = tid \<and> sn_ParentCheckpointID snap = p \<and> sn_CheckpointID snap \<noteq> ''''
     \<and> sn_CheckpointID snap \<noteq> p \<and> DM_GetByID tid (sn_CheckpointID snap) m = None"
| "commits_onto tid p m _ \<longleftrightarrow> False"

fun commit_id :: "dm_op \<Rightarrow> string" where
  "commit_id (OpCommit now snap arts) = sn_CheckpointID snap"
| "commit_id _ = ''''"

lemma losing_commits:
  assumes "store_ok m" "tid \<noteq> ''''" "\<forall>x \<in> set xs. commits_onto tid p m x" "head_id m tid \<noteq> p"
  shows "\<forall>e \<in> set (dm_results xs (m, r)). \<exists>y. e = Some y \<and> errors_is y ErrCheckpointConflict"
  using assms
proof (induction xs arbitrary: m r)
  case (Cons x xs)
  from Cons.prems(3) obtain now snap arts where x: "x = OpCommit now snap arts"
    and c: "sn_ThreadID snap = tid" "sn_ParentCheckpointID snap = p" "sn_CheckpointID snap \<noteq> ''''"
      "DM_GetByID tid (sn_CheckpointID snap) m = None"
    by (cases x) auto
  obtain e m1 r1 where s: "DM_CommitStep now snap arts m r = (e, m1, r1)" by (rule prod_cases3)
  have "sn_ParentCheckpointID snap \<noteq> head_id m tid" using c(2) Cons.prems(4) by auto
  with CommitStep_compare_and_set [OF Cons.prems(1) c(1) Cons.prems(2) c(3) s] c(4)
  obtain y where e: "e = Some y" "errors_is y ErrCheckpointConflict" and v: "same_view m m1" by auto
  have "thread_at m1 t = thread_at m t" for t
    using CommitStep_rejected(1) s e(1) by blast
  then have ok: "store_ok m1" using Cons.prems(1) store_ok_threads [of m1 m] by (simp add: fun_eq_iff)
  have co: "\<forall>x \<in> set xs. commits_onto tid p m1 x"
  proof
    fix z assume "z \<in> set xs"
    with Cons.prems(3) v show "commits_onto tid p m1 z" by (cases z) (auto simp: same_view_def)
  qed
  have h: "head_id m1 tid \<noteq> p" using Cons.prems(4) v by (simp add: head_id_def same_view_def)
  from Cons.IH [OF ok Cons.prems(2) co h] e show ?case by (simp add: x s)
qed simp

text \<open>
  C10: racing writers. Of any number of commits that name the same parent, in whatever order
  the store's mutex admits them, exactly the first succeeds if the parent is the head and
  none does otherwise; every other one reports a conflict.
\<close>

theorem racing_commits:
  assumes "store_ok m" "tid \<noteq> ''''" "\<forall>x \<in> set xs. commits_onto tid p m x"
    and "distinct (map commit_id xs)" "head_revision m tid < max_int64" "i < length xs"
  shows "if i = 0 \<and> p = head_id m tid then dm_results xs (m, r) ! i = None
    else \<exists>y. dm_results xs (m, r) ! i = Some y \<and> errors_is y ErrCheckpointConflict"
proof (cases "p = head_id m tid")
  case False
  have "length (dm_results xs s) = length xs" for s
    by (induction xs arbitrary: s) auto
  then have "dm_results xs (m, r) ! i \<in> set (dm_results xs (m, r))" using assms(6) by simp
  with losing_commits [OF assms(1-3), of r] False show ?thesis by auto
next
  case True
  obtain x ys where xs: "xs = x # ys" using assms(6) by (cases xs) auto
  with assms(3) obtain now snap arts where x: "x = OpCommit now snap arts"
    and c: "sn_ThreadID snap = tid" "sn_ParentCheckpointID snap = p" "sn_CheckpointID snap \<noteq> ''''"
      "sn_CheckpointID snap \<noteq> p" "DM_GetByID tid (sn_CheckpointID snap) m = None"
    by (cases x) auto
  obtain e m1 r1 where s: "DM_CommitStep now snap arts m r = (e, m1, r1)" by (rule prod_cases3)
  from CommitStep_compare_and_set [OF assms(1) c(1) assms(2) c(3) s] c(2,5) True
  have e: "e = None" and l: "DM_GetLatest tid m1 = Some (stored now (wrap64 (head_revision m tid + 1)) snap)"
    by simp_all
  have ok: "store_ok m1"
    using CommitStep_ok [OF assms(1) _ s] assms(5) c(1) by (simp add: head_revision_thread [OF assms(1)])
  have h: "head_id m1 tid \<noteq> p" using c(4) by (simp add: head_id_def l stored_def)
  have co: "\<forall>z \<in> set ys. commits_onto tid p m1 z"
  proof
    fix z assume z: "z \<in> set ys"
    with assms(3) xs have "commits_onto tid p m z" by simp
    moreover from z assms(4) xs x have "commit_id z \<noteq> sn_CheckpointID snap" by force
    ultimately show "commits_onto tid p m1 z"
      using s c(1) by (cases z) (auto elim!: CommitStep_cases simp: GetByID_thread find_append
          dest: commit_artifacts_frame)
  qed
  have "length (dm_results ys t) = length ys" for t
    by (induction ys arbitrary: t) auto
  with losing_commits [OF ok assms(2) co h, of r1] assms(6) xs
  have "0 < i \<Longrightarrow> \<exists>y. dm_results ys (m1, r1) ! (i - 1) = Some y \<and> errors_is y ErrCheckpointConflict"
    by (metis (no_types, lifting) One_nat_def Suc_pred length_Cons not_less_eq nth_mem)
  with e True show ?thesis by (cases i) (simp_all add: xs x s)
qed

section \<open>Listing and pruning\<close>

lemma list_loop_eq:
  "limit \<le> 0 \<or> int (length out) < limit \<Longrightarrow>
   list_loop b limit ss out
     = out @ (let xs = map meta_of (filter (\<lambda>s. \<not> (b > 0 \<and> sn_Revision s \<ge> b)) ss)
              in if limit \<le> 0 then xs else take (nat (limit - int (length out))) xs)"
proof (induction b limit ss out rule: list_loop.induct)
  case (2 b limit s ss out)
  show ?case
  proof (cases "b > 0 \<and> sn_Revision s \<ge> b")
    case True
    with 2 show ?thesis by (simp add: Let_def)
  next
    case keep: False
    show ?thesis
    proof (cases "limit > 0 \<and> int (length (out @ [meta_of s])) \<ge> limit")
      case True
      with "2.prems" have "nat (limit - int (length out)) = 1" by auto
      with True keep show ?thesis by (auto simp: Let_def)
    next
      case False
      have "nat (limit - int (length out)) = Suc (nat (limit - int (length (out @ [meta_of s]))))"
        if "\<not> limit \<le> 0" using False that by auto
      with False keep "2.IH"(2) [OF _ refl] show ?thesis by (auto simp: Let_def)
    qed
  qed
qed (simp add: Let_def)

lemma List_eq:
  "DM_List tid b limit m
     = (let xs = map meta_of (filter (\<lambda>s. \<not> (b > 0 \<and> sn_Revision s \<ge> b)) (rev (mt_history (thread_at m tid))))
        in if limit \<le> 0 then xs else take (nat limit) xs)"
  by (subst List_thread, subst list_loop_eq) (auto simp: Let_def)

text \<open>In a list that falls strictly, the entries below the \<open>n\<close>-th are the ones after it.\<close>

lemma filter_below_nth:
  fixes f :: "'a \<Rightarrow> int"
  assumes "sorted_wrt (\<lambda>a b. f a > f b) xs" "n < length xs"
  shows "filter (\<lambda>x. f x < f (xs ! n)) xs = drop (Suc n) xs"
  using assms
proof (induction xs arbitrary: n)
  case (Cons x xs)
  show ?case
  proof (cases n)
    case 0
    have "filter (\<lambda>y. f y < f x) xs = xs" using Cons.prems(1) by (simp add: filter_id_conv)
    with 0 show ?thesis by simp
  next
    case (Suc k)
    then have "\<not> f x < f (xs ! k)" using Cons.prems by (simp add: less_imp_le not_less)
    with Cons.IH [of k] Cons.prems Suc show ?thesis by simp
  qed
qed simp

text \<open>
  C14: paging through the history. \<open>List\<close> gives the newest checkpoints first, and asking for
  the page before the revision of a page's last row continues exactly where that page
  stopped: two pages put together are the one longer page.
\<close>

theorem List_pages:
  assumes "store_ok m" "0 < l" "0 < l'" "DM_List tid b l m \<noteq> []"
  shows "DM_List tid b l m @ DM_List tid (sm_Revision (last (DM_List tid b l m))) l' m
    = DM_List tid b (l + l') m"
proof -
  let ?h = "mt_history (thread_at m tid)"
  let ?P = "\<lambda>s. \<not> (b > 0 \<and> sn_Revision s \<ge> b)"
  define ys where "ys = filter ?P (rev ?h)"
  have th: "thread_ok tid (thread_at m tid)" using assms(1) by (rule thread_at_ok)
  then have "sorted_wrt (\<lambda>a b. sn_Revision a < sn_Revision b) ?h"
    using follows_revisions by (simp add: thread_ok_def)
  then have srt: "sorted_wrt (\<lambda>a b. sn_Revision a > sn_Revision b) (rev ?h)"
    by (simp add: sorted_wrt_rev)
  then have sy: "sorted_wrt (\<lambda>a b. sn_Revision a > sn_Revision b) ys"
    unfolding ys_def by (rule sorted_wrt_filter)
  have page: "DM_List tid b k m = take (nat k) (map meta_of ys)" if "0 < k" for k
    using that by (simp add: List_eq ys_def Let_def)
  let ?n = "min (nat l) (length ys) - 1"
  have ne: "ys \<noteq> []" using assms(4) page [OF assms(2)] by auto
  then have "0 < length ys" by simp
  with assms(2) have "0 < min (nat l) (length ys)" "min (nat l) (length ys) \<le> length ys" by simp_all
  then have n: "?n < length ys" "Suc ?n = min (nat l) (length ys)" by arith+
  have lst: "last (DM_List tid b l m) = meta_of (ys ! ?n)"
    using n assms(2,4) by (simp add: page [OF assms(2)] last_conv_nth take_map min_def)
  define q where "q = sn_Revision (ys ! ?n)"
  have mem: "ys ! ?n \<in> set ?h" "?P (ys ! ?n)" using n(1) nth_mem [of ?n ys] by (auto simp: ys_def)
  then have r0: "0 < q" and qb: "\<not> (b > 0 \<and> q \<ge> b)" using th by (auto simp: thread_ok_def q_def)
  have "filter (\<lambda>s. \<not> (q > 0 \<and> sn_Revision s \<ge> q)) (rev ?h) = filter (\<lambda>s. sn_Revision s < q) ys"
    unfolding ys_def filter_filter using r0 qb by (intro filter_cong) auto
  also have "\<dots> = drop (Suc ?n) ys" unfolding q_def by (rule filter_below_nth [OF sy n(1)])
  finally have "DM_List tid q l' m = take (nat l') (map meta_of (drop (Suc ?n) ys))"
    using assms(3) by (simp add: List_eq Let_def)
  moreover have "drop (Suc ?n) ys = drop (nat l) ys" unfolding n(2) by (simp add: min_def)
  ultimately have "DM_List tid (sm_Revision (last (DM_List tid b l m))) l' m
      = take (nat l') (drop (nat l) (map meta_of ys))"
    by (simp add: lst meta_of_def q_def drop_map)
  moreover have "nat (l + l') = nat l + nat l'" using assms(2,3) by (simp add: nat_add_distrib)
  ultimately show ?thesis
    using page [OF assms(2)] page [of "l + l'"] assms(2,3) by (simp add: take_add)
qed

text \<open>The checkpoint ids among the rows of a listing.\<close>

definition listed :: "SnapshotMeta list \<Rightarrow> string set" where
  "listed rows = sm_CheckpointID ` set rows"

lemma map_of_filter_key:
  "P k \<Longrightarrow> map_of (filter (\<lambda>(k, v). P k) al) k = map_of al k"
  by (induction al) auto

lemma Prune_thread:
  assumes ok: "store_ok m" and k: "0 < k" and p: "DM_Prune tid k m = (e, m')"
  defines "t \<equiv> thread_at m tid"
  defines "h \<equiv> drop (length (mt_history t) - nat k) (mt_history t)"
  shows "e = None \<and> mt_history (thread_at m' tid) = h \<and> mt_latestID (thread_at m' tid) = mt_latestID t
    \<and> session_of (thread_at m' tid) c a
        = (if c \<in> sn_CheckpointID ` set h then session_of t c a else None)
    \<and> (\<forall>tid'. tid' \<noteq> tid \<longrightarrow> m' tid' = m tid')"
proof (cases "nat k < length (mt_history t)")
  case False
  have th: "thread_ok tid t" unfolding t_def using ok by (rule thread_at_ok)
  have m': "m' = m" "e = None"
    using p k False by (auto simp: DM_Prune_def t_def thread_at_def split: option.splits if_splits)
  have h: "h = mt_history t" using False by (simp add: h_def)
  have "session_of t c a = None" if "c \<notin> sn_CheckpointID ` set (mt_history t)"
  proof -
    have "fst ` set (mt_refs t) = sn_CheckpointID ` set (mt_history t)" using th by (simp add: thread_ok_def)
    with that have "map_of (mt_refs t) c = None" by (simp add: map_of_eq_None_iff)
    then show ?thesis by (simp add: session_of_def)
  qed
  with m' h show ?thesis by (simp add: t_def)
next
  case True
  then obtain t0 where t0: "m tid = Some t0" "t = t0"
    by (auto simp: t_def thread_at_def new_thread_def split: option.splits)
  have th: "thread_ok tid t" unfolding t_def using ok by (rule thread_at_ok)
  have kk: "0 < nat k" "\<not> int (length (mt_history t)) \<le> k" using k True by auto
  have m': "m' = m(tid \<mapsto> prune_thread (nat k) t)" "e = None"
    using p k kk(2) t0 by (auto simp: DM_Prune_def)
  note f = prune_thread_frame [OF th kk(1) True, folded h_def]
  have "session_of (prune_thread (nat k) t) c a = session_of t c a"
    if c: "c \<in> sn_CheckpointID ` set h"
  proof (cases "map_of (mt_refs t) c")
    case (Some refs)
    have rc: "(c, refs) \<in> set (mt_refs t)" using Some by (rule map_of_SomeD)
    have "map_of (mt_sessions (prune_thread (nat k) t)) sid = map_of (mt_sessions t) sid"
      if "sid \<in> snd ` set refs" for sid
    proof -
      have "\<exists>c rs. (c, rs) \<in> set (mt_refs t) \<and> c \<in> sn_CheckpointID ` set h \<and> sid \<in> snd ` set rs"
        using rc c that by blast
      then show ?thesis unfolding f(6) by (intro map_of_filter_key)
    qed
    then have "session_at refs (mt_sessions (prune_thread (nat k) t)) a = session_at refs (mt_sessions t) a"
      by (rule session_at_cong)
    with Some c show ?thesis by (simp add: session_of_eq f(4))
  qed (simp add: session_of_def f(4))
  with m' f(1,2) show ?thesis by (simp add: session_of_def f(4))
qed

text \<open>
  C13: \<open>Prune\<close> keeps the newest \<open>keepLast\<close> checkpoints, with their content and their agent
  sessions, and the head with them; it forgets every older checkpoint and the sessions only
  those used, and leaves the other threads alone.
\<close>

theorem Prune_keeps_newest:
  assumes "store_ok m" "0 < k" "DM_Prune tid k m = (e, m')"
  shows "e = None \<and> DM_List tid 0 0 m' = DM_List tid 0 k m \<and> DM_GetLatest tid m' = DM_GetLatest tid m
    \<and> (\<forall>c a. if c \<in> listed (DM_List tid 0 k m)
         then DM_GetByID tid c m' = DM_GetByID tid c m
           \<and> DM_GetAgentSession tid c a m' = DM_GetAgentSession tid c a m
         else DM_GetByID tid c m' = None \<and> DM_GetAgentSession tid c a m' = None)
    \<and> (\<forall>tid'. tid' \<noteq> tid \<longrightarrow> m' tid' = m tid')"
proof -
  let ?t = "thread_at m tid"
  let ?H = "mt_history ?t"
  let ?h = "drop (length ?H - nat k) ?H"
  note pt = Prune_thread [OF assms(1-3)]
  have th: "thread_ok tid ?t" using assms(1) by (rule thread_at_ok)
  have rows: "DM_List tid 0 k m = map meta_of (rev ?h)"
    using assms(2) by (simp add: List_eq Let_def take_map take_rev)
  then have ids: "listed (DM_List tid 0 k m) = sn_CheckpointID ` set ?h"
    by (simp add: listed_def image_image meta_of_def)
  have others: "e = None" "\<forall>tid'. tid' \<noteq> tid \<longrightarrow> m' tid' = m tid'" using pt by simp_all
  have rest: "DM_List tid 0 0 m' = DM_List tid 0 k m"
    unfolding rows using pt by (simp add: List_eq Let_def)
  have "?h = [] \<longleftrightarrow> length ?H \<le> length ?H - nat k" by simp
  also have "\<dots> \<longleftrightarrow> length ?H = 0" using assms(2) by arith
  finally have ne: "?h = [] \<longleftrightarrow> ?H = []" by simp
  have "store_ok m'" using Prune_ok [OF assms(1,3)] .
  then have latest: "DM_GetLatest tid m' = DM_GetLatest tid m"
    using pt ne last_drop [of "length ?H - nat k" ?H]
    by (simp add: GetLatest_last assms(1) Let_def not_le [symmetric])
  have split: "?H = take (length ?H - nat k) ?H @ ?h" by simp
  have "distinct (map sn_CheckpointID ?H)" using th by (simp add: thread_ok_def)
  then have dj: "sn_CheckpointID ` set (take (length ?H - nat k) ?H) \<inter> sn_CheckpointID ` set ?h = {}"
    by (metis append_take_drop_id distinct_append map_append set_map)
  have kept: "DM_GetByID tid c m' = DM_GetByID tid c m \<and> DM_GetAgentSession tid c a m' = DM_GetAgentSession tid c a m"
    if "c \<in> listed (DM_List tid 0 k m)" for c a
  proof -
    from that dj ids have "c \<notin> sn_CheckpointID ` set (take (length ?H - nat k) ?H)" by blast
    then have "List.find (\<lambda>s. sn_CheckpointID s = c) (take (length ?H - nat k) ?H) = None"
      by (intro find_NoneI) blast
    then have "List.find (\<lambda>s. sn_CheckpointID s = c) ?H = List.find (\<lambda>s. sn_CheckpointID s = c) ?h"
      by (subst split, subst find_append) simp
    with that ids pt show ?thesis by (simp add: GetByID_thread GetAgentSession_thread)
  qed
  have gone: "DM_GetByID tid c m' = None \<and> DM_GetAgentSession tid c a m' = None"
    if "c \<notin> listed (DM_List tid 0 k m)" for c a
  proof -
    from that ids have "List.find (\<lambda>s. sn_CheckpointID s = c) ?h = None"
      by (intro find_NoneI) auto
    with that ids pt show ?thesis by (simp add: GetByID_thread GetAgentSession_thread)
  qed
  show ?thesis by (intro conjI allI) (use others rest latest kept gone in auto)
qed

section \<open>Instances\<close>

lemma sample_fresh: "fresh_reads 256 sample_rng"
proof -
  have "i = j" if "i < 256" "j < 256" "(word_of_nat i :: 8 word) = word_of_nat j" for i j :: nat
    using that by (simp add: word_of_nat_eq_iff take_bit_eq_mod)
  then show ?thesis by (auto simp: fresh_reads_def sample_rng_def inj_on_def)
qed

lemma sessions_drawn_new: "sessions_drawn NewDurableMemory r"
  by (simp add: sessions_drawn_def thread_at_new new_thread_def)

definition sample_snap :: "string \<Rightarrow> string \<Rightarrow> Snapshot" where
  "sample_snap i p = new_snapshot (sample_config :: (unit, unit) runConfig) i p 7 ''a'' Map.empty 1 None"

lemma sample_snap_simps [simp]:
  "sn_ThreadID (sample_snap i p) = ''default''" "sn_CheckpointID (sample_snap i p) = i"
  "sn_ParentCheckpointID (sample_snap i p) = p" "sn_CreatedAt (sample_snap i p) = 7"
  by (simp_all add: sample_snap_def new_snapshot_def sample_config_def)

text \<open>A first checkpoint that stores the session of agent \<open>x\<close>, then a second one.\<close>

definition sample_art :: StepArtifact where
  "sample_art = \<lparr>art_Kind = ArtifactAgentSession, art_Key = ''x'', art_Payload = ''[]''\<rparr>"

definition sample_ops :: "dm_op list" where
  "sample_ops = [OpCommit 9 (sample_snap ''c1'' '''') [sample_art],
     OpCommit 9 (sample_snap ''c2'' ''c1'') []]"

definition sample_store :: DurableMemory where
  "sample_store = fst (dm_run sample_ops (NewDurableMemory, sample_rng))"

lemma sample_store_ok: "store_ok sample_store"
  unfolding sample_store_def
  by (rule dm_run_ok [where n = 0])
    (simp_all add: store_ok_new thread_at_new new_thread_def sample_ops_def max_int64_def)

lemma sample_first:
  "\<exists>m r. DM_CommitStep 9 (sample_snap ''c1'' '''') [sample_art] NewDurableMemory sample_rng = (None, m, r)
     \<and> rng_pos r = 1 \<and> store_ok m \<and> (\<forall>t. head_revision m t \<le> 1) \<and> sessions_drawn m r \<and> fresh_reads 256 r
     \<and> DM_GetByID ''default'' ''c1'' m = Some (stored 9 1 (sample_snap ''c1'' ''''))"
proof -
  obtain e m r where c:
    "DM_CommitStep 9 (sample_snap ''c1'' '''') [sample_art] NewDurableMemory sample_rng = (e, m, r)"
    by (rule prod_cases3)
  then have "e = None" "rng_pos r = 1"
    by (auto simp: DM_CommitStep_def commitStepLocked_def threadLocked_eq thread_at_new new_thread_def
        sample_art_def parent_refs_def NewID_def sample_rng_def Let_def)
  moreover have "mt_revision (thread_at NewDurableMemory t) = 0" for t
    by (simp add: thread_at_new new_thread_def)
  with CommitStep_ok [OF store_ok_new _ c] CommitStep_revision [OF store_ok_new _ c]
  have "store_ok m" "\<And>t. mt_revision (thread_at m t) \<le> 1" by (simp_all add: max_int64_def)
  moreover from this have "\<And>t. head_revision m t \<le> 1" by (simp add: head_revision_thread)
  moreover have "rng_pos r \<le> 256" using calculation(2) by simp
  with CommitStep_keeps(1) [OF c store_ok_new sessions_drawn_new sample_fresh]
  have "sessions_drawn m r" "fresh_reads 256 r" by simp_all
  moreover have "DM_GetByID ''default'' ''c1'' m = Some (stored 9 1 (sample_snap ''c1'' ''''))"
    using c by (auto simp: DM_CommitStep_def commitStepLocked_def threadLocked_eq thread_at_new new_thread_def
        sample_art_def parent_refs_def NewID_def sample_rng_def DM_GetByID_def stored_def wrap64_def Let_def)
  ultimately show ?thesis using c by auto
qed

lemma sample_two: "map sm_CheckpointID (DM_List ''default'' 0 0 sample_store) = [''c2'', ''c1'']"
  by (simp add: sample_store_def sample_ops_def DM_CommitStep_def commitStepLocked_def threadLocked_eq
      thread_at_new new_thread_def sample_art_def parent_refs_def NewID_def sample_rng_def Let_def
      List_thread meta_of_def)

theorem CommitStep_agent_sessions_witness:
  "\<exists>m' r'. DM_CommitStep 9 (sample_snap ''c1'' '''') [sample_art] NewDurableMemory sample_rng = (None, m', r')
    \<and> DM_GetAgentSession ''default'' ''c1'' ''x'' m' = Some ''[]''"
proof -
  from sample_first obtain m r where c:
    "DM_CommitStep 9 (sample_snap ''c1'' '''') [sample_art] NewDurableMemory sample_rng = (None, m, r)"
    "rng_pos r = 1" by blast
  from CommitStep_agent_sessions [OF store_ok_new sessions_drawn_new sample_fresh _ _ c(1), of "''x''"] c
  show ?thesis by (simp add: last_session_def sample_art_def)
qed

theorem checkpoints_immutable_witness:
  "\<exists>m r m' r'. dm_run [OpCommit 9 (sample_snap ''c2'' ''c1'') []] (m, r) = (m', r')
    \<and> DM_GetByID ''default'' ''c1'' m' = Some (stored 9 1 (sample_snap ''c1'' ''''))"
proof -
  from sample_first obtain m r where m: "store_ok m" "sessions_drawn m r" "fresh_reads 256 r"
    "DM_GetByID ''default'' ''c1'' m = Some (stored 9 1 (sample_snap ''c1'' ''''))"
    and h: "\<And>t. head_revision m t \<le> 1" and p: "rng_pos r = 1" by blast
  obtain m' r' where run: "dm_run [OpCommit 9 (sample_snap ''c2'' ''c1'') []] (m, r) = (m', r')"
    by (cases "dm_run [OpCommit 9 (sample_snap ''c2'' ''c1'') []] (m, r)")
  obtain e where "DM_CommitStep 9 (sample_snap ''c2'' ''c1'') [] m r = (e, m', r')"
    using run by (cases "DM_CommitStep 9 (sample_snap ''c2'' ''c1'') [] m r") auto
  then have "r' = r" by (cases rule: CommitStep_cases) auto
  then have le: "rng_pos r' \<le> 256" using p by simp
  have b: "head_revision m t + int (length [OpCommit 9 (sample_snap ''c2'' ''c1'') []]) \<le> max_int64" for t
    using h [of t] by (simp add: max_int64_def)
  from checkpoints_immutable [OF m(1,4) _ run m(2,3) le b] run show ?thesis by auto
qed

theorem CommitStep_retry_witness:
  "\<exists>m r m' m'' r3.
     DM_CommitStep 9 (sample_snap ''c1'' '''') [sample_art] NewDurableMemory sample_rng = (None, m, r)
     \<and> dm_run [OpCommit 9 (sample_snap ''c2'' ''c1'') []] (m, r) = (m', r)
     \<and> DM_CommitStep 9 (sample_snap ''c1'' '''') [] m' r = (None, m'', r3) \<and> same_view m' m''"
proof -
  let ?ops = "[OpCommit 9 (sample_snap ''c2'' ''c1'') []]"
  from sample_first obtain m r where c:
    "DM_CommitStep 9 (sample_snap ''c1'' '''') [sample_art] NewDurableMemory sample_rng = (None, m, r)"
    by blast
  obtain m' r' where run: "dm_run ?ops (m, r) = (m', r')"
    by (cases "dm_run [OpCommit 9 (sample_snap ''c2'' ''c1'') []] (m, r)")
  obtain e where "DM_CommitStep 9 (sample_snap ''c2'' ''c1'') [] m r = (e, m', r')"
    using run by (cases "DM_CommitStep 9 (sample_snap ''c2'' ''c1'') [] m r") auto
  then have r: "r' = r" by (cases rule: CommitStep_cases) auto
  obtain e m'' r3 where retry: "DM_CommitStep 9 (sample_snap ''c1'' '''') [] m' r = (e, m'', r3)"
    by (rule prod_cases3)
  have b: "head_revision NewDurableMemory t + 1 + int (length ?ops) \<le> max_int64" for t
    by (simp add: head_revision_def max_int64_def)
  have "e = None \<and> same_view m' m''"
    using CommitStep_retry [OF store_ok_new c _ run b retry] by simp
  with c run r retry show ?thesis by blast
qed

theorem racing_commits_witness:
  "dm_results [OpCommit 9 (sample_snap ''c1'' '''') [], OpCommit 9 (sample_snap ''c2'' '''') []]
      (NewDurableMemory, sample_rng) ! 0 = None
   \<and> (\<exists>y. dm_results [OpCommit 9 (sample_snap ''c1'' '''') [], OpCommit 9 (sample_snap ''c2'' '''') []]
      (NewDurableMemory, sample_rng) ! 1 = Some y \<and> errors_is y ErrCheckpointConflict)"
proof -
  let ?xs = "[OpCommit 9 (sample_snap ''c1'' '''') [], OpCommit 9 (sample_snap ''c2'' '''') []]"
  have "\<forall>x \<in> set ?xs. commits_onto ''default'' '''' NewDurableMemory x" "distinct (map commit_id ?xs)"
    "head_revision NewDurableMemory ''default'' < max_int64" "head_id NewDurableMemory ''default'' = ''''"
    by (simp_all add: head_revision_def head_id_def max_int64_def)
  note race = racing_commits [OF store_ok_new _ this(1-3)] and h = this(4)
  show ?thesis
    using race [of 0 sample_rng] race [of 1 sample_rng] h by (simp del: dm_results.simps)
qed

theorem List_pages_witness:
  "DM_List ''default'' 0 1 sample_store
      @ DM_List ''default'' (sm_Revision (last (DM_List ''default'' 0 1 sample_store))) 1 sample_store
    = DM_List ''default'' 0 2 sample_store
   \<and> DM_List ''default'' 0 1 sample_store \<noteq> []"
proof -
  have "DM_List ''default'' 0 0 sample_store \<noteq> []"
    using sample_two by (metis list.simps(3,8))
  then have "DM_List ''default'' 0 1 sample_store \<noteq> []" by (simp add: List_eq Let_def)
  with List_pages [OF sample_store_ok _ _ this, of 1] show ?thesis by simp
qed

theorem Prune_keeps_newest_witness:
  "\<exists>m'. DM_Prune ''default'' 1 sample_store = (None, m')
    \<and> DM_List ''default'' 0 0 m' = DM_List ''default'' 0 1 sample_store"
proof -
  obtain e m' where p: "DM_Prune ''default'' 1 sample_store = (e, m')"
    by (cases "DM_Prune ''default'' 1 sample_store")
  from Prune_keeps_newest [OF sample_store_ok _ p] p show ?thesis by simp
qed

end
