(* ===== verification/Lease.thy ===== *)
theory Lease
  imports DurableProps
begin

text \<open>
  \<^verbatim>\<open>checkpoint/lease_memory.go\<close>: \<open>MemoryLease\<close>, the in-process execution lease with its
  fencing epochs, and \<open>Fenced\<close>, the durable store that commits only under a valid grant. What
  a lease owes the engine is the locale \<open>lease_provider\<close>; that a superseded owner can never
  commit again is proved in it and interpreted on \<open>MemoryLease\<close>.
\<close>

section \<open>MemoryLease\<close>

text \<open>
  The injectable clock \<open>l.now\<close> is the argument \<open>now\<close> of every operation that reads it (once),
  \<open>ctx.Err()\<close> the argument \<open>cerr\<close>. Operations run under the lease's mutex.
\<close>

record memLeaseState =
  ml_runID :: string
  ml_epoch :: int
  ml_expiresAt :: gotime

type_synonym MemoryLease = "string \<Rightarrow> memLeaseState option"

definition NewMemoryLease :: MemoryLease where
  "NewMemoryLease = Map.empty"

definition free_lease :: memLeaseState where
  "free_lease = \<lparr>ml_runID = '''', ml_epoch = 0, ml_expiresAt = 0\<rparr>"

definition ML_Acquire ::
  "gerror option \<Rightarrow> gotime \<Rightarrow> string \<Rightarrow> string \<Rightarrow> duration \<Rightarrow> MemoryLease
   \<Rightarrow> (gerror + LeaseGrant) \<times> MemoryLease" where
  "ML_Acquire cerr now threadID runID ttl0 l0 =
     (case cerr of
        Some e \<Rightarrow> (Inl e, l0)
      | None \<Rightarrow>
        if threadID = '''' \<or> runID = '''' then (Inl ErrLeaseLost, l0)
        else
          (let ttl = (if ttl0 \<le> 0 then DefaultLeaseTTL else ttl0);
               st = (case l0 threadID of Some st \<Rightarrow> st | None \<Rightarrow> free_lease);
               l = l0(threadID \<mapsto> st);
               active = (ml_runID st \<noteq> '''' \<and> ml_expiresAt st > now)
           in if active \<and> ml_runID st = runID then
                (let st' = st\<lparr>ml_expiresAt := now + ttl\<rparr>
                 in (Inr \<lparr>lg_ThreadID = threadID, lg_RunID = runID, lg_Epoch = ml_epoch st',
                          lg_ExpiresAt = ml_expiresAt st'\<rparr>, l(threadID \<mapsto> st')))
              else if active then (Inl ErrLeaseHeld, l)
              else
                (let st' = \<lparr>ml_runID = runID, ml_epoch = wrap64 (ml_epoch st + 1),
                            ml_expiresAt = now + ttl\<rparr>
                 in (Inr \<lparr>lg_ThreadID = threadID, lg_RunID = runID, lg_Epoch = ml_epoch st',
                          lg_ExpiresAt = ml_expiresAt st'\<rparr>, l(threadID \<mapsto> st')))))"

text \<open>The check that \<open>Renew\<close> and \<open>validateActiveLocked\<close> share.\<close>

definition grant_active :: "gotime \<Rightarrow> LeaseGrant \<Rightarrow> MemoryLease \<Rightarrow> bool" where
  "grant_active now grant l \<longleftrightarrow>
     (case l (lg_ThreadID grant) of
        None \<Rightarrow> False
      | Some st \<Rightarrow> ml_runID st = lg_RunID grant \<and> ml_epoch st = lg_Epoch grant \<and> ml_expiresAt st > now)"

definition ML_Renew ::
  "gerror option \<Rightarrow> gotime \<Rightarrow> LeaseGrant \<Rightarrow> duration \<Rightarrow> MemoryLease
   \<Rightarrow> (gerror + LeaseGrant) \<times> MemoryLease" where
  "ML_Renew cerr now grant ttl0 l =
     (case cerr of
        Some e \<Rightarrow> (Inl e, l)
      | None \<Rightarrow>
          (let ttl = (if ttl0 \<le> 0 then DefaultLeaseTTL else ttl0)
           in if \<not> grant_active now grant l then (Inl ErrLeaseLost, l)
              else (case l (lg_ThreadID grant) of
                      None \<Rightarrow> (Inl ErrLeaseLost, l)
                    | Some st \<Rightarrow>
                        (let st' = st\<lparr>ml_expiresAt := now + ttl\<rparr>
                         in (Inr \<lparr>lg_ThreadID = lg_ThreadID grant, lg_RunID = lg_RunID grant,
                                  lg_Epoch = ml_epoch st', lg_ExpiresAt = ml_expiresAt st'\<rparr>,
                             l(lg_ThreadID grant \<mapsto> st'))))))"

definition ML_Release ::
  "gerror option \<Rightarrow> LeaseGrant \<Rightarrow> MemoryLease \<Rightarrow> gerror option \<times> MemoryLease" where
  "ML_Release cerr grant l =
     (case cerr of
        Some e \<Rightarrow> (Some e, l)
      | None \<Rightarrow>
          (case l (lg_ThreadID grant) of
             None \<Rightarrow> (None, l)
           | Some st \<Rightarrow>
               if ml_runID st = lg_RunID grant \<and> ml_epoch st = lg_Epoch grant
               then (None, l(lg_ThreadID grant \<mapsto> st\<lparr>ml_runID := '''', ml_expiresAt := 0\<rparr>))
               else (None, l)))"

definition validateActiveLocked :: "gotime \<Rightarrow> LeaseGrant \<Rightarrow> MemoryLease \<Rightarrow> gerror option" where
  "validateActiveLocked now grant l = (if grant_active now grant l then None else Some ErrLeaseLost)"

section \<open>Fenced\<close>

text \<open>The two pointers of \<open>Fenced\<close>: \<open>None\<close> is nil, otherwise what the pointer points to.\<close>

record Fenced =
  f_Store :: "DurableMemory option"
  f_Lease :: "MemoryLease option"

definition NewFencedMemory :: Fenced where
  "NewFencedMemory = \<lparr>f_Store = Some NewDurableMemory, f_Lease = Some NewMemoryLease\<rparr>"

definition CommitStepFenced ::
  "gotime \<Rightarrow> Snapshot \<Rightarrow> StepArtifact list \<Rightarrow> LeaseGrant \<Rightarrow> Fenced \<Rightarrow> rng
   \<Rightarrow> gerror option \<times> Fenced \<times> rng" where
  "CommitStepFenced now snap arts grant f r =
     (case (f_Store f, f_Lease f) of
        (Some m, Some l) \<Rightarrow>
          if sn_ThreadID snap \<noteq> '''' \<and> lg_ThreadID grant \<noteq> '''' \<and> sn_ThreadID snap \<noteq> lg_ThreadID grant
          then (Some ErrLeaseLost, f, r)
          else (case validateActiveLocked now grant l of
                  Some e \<Rightarrow> (Some e, f, r)
                | None \<Rightarrow>
                  if sn_ThreadID snap = ''''
                  then (Some (Errorf ''checkpoint: CommitStep requires ThreadID'' []), f, r)
                  else if sn_CheckpointID snap = ''''
                  then (Some (Errorf ''checkpoint: CommitStep requires CheckpointID'' []), f, r)
                  else (let (e, m', r') = commitStepLocked now snap arts m r
                        in (e, f\<lparr>f_Store := Some m'\<rparr>, r')))
      | _ \<Rightarrow> (Some ErrLeaseLost, f, r))"

text \<open>
  The methods of \<open>Fenced\<close> that hand over to its store (a nil store panics; \<open>f_get\<close> reads it as
  an empty one, and the model is only used with a store). \<open>Fenced\<close> and its lease as the
  interfaces the engine calls, for a world whose shared state is the \<open>Fenced\<close>.
\<close>

definition f_get :: "Fenced \<Rightarrow> DurableMemory" where
  "f_get f = (case f_Store f of Some m \<Rightarrow> m | None \<Rightarrow> NewDurableMemory)"

definition f_put :: "DurableMemory \<Rightarrow> Fenced \<Rightarrow> Fenced" where
  "f_put m f = f\<lparr>f_Store := Some m\<rparr>"

definition Fenced_store :: "(Fenced, 'u) DurableCheckpointer" where
  "Fenced_store = (DurableMemory_at f_get f_put)
     \<lparr>dc_CommitStepFenced := Some (\<lambda>snap arts grant w.
        (let (e, f, r) = CommitStepFenced (w_clock w) snap arts grant (w_store w) (w_rng w)
         in (e, w\<lparr>w_store := f, w_rng := r\<rparr>)))\<rparr>"

definition l_get :: "Fenced \<Rightarrow> MemoryLease" where
  "l_get f = (case f_Lease f of Some l \<Rightarrow> l | None \<Rightarrow> NewMemoryLease)"

definition Fenced_lease :: "(Fenced, 'u) ExecutionLease" where
  "Fenced_lease =
     \<lparr>el_Acquire = (\<lambda>t rid ttl w.
        (let (a, l) = ML_Acquire (ctx_Err w) (w_clock w) t rid ttl (l_get (w_store w))
         in (a, w\<lparr>w_store := (w_store w)\<lparr>f_Lease := Some l\<rparr>\<rparr>))),
      el_Renew = (\<lambda>grant ttl w.
        (let (a, l) = ML_Renew (ctx_Err w) (w_clock w) grant ttl (l_get (w_store w))
         in (a, w\<lparr>w_store := (w_store w)\<lparr>f_Lease := Some l\<rparr>\<rparr>))),
      el_Release = (\<lambda>grant w.
        (let (e, l) = ML_Release (ctx_Err w) grant (l_get (w_store w))
         in (e, w\<lparr>w_store := (w_store w)\<lparr>f_Lease := Some l\<rparr>\<rparr>)))\<rparr>"

section \<open>What a lease owes its users\<close>

text \<open>
  \<open>epoch\<close> and \<open>owner\<close> read the current epoch and owner of a thread, \<open>valid now g l\<close> is the
  check a fenced commit makes, \<open>step\<close> is any operation on the lease that can happen, at any
  time by anybody. The laws: an operation either raises the thread's epoch or keeps it, and
  then it can only drop the owner; a valid grant is the current owner's, at the current epoch.
\<close>

locale lease_provider =
  fixes epoch :: "'l \<Rightarrow> string \<Rightarrow> int"
    and owner :: "'l \<Rightarrow> string \<Rightarrow> string"
    and valid :: "gotime \<Rightarrow> LeaseGrant \<Rightarrow> 'l \<Rightarrow> bool"
    and ok :: "'l \<Rightarrow> bool"
    and step :: "'l \<Rightarrow> 'l \<Rightarrow> bool"
  assumes step_ok: "ok l \<Longrightarrow> step l l' \<Longrightarrow> ok l'"
    and step_epoch: "ok l \<Longrightarrow> step l l' \<Longrightarrow> epoch l t < max_int64 \<Longrightarrow>
      epoch l t < epoch l' t \<and> epoch l' t = epoch l t + 1
      \<or> epoch l' t = epoch l t \<and> owner l' t \<in> {owner l t, ''''}"
    and valid_current: "ok l \<Longrightarrow> 0 \<le> now \<Longrightarrow> valid now g l \<Longrightarrow>
      lg_Epoch g = epoch l (lg_ThreadID g) \<and> lg_RunID g = owner l (lg_ThreadID g) \<and> lg_RunID g \<noteq> ''''"
begin

lemma steps_epoch:
  assumes "(step ^^ n) l l'" "ok l" "epoch l t + int n \<le> max_int64"
  shows "ok l' \<and> epoch l' t \<le> epoch l t + int n
    \<and> (epoch l t < epoch l' t \<or> epoch l' t = epoch l t \<and> owner l' t \<in> {owner l t, ''''})"
  using assms
proof (induction n arbitrary: l')
  case (Suc n)
  then obtain m where m: "(step ^^ n) l m" "step m l'" by auto
  have le: "epoch l t + int n \<le> max_int64" using Suc.prems(3) by simp
  note ih = Suc.IH [OF m(1) Suc.prems(2) le]
  then have lt: "epoch m t < max_int64" using Suc.prems(3) by simp
  from ih have okm: "ok m" by blast
  from step_epoch [OF okm m(2) lt] step_ok [OF okm m(2)] ih show ?case by auto
qed simp

text \<open>
  Fencing: once a grant was valid, every grant that is valid later has a larger epoch or
  belongs to the same run.
\<close>

lemma fencing:
  assumes "ok l" "0 \<le> now" "valid now g l" "(step ^^ n) l l'" "0 \<le> now'" "valid now' g' l'"
    and "lg_ThreadID g' = lg_ThreadID g" "epoch l (lg_ThreadID g) + int n \<le> max_int64"
  shows "lg_Epoch g < lg_Epoch g' \<or> lg_Epoch g' = lg_Epoch g \<and> lg_RunID g' = lg_RunID g"
proof -
  note s = steps_epoch [OF assms(4,1,8)]
  have "ok l'" using s by blast
  from valid_current [OF assms(1-3)] valid_current [OF this assms(5,6)] s assms(7) show ?thesis by auto
qed

text \<open>A grant below the thread's epoch stays invalid for ever.\<close>

lemma stale_for_ever:
  assumes "ok l" "lg_Epoch g < epoch l (lg_ThreadID g)" "(step ^^ n) l l'" "0 \<le> now"
    and "epoch l (lg_ThreadID g) + int n \<le> max_int64"
  shows "\<not> valid now g l'"
  using steps_epoch [OF assms(3,1,5)] valid_current [OF _ assms(4), of l' g] assms(2) by auto

end

section \<open>MemoryLease provides it\<close>

definition ml_at :: "MemoryLease \<Rightarrow> string \<Rightarrow> memLeaseState" where
  "ml_at l t = (case l t of Some st \<Rightarrow> st | None \<Rightarrow> free_lease)"

definition ml_epoch_at :: "MemoryLease \<Rightarrow> string \<Rightarrow> int" where
  "ml_epoch_at l t = ml_epoch (ml_at l t)"

definition ml_owner_at :: "MemoryLease \<Rightarrow> string \<Rightarrow> string" where
  "ml_owner_at l t = ml_runID (ml_at l t)"

text \<open>
  Epochs are \<open>int64\<close>s, a thread without owner has no expiry, and nobody owns the empty thread id.
\<close>

definition lease_ok :: "MemoryLease \<Rightarrow> bool" where
  "lease_ok l \<longleftrightarrow> ml_runID (ml_at l '''') = ''''
     \<and> (\<forall>t. in_int64 (ml_epoch (ml_at l t)) \<and> (ml_runID (ml_at l t) = '''' \<longrightarrow> ml_expiresAt (ml_at l t) = 0))"

text \<open>
  Any operation of the lease, at any time, with any arguments, also made-up grants: \<open>Renew\<close>
  and \<open>Release\<close> take whatever grant they are given. The clock of a \<open>Renew\<close> is not before Go's
  zero time.
\<close>

inductive ml_step :: "MemoryLease \<Rightarrow> MemoryLease \<Rightarrow> bool" where
  ml_acquire: "ML_Acquire cerr now t rid ttl l = (a, l') \<Longrightarrow> ml_step l l'"
| ml_renew: "0 \<le> now \<Longrightarrow> ML_Renew cerr now g ttl l = (a, l') \<Longrightarrow> ml_step l l'"
| ml_release: "ML_Release cerr g l = (e, l') \<Longrightarrow> ml_step l l'"

lemma ml_at_upd [simp]: "ml_at (l(t \<mapsto> st)) = (ml_at l)(t := st)"
  by (simp add: ml_at_def fun_eq_iff)

lemma free_lease_simps [simp]:
  "ml_runID free_lease = ''''" "ml_epoch free_lease = 0" "ml_expiresAt free_lease = 0"
  by (simp_all add: free_lease_def)

lemma Acquire_eq [store_simps]:
  "ML_Acquire None now t rid ttl l =
     (if t = '''' \<or> rid = '''' then (Inl ErrLeaseLost, l)
      else let ttl = (if ttl \<le> 0 then DefaultLeaseTTL else ttl); st = ml_at l t;
               active = (ml_runID st \<noteq> '''' \<and> ml_expiresAt st > now);
               st' = (if active then st\<lparr>ml_expiresAt := now + ttl\<rparr>
                      else \<lparr>ml_runID = rid, ml_epoch = wrap64 (ml_epoch st + 1), ml_expiresAt = now + ttl\<rparr>)
           in if active \<and> ml_runID st \<noteq> rid then (Inl ErrLeaseHeld, l(t \<mapsto> st))
              else (Inr \<lparr>lg_ThreadID = t, lg_RunID = rid, lg_Epoch = ml_epoch st',
                        lg_ExpiresAt = now + ttl\<rparr>, l(t \<mapsto> st')))"
  by (auto simp: ML_Acquire_def ml_at_def Let_def)

lemma Renew_eq [store_simps]:
  "ML_Renew None now g ttl l =
     (if grant_active now g l
      then let e = now + (if ttl \<le> 0 then DefaultLeaseTTL else ttl); st = ml_at l (lg_ThreadID g)
           in (Inr \<lparr>lg_ThreadID = lg_ThreadID g, lg_RunID = lg_RunID g, lg_Epoch = ml_epoch st,
                   lg_ExpiresAt = e\<rparr>, l(lg_ThreadID g \<mapsto> st\<lparr>ml_expiresAt := e\<rparr>))
      else (Inl ErrLeaseLost, l))"
  by (auto simp: ML_Renew_def ml_at_def grant_active_def Let_def split: option.splits)

lemma Release_eq [store_simps]:
  "ML_Release None g l = (None,
     (case l (lg_ThreadID g) of None \<Rightarrow> l
      | Some st \<Rightarrow> if ml_runID st = lg_RunID g \<and> ml_epoch st = lg_Epoch g
          then l(lg_ThreadID g \<mapsto> st\<lparr>ml_runID := '''', ml_expiresAt := 0\<rparr>) else l))"
  by (auto simp: ML_Release_def split: option.splits)

lemma cancelled_lease [simp]:
  "ML_Acquire (Some e) now t rid ttl l = (Inl e, l)" "ML_Renew (Some e) now g ttl l = (Inl e, l)"
  "ML_Release (Some e) g l = (Some e, l)"
  by (simp_all add: ML_Acquire_def ML_Renew_def ML_Release_def)

lemma grant_active_at:
  "grant_active now g l \<Longrightarrow> ml_runID (ml_at l (lg_ThreadID g)) = lg_RunID g
     \<and> ml_epoch (ml_at l (lg_ThreadID g)) = lg_Epoch g \<and> ml_expiresAt (ml_at l (lg_ThreadID g)) > now"
  by (auto simp: grant_active_def ml_at_def split: option.splits)

text \<open>One operation changes at most one thread, in one of four ways.\<close>

lemma ml_step_cases:
  assumes "ml_step l l'" "lease_ok l"
  obtains (same) "ml_at l' = ml_at l"
    | (extend) t e where "ml_at l' = (ml_at l)(t := (ml_at l t)\<lparr>ml_expiresAt := e\<rparr>)"
        "ml_runID (ml_at l t) \<noteq> ''''"
    | (take_over) t rid e where "rid \<noteq> ''''" "t \<noteq> ''''"
        "ml_at l' = (ml_at l)(t := \<lparr>ml_runID = rid, ml_epoch = wrap64 (ml_epoch (ml_at l t) + 1), ml_expiresAt = e\<rparr>)"
    | (free) t where "ml_at l' = (ml_at l)(t := (ml_at l t)\<lparr>ml_runID := '''', ml_expiresAt := 0\<rparr>)"
  using assms(1)
proof (cases rule: ml_step.cases)
  case (ml_acquire cerr now t rid ttl a)
  show ?thesis
  proof (cases cerr)
    case None
    show ?thesis
    proof (cases "t = '''' \<or> rid = ''''")
      case True
      with ml_acquire None same show ?thesis by (auto simp: Acquire_eq)
    next
      case False
      let ?st = "ml_at l t"
      consider "ml_runID ?st \<noteq> ''''" "ml_expiresAt ?st > now" "ml_runID ?st = rid"
        | "ml_runID ?st \<noteq> ''''" "ml_expiresAt ?st > now" "ml_runID ?st \<noteq> rid"
        | "ml_runID ?st = '''' \<or> \<not> ml_expiresAt ?st > now" by blast
      then show ?thesis
      proof cases
        case a: 1
        have "l' = l(t \<mapsto> ?st\<lparr>ml_expiresAt := now + (if ttl \<le> 0 then DefaultLeaseTTL else ttl)\<rparr>)"
          using ml_acquire None False a by (auto simp: Acquire_eq Let_def)
        then show ?thesis using a(1) by (intro extend) simp_all
      next
        case 2
        with ml_acquire None False have "l' = l(t \<mapsto> ?st)" by (auto simp: Acquire_eq Let_def)
        then have "ml_at l' = ml_at l" by simp
        then show ?thesis by (rule same)
      next
        case 3
        then have na: "(ml_runID ?st \<noteq> '''' \<and> ml_expiresAt ?st > now) = False" by blast
        from ml_acquire None have "l' = snd (ML_Acquire None now t rid ttl l)" by (simp add: prod_eq_iff)
        also have "\<dots> = l(t \<mapsto> \<lparr>ml_runID = rid, ml_epoch = wrap64 (ml_epoch ?st + 1),
            ml_expiresAt = now + (if ttl \<le> 0 then DefaultLeaseTTL else ttl)\<rparr>)"
          unfolding Acquire_eq Let_def na using False by simp
        finally have "l' = l(t \<mapsto> \<lparr>ml_runID = rid, ml_epoch = wrap64 (ml_epoch ?st + 1),
            ml_expiresAt = now + (if ttl \<le> 0 then DefaultLeaseTTL else ttl)\<rparr>)" .
        then show ?thesis using False by (intro take_over [of rid]) simp_all
      qed
    qed
  qed (use ml_acquire same in simp)
next
  case (ml_renew now cerr g ttl a)
  show ?thesis
  proof (cases "cerr = None \<and> grant_active now g l")
    case True
    then have act: "ml_expiresAt (ml_at l (lg_ThreadID g)) > now" using grant_active_at by blast
    with ml_renew(1) assms(2) have "ml_runID (ml_at l (lg_ThreadID g)) \<noteq> ''''" by (force simp: lease_ok_def)
    moreover have "l' = l(lg_ThreadID g \<mapsto> (ml_at l (lg_ThreadID g))
        \<lparr>ml_expiresAt := now + (if ttl \<le> 0 then DefaultLeaseTTL else ttl)\<rparr>)"
      using ml_renew True by (auto simp: Renew_eq Let_def)
    ultimately show ?thesis by (intro extend) simp_all
  next
    case False
    with ml_renew have "l' = l" by (cases cerr) (auto simp: Renew_eq)
    then show ?thesis by (intro same) simp
  qed
next
  case (ml_release cerr g e)
  show ?thesis
  proof (cases "cerr = None \<and> l (lg_ThreadID g) \<noteq> None \<and> ml_runID (ml_at l (lg_ThreadID g)) = lg_RunID g
      \<and> ml_epoch (ml_at l (lg_ThreadID g)) = lg_Epoch g")
    case True
    then obtain st where st: "l (lg_ThreadID g) = Some st" "ml_at l (lg_ThreadID g) = st"
      by (auto simp: ml_at_def)
    have "l' = l(lg_ThreadID g \<mapsto> (ml_at l (lg_ThreadID g))\<lparr>ml_runID := '''', ml_expiresAt := 0\<rparr>)"
      using ml_release True st by (auto simp: Release_eq)
    then show ?thesis by (intro free) simp
  next
    case False
    with ml_release have "l' = l"
      by (cases cerr) (auto simp: Release_eq ml_at_def split: option.splits if_splits)
    then show ?thesis by (intro same) simp
  qed
qed

lemma lease_ok_at: "lease_ok l \<Longrightarrow> in_int64 (ml_epoch (ml_at l t))"
  by (simp add: lease_ok_def)

lemma ml_step_ok: "lease_ok l \<Longrightarrow> ml_step l l' \<Longrightarrow> lease_ok l'"
proof -
  assume ok: "lease_ok l" and st: "ml_step l l'"
  from st ok show "lease_ok l'"
    by (cases rule: ml_step_cases) (use ok in \<open>auto simp: lease_ok_def wrap64_range\<close>)
qed

lemma ml_step_epoch:
  assumes ok: "lease_ok l" and st: "ml_step l l'" and lt: "ml_epoch_at l t < max_int64"
  shows "ml_epoch_at l t < ml_epoch_at l' t \<and> ml_epoch_at l' t = ml_epoch_at l t + 1
      \<or> ml_epoch_at l' t = ml_epoch_at l t \<and> ml_owner_at l' t \<in> {ml_owner_at l t, ''''}"
proof -
  have w: "wrap64 (ml_epoch (ml_at l t) + 1) = ml_epoch (ml_at l t) + 1"
    using lease_ok_at [OF ok, of t] lt
    by (intro wrap64_id) (simp add: in_int64_def ml_epoch_at_def)
  from st ok show ?thesis
    by (cases rule: ml_step_cases) (auto simp: ml_epoch_at_def ml_owner_at_def w)
qed

lemma grant_active_current:
  assumes "lease_ok l" "0 \<le> now" "grant_active now g l"
  shows "lg_Epoch g = ml_epoch_at l (lg_ThreadID g) \<and> lg_RunID g = ml_owner_at l (lg_ThreadID g)
    \<and> lg_RunID g \<noteq> '''' \<and> lg_ThreadID g \<noteq> ''''"
proof -
  note a = grant_active_at [OF assms(3)]
  with assms(1,2) have "ml_runID (ml_at l (lg_ThreadID g)) \<noteq> ''''" by (force simp: lease_ok_def)
  with a assms(1) show ?thesis by (auto simp: ml_epoch_at_def ml_owner_at_def lease_ok_def)
qed

interpretation ml: lease_provider ml_epoch_at ml_owner_at grant_active lease_ok ml_step
  by unfold_locales (use ml_step_ok ml_step_epoch grant_active_current in blast)+

lemma lease_ok_new: "lease_ok NewMemoryLease"
  by (simp add: lease_ok_def NewMemoryLease_def ml_at_def in_int64_def max_int64_def)

end
