(* ===== verification/LeaseProps.thy ===== *)
theory LeaseProps
  imports Lease
begin

text \<open>
  The properties of \<open>MemoryLease\<close> and \<open>Fenced\<close>: what one owner's life with the lease looks
  like, and the fencing guarantee over arbitrary interleavings of the operations of any number
  of runs on one shared \<open>Fenced\<close> store.
\<close>

section \<open>Several runs on one store\<close>

text \<open>
  What the goroutines of several runs can do to the shared store, in the order in which they
  get the mutexes; \<open>SysTick\<close> lets time pass. Nothing binds an operation to the grants handed
  out: a commit, renewal or release may carry any grant, also a forged or outdated one.
\<close>

datatype sys_op =
    SysAcquire string string duration
  | SysRenew LeaseGrant duration
  | SysRelease LeaseGrant
  | SysCommit Snapshot "StepArtifact list" LeaseGrant
  | SysTick nat

type_synonym sys = "Fenced \<times> gotime \<times> rng"

text \<open>One operation; the second result is what it committed: the thread and the grant used.\<close>

fun sys_exec :: "sys_op \<Rightarrow> sys \<Rightarrow> sys \<times> (string \<times> LeaseGrant) list" where
  "sys_exec (SysAcquire t rid ttl) (f, now, r) =
     ((f\<lparr>f_Lease := Some (snd (ML_Acquire None now t rid ttl (l_get f)))\<rparr>, now, r), [])"
| "sys_exec (SysRenew g ttl) (f, now, r) =
     ((f\<lparr>f_Lease := Some (snd (ML_Renew None now g ttl (l_get f)))\<rparr>, now, r), [])"
| "sys_exec (SysRelease g) (f, now, r) =
     ((f\<lparr>f_Lease := Some (snd (ML_Release None g (l_get f)))\<rparr>, now, r), [])"
| "sys_exec (SysCommit snap arts g) (f, now, r) =
     (let (e, f', r') = CommitStepFenced now snap arts g f r
      in ((f', now, r'), if e = None then [(sn_ThreadID snap, g)] else []))"
| "sys_exec (SysTick n) (f, now, r) = ((f, now + int n, r), [])"

fun sys_run :: "sys_op list \<Rightarrow> sys \<Rightarrow> sys \<times> (string \<times> LeaseGrant) list" where
  "sys_run [] s = (s, [])"
| "sys_run (x # xs) s =
     (let (s1, cs1) = sys_exec x s; (s2, cs2) = sys_run xs s1 in (s2, cs1 @ cs2))"

lemma CommitStepFenced_cases:
  assumes "CommitStepFenced now snap arts g f r = (e, f', r')"
  obtains (refused) "e = Some ErrLeaseLost" "f' = f" "r' = r"
    | (invalid) m l where "f_Store f = Some m" "f_Lease f = Some l" "grant_active now g l"
        "e \<noteq> None" "f' = f" "r' = r" "sn_ThreadID snap = '''' \<or> sn_CheckpointID snap = ''''"
    | (ran) m l m' where "f_Store f = Some m" "f_Lease f = Some l" "grant_active now g l"
        "sn_ThreadID snap \<noteq> ''''" "lg_ThreadID g = '''' \<or> lg_ThreadID g = sn_ThreadID snap"
        "DM_CommitStep now snap arts m r = (e, m', r')" "f' = f\<lparr>f_Store := Some m'\<rparr>"
  using assms
  by (auto simp: CommitStepFenced_def validateActiveLocked_def DM_CommitStep_def Let_def
      split: option.splits if_splits prod.splits)

text \<open>An operation is a step of the lease, and a commit needs a grant that is valid then.\<close>

lemma sys_exec_lease:
  assumes "sys_exec x (f, now, r) = ((f', now', r'), cs)" "0 \<le> now"
  shows "(l_get f' = l_get f \<or> ml_step (l_get f) (l_get f')) \<and> 0 \<le> now'
    \<and> (\<forall>(t, g) \<in> set cs. grant_active now g (l_get f) \<and> t \<noteq> '''' \<and> (lg_ThreadID g = '''' \<or> lg_ThreadID g = t))
    \<and> length cs \<le> 1"
proof (cases x)
  case (SysAcquire t rid ttl)
  with assms show ?thesis by (auto simp: l_get_def intro!: ml_acquire prod.collapse [symmetric])
next
  case (SysRenew g ttl)
  with assms show ?thesis by (auto simp: l_get_def intro!: ml_renew prod.collapse [symmetric])
next
  case (SysRelease g)
  with assms show ?thesis by (auto simp: l_get_def intro!: ml_release prod.collapse [symmetric])
next
  case (SysCommit snap arts g)
  obtain e f1 r1 where c: "CommitStepFenced now snap arts g f r = (e, f1, r1)" by (rule prod_cases3)
  with SysCommit assms have eq: "f' = f1" "now' = now" "cs = (if e = None then [(sn_ThreadID snap, g)] else [])"
    by auto
  from c show ?thesis
    by (cases rule: CommitStepFenced_cases) (use eq assms(2) in \<open>auto simp: l_get_def\<close>)
next
  case (SysTick n)
  with assms show ?thesis by simp
qed

lemma sys_run_lease:
  assumes "sys_run ops (f, now, r) = ((f', now', r'), cs)" "0 \<le> now" "lease_ok (l_get f)"
    and "(t, g) \<in> set cs"
  shows "\<exists>n l tm. n \<le> length ops \<and> (ml_step ^^ n) (l_get f) l \<and> 0 \<le> tm \<and> grant_active tm g l
    \<and> lg_ThreadID g = t"
  using assms
proof (induction ops arbitrary: f now r cs)
  case (Cons x ops)
  obtain f1 now1 r1 cs1 where x: "sys_exec x (f, now, r) = ((f1, now1, r1), cs1)"
    by (cases "sys_exec x (f, now, r)", cases "fst (sys_exec x (f, now, r))") auto
  obtain cs2 where ops: "sys_run ops (f1, now1, r1) = ((f', now', r'), cs2)" and cs: "cs = cs1 @ cs2"
    using Cons.prems(1) x by (auto split: prod.splits)
  note e = sys_exec_lease [OF x Cons.prems(2)]
  show ?case
  proof (cases "(t, g) \<in> set cs1")
    case True
    with e have g: "grant_active now g (l_get f)" "lg_ThreadID g = '''' \<or> lg_ThreadID g = t" by auto
    with grant_active_current [OF Cons.prems(3,2) g(1)] have "lg_ThreadID g = t" by auto
    with g(1) Cons.prems(2) show ?thesis by (intro exI [of _ 0] exI [of _ "l_get f"] exI [of _ now]) simp
  next
    case False
    with Cons.prems(4) cs have in2: "(t, g) \<in> set cs2" by simp
    from e Cons.prems(3) have ok1: "lease_ok (l_get f1)" using ml_step_ok by metis
    from e have "0 \<le> now1" by blast
    from Cons.IH [OF ops this ok1 in2] obtain n l tm where n: "n \<le> length ops"
      "(ml_step ^^ n) (l_get f1) l" "0 \<le> tm" "grant_active tm g l" "lg_ThreadID g = t" by blast
    from e consider "l_get f1 = l_get f" | "ml_step (l_get f) (l_get f1)" by blast
    then show ?thesis
    proof cases
      case 1
      with n show ?thesis by (metis le_SucI length_Cons)
    next
      case 2
      then have "(ml_step ^^ Suc n) (l_get f) l" using n(2) by (metis relpowp_Suc_I2)
      with n show ?thesis by (metis Suc_le_mono length_Cons)
    qed
  qed
qed simp

lemma sys_run_steps:
  assumes "0 \<le> now" "sys_run ops (f, now, r) = ((f', now', r'), cs)"
  shows "\<exists>n \<le> length ops. (ml_step ^^ n) (l_get f) (l_get f') \<and> 0 \<le> now'"
  using assms
proof (induction ops arbitrary: f now r cs)
  case (Cons x ops)
  obtain f1 now1 r1 cs1 where x: "sys_exec x (f, now, r) = ((f1, now1, r1), cs1)"
    by (cases "sys_exec x (f, now, r)", cases "fst (sys_exec x (f, now, r))") auto
  obtain cs2 where ops: "sys_run ops (f1, now1, r1) = ((f', now', r'), cs2)"
    using Cons.prems(2) x by (auto split: prod.splits)
  note e = sys_exec_lease [OF x Cons.prems(1)]
  then have "0 \<le> now1" by blast
  from Cons.IH [OF this ops] obtain n where n: "n \<le> length ops" "(ml_step ^^ n) (l_get f1) (l_get f')"
    "0 \<le> now'" by blast
  from e consider "l_get f1 = l_get f" | "ml_step (l_get f) (l_get f1)" by blast
  then show ?case
  proof cases
    case 1
    with n show ?thesis by (metis le_SucI length_Cons)
  next
    case 2
    then have "(ml_step ^^ Suc n) (l_get f) (l_get f')" using n(2) by (metis relpowp_Suc_I2)
    with n show ?thesis by (metis Suc_le_mono length_Cons)
  qed
qed (auto intro: exI [of _ 0])

text \<open>Two grants in the order their commits happened.\<close>

definition fenced_before :: "string \<times> LeaseGrant \<Rightarrow> string \<times> LeaseGrant \<Rightarrow> bool" where
  "fenced_before a b \<longleftrightarrow> fst a = fst b \<longrightarrow>
     lg_Epoch (snd a) < lg_Epoch (snd b)
     \<or> lg_Epoch (snd a) = lg_Epoch (snd b) \<and> lg_RunID (snd a) = lg_RunID (snd b)"

lemma sys_run_fenced:
  assumes "sys_run ops (f, now, r) = (s', cs)" "0 \<le> now" "lease_ok (l_get f)"
    and "\<forall>t. ml_epoch_at (l_get f) t + int (length ops) \<le> max_int64"
  shows "sorted_wrt fenced_before cs"
  using assms
proof (induction ops arbitrary: f now r cs)
  case (Cons x ops)
  obtain f1 now1 r1 cs1 where x: "sys_exec x (f, now, r) = ((f1, now1, r1), cs1)"
    by (cases "sys_exec x (f, now, r)", cases "fst (sys_exec x (f, now, r))") auto
  obtain cs2 where ops: "sys_run ops (f1, now1, r1) = (s', cs2)" and cs: "cs = cs1 @ cs2"
    using Cons.prems(1) x by (auto split: prod.splits)
  obtain f' now' r' where s': "s' = (f', now', r')" by (cases s')
  note e = sys_exec_lease [OF x Cons.prems(2)]
  then have now1: "0 \<le> now1" by blast
  from e consider (same) "l_get f1 = l_get f" | (moved) "ml_step (l_get f) (l_get f1)" by blast
  then obtain k where k: "(ml_step ^^ k) (l_get f) (l_get f1)" "k \<le> 1"
  proof cases
    case same
    then show ?thesis by (intro that [of 0]) simp_all
  next
    case moved
    then show ?thesis by (intro that [of 1]) (simp_all add: eq_OO)
  qed
  have room: "ml_epoch_at (l_get f) t + 1 + int (length ops) \<le> max_int64" for t
    using Cons.prems(4) [rule_format, of t] by simp
  have step1: "lease_ok (l_get f1) \<and> ml_epoch_at (l_get f1) t \<le> ml_epoch_at (l_get f) t + int k" for t
  proof -
    have "ml_epoch_at (l_get f) t + int k \<le> max_int64" using room [of t] k(2) by simp
    from ml.steps_epoch [OF k(1) Cons.prems(3) this] show ?thesis by blast
  qed
  then have ok1: "lease_ok (l_get f1)" by blast
  have room1: "\<forall>t. ml_epoch_at (l_get f1) t + int (length ops) \<le> max_int64"
  proof
    fix t show "ml_epoch_at (l_get f1) t + int (length ops) \<le> max_int64"
      using step1 [of t] room [of t] k(2) by linarith
  qed
  have later: "fenced_before (t, g) (t', g')" if a: "(t, g) \<in> set cs1" and b: "(t', g') \<in> set cs2" for t g t' g'
    unfolding fenced_before_def fst_conv snd_conv
  proof
    assume t: "t = t'"
    from e a have g: "grant_active now g (l_get f)" "lg_ThreadID g = '''' \<or> lg_ThreadID g = t" by auto
    with grant_active_current [OF Cons.prems(3,2) g(1)] have gt: "lg_ThreadID g = t" by auto
    from sys_run_lease [OF ops [unfolded s'] now1 ok1 b] obtain n l tm where n: "n \<le> length ops"
      "(ml_step ^^ n) (l_get f1) l" "0 \<le> tm" "grant_active tm g' l" "lg_ThreadID g' = t'" by blast
    from k(1) n(2) have kn: "(ml_step ^^ (k + n)) (l_get f) l" by (auto simp: relpowp_add)
    have "ml_epoch_at (l_get f) (lg_ThreadID g) + int (k + n) \<le> max_int64"
      using room [of "lg_ThreadID g"] k(2) n(1) by linarith
    from ml.fencing [OF Cons.prems(3,2) g(1) kn n(3,4) _ this] gt n(5) t
    show "lg_Epoch g < lg_Epoch g' \<or> lg_Epoch g = lg_Epoch g' \<and> lg_RunID g = lg_RunID g'" by auto
  qed
  from e have "sorted_wrt fenced_before cs1" by (cases cs1) auto
  with Cons.IH [OF ops now1 ok1 room1] later cs show ?case by (auto simp: sorted_wrt_append)
qed simp

section \<open>The life of a grant\<close>

lemma Acquire_granted:
  assumes "ML_Acquire None now t rid ttl l = (Inr g, l1)" "0 < ttl"
  shows "t \<noteq> '''' \<and> rid \<noteq> '''' \<and> lg_ThreadID g = t \<and> lg_RunID g = rid
    \<and> l1 = l(t \<mapsto> \<lparr>ml_runID = rid, ml_epoch = lg_Epoch g, ml_expiresAt = now + ttl\<rparr>)"
  using assms by (auto simp: Acquire_eq Let_def split: if_splits)

lemma Acquire_free:
  assumes "t \<noteq> ''''" "rid \<noteq> ''''" "ml_runID (ml_at l t) = '''' \<or> \<not> ml_expiresAt (ml_at l t) > now"
  shows "ML_Acquire None now t rid ttl l =
    (let e = now + (if ttl \<le> 0 then DefaultLeaseTTL else ttl); n = wrap64 (ml_epoch (ml_at l t) + 1)
     in (Inr \<lparr>lg_ThreadID = t, lg_RunID = rid, lg_Epoch = n, lg_ExpiresAt = e\<rparr>,
         l(t \<mapsto> \<lparr>ml_runID = rid, ml_epoch = n, ml_expiresAt = e\<rparr>)))"
proof -
  have na: "(ml_runID (ml_at l t) \<noteq> '''' \<and> ml_expiresAt (ml_at l t) > now) = False" using assms(3) by blast
  show ?thesis unfolding Acquire_eq Let_def na using assms(1,2) by simp
qed

text \<open>
  C17: The life of one owner of a \<open>MemoryLease\<close>. A run that acquires a thread at time \<open>now\<close> for
  \<open>ttl\<close> is protected until \<open>now + ttl\<close>: its grant stays valid, every other run's \<open>Acquire\<close> is
  refused with \<open>ErrLeaseHeld\<close> and changes nobody's lease, and its own second \<open>Acquire\<close> or a
  \<open>Renew\<close> keeps the epoch and moves the expiry. From \<open>now + ttl\<close> on the grant is dead: \<open>Renew\<close>
  answers \<open>ErrLeaseLost\<close> and leaves the lease alone, and another run takes the thread over with
  the next epoch. After \<open>Release\<close> the grant is dead at once, a second \<open>Release\<close> is a no-op, and
  another run gets the thread immediately, again with the next epoch.
\<close>

theorem MemoryLease_ownership:
  assumes "ML_Acquire None now t rid ttl l = (Inr g, l1)" "0 < ttl" "0 \<le> now"
    and "other \<noteq> rid" "other \<noteq> ''''" "0 < ttl'"
  shows "(\<forall>tm. tm < now + ttl \<longrightarrow>
            grant_active tm g l1
            \<and> fst (ML_Acquire None tm t other ttl' l1) = Inl ErrLeaseHeld
            \<and> snd (ML_Acquire None tm t other ttl' l1) = l1
            \<and> fst (ML_Acquire None tm t rid ttl' l1) = Inr (g\<lparr>lg_ExpiresAt := tm + ttl'\<rparr>)
            \<and> ML_Renew None tm g ttl' l1 = ML_Acquire None tm t rid ttl' l1)
    \<and> (\<forall>tm. now + ttl \<le> tm \<longrightarrow>
            ML_Renew None tm g ttl' l1 = (Inl ErrLeaseLost, l1)
            \<and> fst (ML_Acquire None tm t other ttl' l1)
                = Inr \<lparr>lg_ThreadID = t, lg_RunID = other, lg_Epoch = wrap64 (lg_Epoch g + 1),
                       lg_ExpiresAt = tm + ttl'\<rparr>)
    \<and> (let l2 = snd (ML_Release None g l1)
       in \<forall>tm \<ge> 0. \<not> grant_active tm g l2
            \<and> snd (ML_Release None g l2) = l2
            \<and> fst (ML_Acquire None tm t other ttl' l2)
                = Inr \<lparr>lg_ThreadID = t, lg_RunID = other, lg_Epoch = wrap64 (lg_Epoch g + 1),
                       lg_ExpiresAt = tm + ttl'\<rparr>)"
proof -
  note a = Acquire_granted [OF assms(1,2)]
  define st where "st = \<lparr>ml_runID = rid, ml_epoch = lg_Epoch g, ml_expiresAt = now + ttl\<rparr>"
  have l1: "l1 t = Some st" "ml_at l1 t = st" using a by (simp_all add: st_def ml_at_def)
  have g: "lg_ThreadID g = t" "lg_RunID g = rid" "t \<noteq> ''''" "rid \<noteq> ''''" using a by auto
  have st: "ml_runID st = rid" "ml_epoch st = lg_Epoch g" "ml_expiresAt st = now + ttl" by (simp_all add: st_def)
  have valid: "grant_active tm g l1 \<longleftrightarrow> tm < now + ttl" for tm
    using l1 g st by (simp add: grant_active_def)
  have upd: "l1(t \<mapsto> st) = l1" using l1 by auto
  define l2 where "l2 = l1(t \<mapsto> st\<lparr>ml_runID := '''', ml_expiresAt := 0\<rparr>)"
  have rel: "snd (ML_Release None g l1) = l2" using l1 g st by (simp add: Release_eq l2_def)
  have l2: "l2 t = Some (st\<lparr>ml_runID := '''', ml_expiresAt := 0\<rparr>)"
    "ml_at l2 t = st\<lparr>ml_runID := '''', ml_expiresAt := 0\<rparr>" by (simp_all add: l2_def)
  have live: "fst (ML_Acquire None tm t other ttl' l1) = Inl ErrLeaseHeld"
    "snd (ML_Acquire None tm t other ttl' l1) = l1"
    "ML_Acquire None tm t rid ttl' l1 = (Inr (g\<lparr>lg_ExpiresAt := tm + ttl'\<rparr>), l1(t \<mapsto> st\<lparr>ml_expiresAt := tm + ttl'\<rparr>))"
    "ML_Renew None tm g ttl' l1 = ML_Acquire None tm t rid ttl' l1"
    if "tm < now + ttl" for tm
    using that l1 g st assms(4-6) upd valid [of tm]
    by (cases g; simp add: Acquire_eq Renew_eq Let_def)+
  have dead: "ML_Renew None tm g ttl' l1 = (Inl ErrLeaseLost, l1)"
    "fst (ML_Acquire None tm t other ttl' l1) = Inr \<lparr>lg_ThreadID = t, lg_RunID = other,
        lg_Epoch = wrap64 (lg_Epoch g + 1), lg_ExpiresAt = tm + ttl'\<rparr>"
    if "now + ttl \<le> tm" for tm
    using that l1 g st assms(4-6) valid [of tm]
    by (simp_all add: Renew_eq Acquire_free Let_def)
  have released: "\<not> grant_active tm g l2" "snd (ML_Release None g l2) = l2"
    "fst (ML_Acquire None tm t other ttl' l2) = Inr \<lparr>lg_ThreadID = t, lg_RunID = other,
        lg_Epoch = wrap64 (lg_Epoch g + 1), lg_ExpiresAt = tm + ttl'\<rparr>" if "0 \<le> tm" for tm
    using that l2 g st assms(4-6)
    by (simp_all add: grant_active_def Release_eq Acquire_free Let_def)
  from valid live dead released show ?thesis by (simp add: rel)
qed

theorem MemoryLease_ownership_witness:
  "fst (ML_Acquire None 14 ''t'' ''b'' 5 (snd (ML_Acquire None 5 ''t'' ''a'' 10 NewMemoryLease))) = Inl ErrLeaseHeld"
proof -
  have "ML_Acquire None 5 ''t'' ''a'' 10 NewMemoryLease =
    (Inr \<lparr>lg_ThreadID = ''t'', lg_RunID = ''a'', lg_Epoch = 1, lg_ExpiresAt = 15\<rparr>,
     [''t'' \<mapsto> \<lparr>ml_runID = ''a'', ml_epoch = 1, ml_expiresAt = 15\<rparr>])"
    by (simp add: ML_Acquire_def NewMemoryLease_def free_lease_def wrap64_def)
  from MemoryLease_ownership [OF this, of "''b''" 5] this show ?thesis by simp
qed

section \<open>Fencing\<close>

text \<open>
  C15: Fenced commits never go back to a former owner. On a new \<open>Fenced\<close> store let any number of
  runs acquire, renew and release leases and commit steps in any interleaving, with any grants
  (also outdated or forged ones) and clocks that do not run backwards: among the commits to one
  thread that succeeded, a later one carries a larger epoch than an earlier one, or the same epoch
  and the same run. In particular, a run whose lease expired and was taken over cannot commit
  any more once the new owner exists.
\<close>

theorem fenced_commits_ordered:
  assumes "sys_run ops (NewFencedMemory, now, r) = (s', commits)" "0 \<le> now"
    and "int (length ops) \<le> max_int64"
  shows "sorted_wrt fenced_before commits"
proof (rule sys_run_fenced [OF assms(1,2)])
  have "l_get NewFencedMemory = NewMemoryLease" by (simp add: l_get_def NewFencedMemory_def)
  then show "lease_ok (l_get NewFencedMemory)"
    "\<forall>t. ml_epoch_at (l_get NewFencedMemory) t + int (length ops) \<le> max_int64"
    using assms(3) lease_ok_new by (simp_all add: ml_epoch_at_def ml_at_def NewMemoryLease_def)
qed

text \<open>
  C16: A superseded grant is useless for ever. If the thread's epoch has moved past the grant's,
  then after any further operations of any runs \<open>CommitStepFenced\<close> with it answers
  \<open>ErrLeaseLost\<close> and changes neither store nor lease, and \<open>Renew\<close> answers \<open>ErrLeaseLost\<close> too.
\<close>

theorem superseded_grant_refused:
  assumes "lease_ok (l_get f)" "lg_Epoch g < ml_epoch_at (l_get f) (lg_ThreadID g)" "0 \<le> now"
    and "sys_run ops (f, now, r) = ((f', now', r'), commits)"
    and "ml_epoch_at (l_get f) (lg_ThreadID g) + int (length ops) \<le> max_int64"
  shows "CommitStepFenced now' snap arts g f' r' = (Some ErrLeaseLost, f', r')
    \<and> ML_Renew None now' g ttl (l_get f') = (Inl ErrLeaseLost, l_get f')"
proof -
  from sys_run_steps [OF assms(3,4)] obtain n where n: "n \<le> length ops"
    "(ml_step ^^ n) (l_get f) (l_get f')" "0 \<le> now'" by blast
  have "ml_epoch_at (l_get f) (lg_ThreadID g) + int n \<le> max_int64" using assms(5) n(1) by linarith
  from ml.stale_for_ever [OF assms(1,2) n(2,3) this] have stale: "\<not> grant_active now' g (l_get f')" .
  then have "ML_Renew None now' g ttl (l_get f') = (Inl ErrLeaseLost, l_get f')" by (simp add: Renew_eq)
  moreover have "CommitStepFenced now' snap arts g f' r' = (Some ErrLeaseLost, f', r')"
    using stale by (auto simp: CommitStepFenced_def validateActiveLocked_def l_get_def split: option.splits)
  ultimately show ?thesis by blast
qed

section \<open>Two runs, one thread\<close>

definition fence_grant :: "string \<Rightarrow> int \<Rightarrow> LeaseGrant" where
  "fence_grant rid n = \<lparr>lg_ThreadID = ''default'', lg_RunID = rid, lg_Epoch = n, lg_ExpiresAt = 0\<rparr>"

text \<open>Run \<open>b\<close> takes the thread over when \<open>a\<close>'s lease of 10 ns has run out; \<open>a\<close> tries to go on.\<close>

definition fence_story :: "sys_op list" where
  "fence_story =
     [SysAcquire ''default'' ''a'' 10, SysCommit (sample_snap ''c1'' '''') [] (fence_grant ''a'' 1),
      SysTick 20, SysAcquire ''default'' ''b'' 10,
      SysCommit (sample_snap ''c2'' ''c1'') [] (fence_grant ''b'' 2),
      SysCommit (sample_snap ''c3'' ''c2'') [] (fence_grant ''a'' 1)]"

lemmas run_story =
  fence_story_def fence_grant_def CommitStepFenced_def validateActiveLocked_def commitStepLocked_def
  threadLocked_def new_thread_def parent_refs_def NewFencedMemory_def NewDurableMemory_def
  NewMemoryLease_def ML_Acquire_def free_lease_def grant_active_def l_get_def wrap64_def Let_def

lemma story_commits:
  "snd (sys_run fence_story (NewFencedMemory, 5, sample_rng))
     = [(''default'', fence_grant ''a'' 1), (''default'', fence_grant ''b'' 2)]"
  by (simp add: run_story)

theorem fenced_commits_ordered_witness:
  "sorted_wrt fenced_before [(''default'', fence_grant ''a'' 1), (''default'', fence_grant ''b'' 2)]"
proof -
  obtain s' where "sys_run fence_story (NewFencedMemory, 5, sample_rng)
      = (s', [(''default'', fence_grant ''a'' 1), (''default'', fence_grant ''b'' 2)])"
    using story_commits by (metis surjective_pairing)
  from fenced_commits_ordered [OF this] show ?thesis by (simp add: fence_story_def max_int64_def)
qed

definition taken_over :: Fenced where
  "taken_over = \<lparr>f_Store = Some NewDurableMemory,
     f_Lease = Some [''default'' \<mapsto> \<lparr>ml_runID = ''b'', ml_epoch = 2, ml_expiresAt = 30\<rparr>]\<rparr>"

theorem superseded_grant_refused_witness:
  "let ((f', now', r'), commits) = sys_run [SysTick 20, SysAcquire ''default'' ''a'' 10] (taken_over, 15, sample_rng)
   in CommitStepFenced now' (sample_snap ''c3'' ''c2'') [] (fence_grant ''a'' 1) f' r' = (Some ErrLeaseLost, f', r')
     \<and> l_get f' ''default'' = Some \<lparr>ml_runID = ''a'', ml_epoch = 3, ml_expiresAt = 45\<rparr>"
proof -
  have ok: "lease_ok (l_get taken_over)"
    "lg_Epoch (fence_grant ''a'' 1) < ml_epoch_at (l_get taken_over) (lg_ThreadID (fence_grant ''a'' 1))"
    "ml_epoch_at (l_get taken_over) (lg_ThreadID (fence_grant ''a'' 1))
       + int (length [SysTick 20, SysAcquire ''default'' ''a'' 10]) \<le> max_int64"
    by (auto simp: lease_ok_def l_get_def taken_over_def ml_at_def ml_epoch_at_def fence_grant_def
        in_int64_def max_int64_def split: if_splits)
  obtain f' now' r' commits where run: "sys_run [SysTick 20, SysAcquire ''default'' ''a'' 10]
      (taken_over, 15, sample_rng) = ((f', now', r'), commits)" by (metis surjective_pairing)
  then have "l_get f' ''default'' = Some \<lparr>ml_runID = ''a'', ml_epoch = 3, ml_expiresAt = 45\<rparr>"
    by (auto simp: taken_over_def run_story)
  with superseded_grant_refused [OF ok(1,2) _ run ok(3)] run show ?thesis by simp
qed

end
