(* ===== verification/EngineStore.thy ===== *)
theory EngineStore
  imports Recovery LeaseProps
begin

text \<open>
  The engine on the stores of the repository: \<open>DurableMemory\<close> and \<open>Fenced\<close> meet the contract
  \<open>run_store\<close>, and the lease of \<open>Fenced\<close> leaves checkpoints alone. The properties about runs
  that are invoked, paused, interrupted and resumed are stated here over the concrete stores.
\<close>

section \<open>DurableMemory meets the contract\<close>

definition dm_latest :: "DurableMemory \<Rightarrow> string \<Rightarrow> Snapshot option" where
  "dm_latest m t = DM_GetLatest t m"

text \<open>The checkpoint ids in a thread's history: a commit under one of them is taken for a retry.\<close>

definition dm_known :: "DurableMemory \<Rightarrow> string \<Rightarrow> string set" where
  "dm_known m t = sn_CheckpointID ` set (mt_history (thread_at m t))"

text \<open>A graph compiled with a \<open>DurableMemory\<close> and without a lease.\<close>

definition dm_uses :: "(DurableMemory, 'u) Compiled \<Rightarrow> bool" where
  "dm_uses g \<longleftrightarrow> g_durable g = Some dm_store \<and> g_lease g = None"

lemma dm_latest_threads: "thread_at m' = thread_at m \<Longrightarrow> dm_latest m' t = dm_latest m t"
  by (simp add: dm_latest_def GetLatest_thread)

lemma commit_new:
  assumes c: "DM_CommitStep now snap arts m r = (None, m', r')" and t: "sn_ThreadID snap = t"
    and new: "sn_CheckpointID snap \<notin> dm_known m t"
  shows "dm_known m' t = insert (sn_CheckpointID snap) (dm_known m t)
    \<and> (\<exists>rv c. dm_latest m' t = Some (snap\<lparr>sn_Revision := rv, sn_CreatedAt := c\<rparr>))"
  using c
proof (cases rule: CommitStep_cases)
  case (retry s)
  then have "sn_CheckpointID snap \<in> dm_known m t" using t by (metis dm_known_def imageI)
  with new show ?thesis by simp
next
  case (append refs t1)
  let ?s = "appended now snap (thread_at m t)"
  have h: "mt_history (thread_at m' t) = mt_history (thread_at m t) @ [?s]"
    and l: "mt_latestID (thread_at m' t) = sn_CheckpointID snap"
    using append t commit_artifacts_frame [OF append(6)] by auto
  have "dm_latest m' t = Some ?s"
    using h l append(3) by (simp add: dm_latest_def GetLatest_thread)
  then have "\<exists>rv c. dm_latest m' t = Some (snap\<lparr>sn_Revision := rv, sn_CreatedAt := c\<rparr>)"
    unfolding appended_def by blast
  with h show ?thesis by (auto simp: dm_known_def)
qed simp_all

lemma commit_failed:
  assumes c: "DM_CommitStep now snap arts m r = (Some e, m', r')"
  shows "AsInterrupt e = None \<and> thread_at m' = thread_at m"
proof
  show "AsInterrupt e = None" using c by (cases rule: CommitStep_cases) auto
  show "thread_at m' = thread_at m" using CommitStep_rejected(1) [OF c] by (rule ext)
qed

section \<open>Stores that keep a DurableMemory\<close>

text \<open>
  What a commit can do to a store that keeps its checkpoints in a \<open>DurableMemory\<close>, at the place
  \<open>get\<close> reads: refuse without touching anything, or commit to the \<open>DurableMemory\<close>.
\<close>

definition commits_to ::
  "('s \<Rightarrow> DurableMemory) \<Rightarrow> Snapshot \<Rightarrow> StepArtifact list \<Rightarrow> ('s, 'u) World
   \<Rightarrow> gerror option \<times> ('s, 'u) World \<Rightarrow> bool" where
  "commits_to get snap arts w out \<longleftrightarrow>
     (\<exists>e. out = (Some e, w) \<and> AsInterrupt e = None)
     \<or> (\<exists>now m' r'. DM_CommitStep now snap arts (get (w_store w)) (w_rng w) = (fst out, m', r')
          \<and> get (w_store (snd out)) = m' \<and> w_rng (snd out) = r')"

locale memory_backed =
  fixes uses :: "('s, 'u) Compiled \<Rightarrow> bool"
    and get :: "'s \<Rightarrow> DurableMemory"
    and ok :: "'s \<Rightarrow> bool"
  assumes has_durable: "uses g \<Longrightarrow> g_durable g \<noteq> None"
    and loads: "uses g \<Longrightarrow> ok (w_store w) \<Longrightarrow> loadLatest g t w = Inr (DM_GetLatest t (get (w_store w)))"
    and persists: "uses g \<Longrightarrow> ok (w_store w) \<Longrightarrow>
      commits_to get snap arts w (persist g cfg snap arts w)
      \<and> ok (w_store (snd (persist g cfg snap arts w)))"
    and draws: "uses g \<Longrightarrow> persist g cfg snap arts w = (e, w') \<Longrightarrow>
      rng_reads (w_rng w') = rng_reads (w_rng w) \<and> rng_pos (w_rng w) \<le> rng_pos (w_rng w')"

sublocale memory_backed \<subseteq>
  run_store uses "\<lambda>s. dm_latest (get s)" "\<lambda>s. dm_known (get s)" ok
proof (unfold_locales, goal_cases)
  case (1 g)
  then show ?case using has_durable by (simp add: hasStore_def)
next
  case (2 g w t)
  then show ?case by (simp add: loads dm_latest_def)
next
  case (3 g w cfg snap arts w')
  with persists [OF 3(1,2), of snap arts cfg] obtain now r' where
    c: "DM_CommitStep now snap arts (get (w_store w)) (w_rng w) = (None, get (w_store w'), r')"
    and ok: "ok (w_store w')" by (auto simp: commits_to_def)
  from commit_new [OF c 3(4,5)] ok show ?case by auto
next
  case (4 g w cfg snap arts e w')
  with persists [OF 4(1,2), of snap arts cfg] have ok: "ok (w_store w')"
    and "w' = w \<and> AsInterrupt e = None
      \<or> (\<exists>now r'. DM_CommitStep now snap arts (get (w_store w)) (w_rng w) = (Some e, get (w_store w'), r'))"
    by (auto simp: commits_to_def)
  then show ?case
    using commit_failed dm_latest_threads dm_known_def by (metis order_refl)
next
  case (5 g cfg snap arts w e w')
  then show ?case by (rule draws)
qed

lemma DM_CommitStep_rng:
  assumes "DM_CommitStep now snap arts m r = (e, m', r')"
  shows "rng_reads r' = rng_reads r \<and> rng_pos r \<le> rng_pos r'"
  using assms
proof (cases rule: CommitStep_cases)
  case (append refs t1)
  then show ?thesis using commit_artifacts_frame by blast
qed simp_all

lemma leaseLostFrom_AsInterrupt: "leaseLostFrom w = Some e \<Longrightarrow> AsInterrupt e = None"
  by (auto dest: leaseLostFrom_SomeD)

section \<open>The stores of the repository\<close>

interpretation dm: memory_backed dm_uses "\<lambda>m. m" "\<lambda>m. True"
proof (unfold_locales, goal_cases)
  case (1 g)
  then show ?case by (simp add: dm_uses_def)
next
  case (2 g w t)
  then show ?case by (simp add: dm_uses_def loadLatest_def DurableMemory_at_def)
next
  case (3 g w snap arts cfg)
  then show ?case
    by (auto simp: dm_uses_def persist_def DurableMemory_at_def on_store_def commits_to_def Let_def
        split: option.splits prod.splits dest: leaseLostFrom_AsInterrupt)
next
  case (4 g cfg snap arts w e w')
  then show ?case
    by (auto simp: dm_uses_def persist_def DurableMemory_at_def on_store_def Let_def
        split: option.splits prod.splits dest: DM_CommitStep_rng)
qed

text \<open>A graph compiled with a \<open>Fenced\<close> store, with or without its lease.\<close>

definition fenced_uses :: "(Fenced, 'u) Compiled \<Rightarrow> bool" where
  "fenced_uses g \<longleftrightarrow> g_durable g = Some Fenced_store \<and> g_lease g \<in> {None, Some Fenced_lease}"

lemma fenced_commit_rng:
  assumes "CommitStepFenced now snap arts g f r = (e, f', r')"
  shows "rng_reads r' = rng_reads r \<and> rng_pos r \<le> rng_pos r'"
  using assms
proof (cases rule: CommitStepFenced_cases)
  case (ran m l m')
  with DM_CommitStep_rng [OF ran(6)] show ?thesis by simp
qed simp_all

lemma fenced_commit:
  assumes "CommitStepFenced now snap arts g f r = (e, f', r')" "f_Store f \<noteq> None"
  shows "f_Store f' \<noteq> None
    \<and> ((\<exists>x. e = Some x \<and> f' = f \<and> r' = r \<and> AsInterrupt x = None)
       \<or> DM_CommitStep now snap arts (f_get f) r = (e, f_get f', r'))"
  using assms(1)
proof (cases rule: CommitStepFenced_cases)
  case (invalid m l)
  have "\<exists>x. e = Some x \<and> AsInterrupt x = None"
    using assms(1) invalid by (auto simp: CommitStepFenced_def validateActiveLocked_def split: if_splits)
  with invalid assms(2) show ?thesis by auto
next
  case (ran m l m')
  then show ?thesis by (simp add: f_get_def)
qed (use assms in auto)

lemma fenced_commits_to:
  assumes "CommitStepFenced now snap arts g (w_store w) (w_rng w) = (e, f', r')" "f_Store (w_store w) \<noteq> None"
  shows "commits_to f_get snap arts w (e, w\<lparr>w_store := f', w_rng := r'\<rparr>) \<and> f_Store f' \<noteq> None"
  using fenced_commit [OF assms] by (auto simp: commits_to_def)

lemma Fenced_store_simps:
  "dc_CommitStep Fenced_store = (\<lambda>snap arts. on_store f_get f_put (\<lambda>now. DM_CommitStep now snap arts))"
  "dc_GetLatest Fenced_store = (\<lambda>t w. Inr (DM_GetLatest t (f_get (w_store w))))"
  "dc_CommitStepFenced Fenced_store = Some (\<lambda>snap arts grant w.
     (let (e, f, r) = CommitStepFenced (w_clock w) snap arts grant (w_store w) (w_rng w)
      in (e, w\<lparr>w_store := f, w_rng := r\<rparr>)))"
  by (simp_all add: Fenced_store_def DurableMemory_at_def)

interpretation fenced: memory_backed fenced_uses f_get "\<lambda>f. f_Store f \<noteq> None"
proof (unfold_locales, goal_cases)
  case (1 g)
  then show ?case by (simp add: fenced_uses_def)
next
  case (2 g w t)
  then show ?case by (simp add: fenced_uses_def loadLatest_def Fenced_store_simps)
next
  case (3 g w snap arts cfg)
  show ?case
  proof (cases "leaseLostFrom w")
    case (Some e)
    with 3 show ?thesis by (auto simp: persist_def commits_to_def dest: leaseLostFrom_AsInterrupt)
  next
    case live: None
    show ?thesis
    proof (cases "g_lease g")
      case None
      with 3 live show ?thesis
        by (auto simp: fenced_uses_def persist_def Fenced_store_simps on_store_def commits_to_def
            f_put_def f_get_def Let_def split: prod.splits)
    next
      case (Some l)
      show ?thesis
      proof (cases "w_sess w")
        case None
        with 3 live Some show ?thesis
          by (auto simp: fenced_uses_def persist_def Fenced_store_simps commits_to_def)
      next
        case (Some gr)
        obtain e f r where c: "CommitStepFenced (w_clock w) snap arts gr (w_store w) (w_rng w) = (e, f, r)"
          by (rule prod_cases3)
        then have "persist g cfg snap arts w = (e, w\<lparr>w_store := f, w_rng := r\<rparr>)"
          using 3 live \<open>g_lease g = Some l\<close> Some by (auto simp: fenced_uses_def persist_def Fenced_store_simps)
        with fenced_commits_to [OF c 3(2)] show ?thesis by simp
      qed
    qed
  qed
next
  case (4 g cfg snap arts w e w')
  then show ?case
    by (auto simp: fenced_uses_def persist_def Fenced_store_simps on_store_def Let_def
        split: option.splits prod.splits dest: DM_CommitStep_rng fenced_commit_rng)
qed

text \<open>Taking, renewing and giving back the lease of \<open>Fenced\<close> touches no checkpoint.\<close>

lemma fenced_calm_lease:
  assumes "fenced_uses g"
  shows "calm_lease (\<lambda>f. dm_latest (f_get f)) (\<lambda>f. dm_known (f_get f)) (\<lambda>f. f_Store f \<noteq> None) t g"
proof -
  have c: "calm (\<lambda>f. dm_latest (f_get f)) (\<lambda>f. dm_known (f_get f)) (\<lambda>f. f_Store f \<noteq> None) t w
      (w\<lparr>w_store := (w_store w)\<lparr>f_Lease := l\<rparr>\<rparr>)" for w :: "(Fenced, 'a) World" and l
    by (simp add: calm_def f_get_def)
  have ni: "AsInterrupt e = None"
    if "ML_Acquire (ctx_Err w) now t rid ttl l = (Inl e, l')" for w :: "(Fenced, 'a) World" and now t rid ttl l e l'
    using that ctx_Err_not_interrupt [of w]
    by (cases "ctx_Err w") (auto simp: Acquire_eq Let_def split: if_splits)
  show ?thesis
    using assms c ni
    by (auto simp: fenced_uses_def calm_lease_def Fenced_lease_def Let_def split: prod.splits)
qed

end
