(* ===== verification/Liveness.thy ===== *)
theory Liveness
  imports EngineStore
begin

text \<open>
  Runs that finish. As long as the run is not cancelled, its lease lasts and nobody else
  commits to its thread, every checkpoint succeeds, and a graph whose nodes lead to the end
  is run to the end. The store's part in this is the locale \<open>live_store\<close>.
\<close>

section \<open>Quiet nodes\<close>

text \<open>A change of the world in what nodes and handlers keep, and nothing else.\<close>

definition idle :: "('s, 'u) World \<Rightarrow> ('s, 'u) World \<Rightarrow> bool" where
  "idle w w' \<longleftrightarrow> w_store w' = w_store w \<and> w_clock w' = w_clock w \<and> w_rng w' = w_rng w
     \<and> w_caller w' = w_caller w \<and> w_cancel w' = w_cancel w \<and> w_sess w' = w_sess w
     \<and> w_collectors w' = w_collectors w"

text \<open>The node \<open>fn\<close> computes the update \<open>f\<close> of its state, without error.\<close>

definition computes :: "('s, 'u) NodeFunc \<Rightarrow> (State \<Rightarrow> Update) \<Rightarrow> bool" where
  "computes fn f \<longleftrightarrow>
     (\<forall>ctx s w. fst (fn ctx s w) = \<lparr>nr_Update = f s, nr_Err = None, nr_State = s\<rparr>
        \<and> idle w (snd (fn ctx s w)))"

definition follows_plan :: "('s, 'u) Compiled \<Rightarrow> (string \<Rightarrow> (State \<Rightarrow> Update) option) \<Rightarrow> bool" where
  "follows_plan g plan \<longleftrightarrow>
     (\<forall>n. (case plan n of None \<Rightarrow> g_nodes g n = None
           | Some f \<Rightarrow> \<exists>fn. g_nodes g n = Some fn \<and> computes fn f))
     \<and> (\<forall>n s ctx ctx'. next_node g ctx n s = next_node g ctx' n s)"

definition quiet_handler :: "('s, 'u) EventHandler option \<Rightarrow> bool" where
  "quiet_handler h \<longleftrightarrow> (\<forall>f. h = Some f \<longrightarrow> (\<forall>e w. idle w (f e w)))"

text \<open>
  The point \<open>k\<close> rounds after a node and a state, by the plan, when none of the rounds starts
  at the end or fails to route.
\<close>

fun walk ::
  "('s, 'u) Compiled \<Rightarrow> (string \<Rightarrow> (State \<Rightarrow> Update) option) \<Rightarrow> nat \<Rightarrow> string \<Rightarrow> State
   \<Rightarrow> (string \<times> State) option" where
  "walk g plan 0 n s = Some (n, s)"
| "walk g plan (Suc k) n s =
     (if n = '''' \<or> n = END then None
      else (case plan n of
              None \<Rightarrow> None
            | Some f \<Rightarrow>
                (let s' = Apply s (f s) (g_reducers g)
                 in case next_node g Background n s' of Inl e \<Rightarrow> None | Inr n' \<Rightarrow> walk g plan k n' s')))"

lemma walk_SucE:
  assumes "walk g plan (Suc k) n s = Some x"
  obtains f n' where "n \<notin> {'''', END}" "plan n = Some f"
    "next_node g Background n (Apply s (f s) (g_reducers g)) = Inr n'"
    "walk g plan k n' (Apply s (f s) (g_reducers g)) = Some x"
  using assms by (auto simp: Let_def split: if_splits option.splits sum.splits)

lemma walk_last:
  "walk g plan (Suc m) n s = Some (n', s') \<Longrightarrow>
    \<exists>f n1 s1. walk g plan m n s = Some (n1, s1) \<and> n1 \<notin> {'''', END} \<and> plan n1 = Some f
      \<and> s' = Apply s1 (f s1) (g_reducers g) \<and> next_node g Background n1 s' = Inr n'"
proof (induction m arbitrary: n s)
  case 0
  then show ?case by (elim walk_SucE) auto
next
  case (Suc m)
  from Suc.prems obtain f n1 where f: "n \<notin> {'''', END}" "plan n = Some f"
    "next_node g Background n (Apply s (f s) (g_reducers g)) = Inr n1"
    "walk g plan (Suc m) n1 (Apply s (f s) (g_reducers g)) = Some (n', s')" by (rule walk_SucE)
  from Suc.IH [OF f(4)] f(1-3) show ?case by (simp add: Let_def)
qed

lemma idle_refl [simp]: "idle w w"
  by (simp add: idle_def)

lemma idle_trans: "idle w w' \<Longrightarrow> idle w' w'' \<Longrightarrow> idle w w''"
  by (simp add: idle_def)

lemma idle_calm: "idle w w' \<Longrightarrow> calm l k i t w w'"
  by (auto simp: idle_def intro: calm_same_store)

lemma idle_emit:
  assumes "quiet_handler (handler_of ctx cfg)"
  shows "idle w (emit ctx cfg e w)"
proof -
  obtain e' where "emit ctx cfg e w = (case handler_of ctx cfg of None \<Rightarrow> w
       | Some f \<Rightarrow> (f e' w)\<lparr>w_trace := w_trace w @ [e']\<rparr>)"
    by (fastforce simp: emit_def handler_of_def safeEmit_def Let_def split: option.splits)
  with assms show ?thesis
    by (auto simp: quiet_handler_def idle_def split: option.splits)
qed

lemma follows_plan_node:
  "follows_plan g plan \<Longrightarrow> (case plan n of None \<Rightarrow> g_nodes g n = None
     | Some f \<Rightarrow> \<exists>fn. g_nodes g n = Some fn \<and> computes fn f)"
  by (simp add: follows_plan_def)

lemma follows_plan_next: "follows_plan g plan \<Longrightarrow> next_node g ctx n s = next_node g Background n s"
  unfolding follows_plan_def by blast

lemma quiet_calm_run:
  assumes "follows_plan g plan" "quiet_handler h"
  shows "calm_run l k i g cfg h"
  unfolding calm_run_def
proof (intro conjI allI impI)
  fix n fn ctx s w
  assume "g_nodes g n = Some fn"
  with follows_plan_node [OF assms(1), of n] have "\<exists>f. computes fn f"
    by (auto split: option.splits)
  then show "calm l k i (rc_threadID cfg) w (snd (fn ctx s w))"
    by (auto simp: computes_def intro: idle_calm)
next
  fix f e w
  assume "h = Some f"
  with assms(2) show "calm l k i (rc_threadID cfg) w (f e w)"
    by (auto simp: quiet_handler_def intro: idle_calm)
qed

section \<open>Stores that keep a run going\<close>

text \<open>
  \<open>alive g t p w\<close>: the run on thread \<open>t\<close> whose last checkpoint is \<open>p\<close> can go on. It depends
  on the store, the clock, the run's context and grant only, and the next commit succeeds.
  \<open>vacant g t p w\<close>: no run is on the thread, whose last checkpoint is \<open>p\<close>, and a run of \<open>g\<close>
  can start. A run that ends releases the thread again.
\<close>

definition same_run :: "('s, 'u) World \<Rightarrow> ('s, 'u) World \<Rightarrow> bool" where
  "same_run w w' \<longleftrightarrow> w_store w' = w_store w \<and> w_clock w' = w_clock w \<and> w_caller w' = w_caller w
     \<and> w_cancel w' = w_cancel w \<and> w_sess w' = w_sess w"

locale live_store = run_store uses latest known ok
  for uses :: "('s, 'u) Compiled \<Rightarrow> bool"
    and latest :: "'s \<Rightarrow> string \<Rightarrow> Snapshot option"
    and known :: "'s \<Rightarrow> string \<Rightarrow> string set"
    and ok :: "'s \<Rightarrow> bool" +
  fixes alive :: "('s, 'u) Compiled \<Rightarrow> string \<Rightarrow> string \<Rightarrow> ('s, 'u) World \<Rightarrow> bool"
    and vacant :: "('s, 'u) Compiled \<Rightarrow> string \<Rightarrow> string \<Rightarrow> ('s, 'u) World \<Rightarrow> bool"
  assumes alive_ctx: "uses g \<Longrightarrow> alive g t p w \<Longrightarrow> ctx_Err w = None"
    and alive_same: "alive g t p w \<Longrightarrow> same_run w w' \<Longrightarrow> alive g t p w'"
    and alive_persist:
      "uses g \<Longrightarrow> ok (w_store w) \<Longrightarrow> alive g (rc_threadID cfg) p w \<Longrightarrow>
       sn_ThreadID snap = rc_threadID cfg \<Longrightarrow> sn_ParentCheckpointID snap = p \<Longrightarrow>
       sn_CheckpointID snap \<noteq> '''' \<Longrightarrow>
       sn_CheckpointID snap \<notin> known (w_store w) (rc_threadID cfg) \<Longrightarrow>
       \<exists>s'. persist g cfg snap [] w = (None, w\<lparr>w_store := s'\<rparr>)
         \<and> alive g (rc_threadID cfg) (sn_CheckpointID snap) (w\<lparr>w_store := s'\<rparr>)"
    and vacant_same: "vacant g t p w \<Longrightarrow> same_run (w\<lparr>w_sess := x\<rparr>) w' \<Longrightarrow> vacant g t p w'"
    and vacant_start:
      "uses g \<Longrightarrow> vacant g t p w \<Longrightarrow> rid \<noteq> '''' \<Longrightarrow> 0 < ttl \<Longrightarrow>
       (case g_lease g of
          None \<Rightarrow> alive g t p w
        | Some l \<Rightarrow> \<exists>gr w'. el_Acquire l t rid ttl w = (Inr gr, w') \<and> w_rng w' = w_rng w
            \<and> alive g t p (derive_ctx (w'\<lparr>w_sess := Some gr\<rparr>)))"
    and alive_release:
      "uses g \<Longrightarrow> alive g t p w \<Longrightarrow>
       (case g_lease g of
          None \<Rightarrow> vacant g t p w
        | Some l \<Rightarrow> \<exists>gr w'. w_sess w = Some gr \<and> snd (el_Release l gr w) = w' \<and> vacant g t p w'
            \<and> w_rng w' = w_rng w \<and> w_caller w' = None \<and> w_cancel w' = None)"
begin

lemma alive_idle: "alive g t p w \<Longrightarrow> idle w w' \<Longrightarrow> alive g t p w'"
  by (erule alive_same) (auto simp: same_run_def idle_def)

lemma alive_lease: "uses g \<Longrightarrow> alive g t p w \<Longrightarrow> leaseLostFrom w = None"
  using alive_ctx cause_is_lease_lost_Err by (fastforce simp: leaseLostFrom_eq)

text \<open>The checkpoint of a live run succeeds.\<close>

lemma checkpoint_live:
  assumes u: "uses g" and q: "quiet_handler (handler_of nc cfg)"
    and r: "store_ready known ok (rc_threadID cfg) N w" "rng_pos (w_rng w) < N"
    and a: "alive g (rc_threadID cfg) p w" and c: "collector_snapshot col w = []"
  obtains p' w' where
    "write_checkpoint g cfg ctx nc col n n' k p s w = Inr (p', ctx\<lparr>ctx_ParentCheckpointID := p'\<rparr>, w')"
    "store_ready known ok (rc_threadID cfg) N w'" "rng_pos (w_rng w') = Suc (rng_pos (w_rng w))"
    "alive g (rc_threadID cfg) p' w'" "at_point latest (rc_threadID cfg) n' s k p' w'"
proof -
  let ?t = "rc_threadID cfg"
  obtain ckpt w1 where d: "draw_id w = (ckpt, w1)" by (cases "draw_id w")
  have fr: "fresh_reads N (w_rng w)" using r(1) by (simp add: store_ready_def)
  note df = draw_id_fresh [OF d fr r(2)]
  have new: "ckpt \<noteq> ''''" "ckpt \<notin> known (w_store w1) ?t"
    using df r(1) drawn_id_nonempty [OF fr r(2)] by (auto simp: store_ready_def)
  have a1: "alive g ?t p w1" by (rule alive_same [OF a]) (simp add: df same_run_def)
  have arts: "collector_snapshot col w1 = []" using c by (simp add: df collector_snapshot_def)
  have ok1: "ok (w_store w1)" using r(1) by (simp add: df store_ready_def)
  let ?snap = "new_snapshot cfg ckpt p (w_clock w1) n' s k None"
  obtain st where pe: "persist g cfg ?snap [] w1 = (None, w1\<lparr>w_store := st\<rparr>)"
    and a2: "alive g ?t ckpt (w1\<lparr>w_store := st\<rparr>)"
    using alive_persist [OF u ok1 a1, of ?snap] new by (auto simp: new_snapshot_def)
  let ?w2 = "w1\<lparr>w_store := st\<rparr>"
  have pos: "rng_pos (w_rng ?w2) = Suc (rng_pos (w_rng w))" using draw_id_frame [OF d] by simp
  have cp: "store_ready known ok ?t N ?w2"
    "\<exists>r c. latest (w_store ?w2) ?t = Some (?snap\<lparr>sn_Revision := r, sn_CreatedAt := c\<rparr>)"
    using commit_point [OF u r(1) d _ _ pe] pos r(2) by (simp_all add: new_snapshot_def)
  let ?w3 = "emit nc cfg ((node_event EventCheckpoint n k ckpt)
       \<lparr>ev_Metadata := [''next'' \<mapsto> AStr n']\<rparr>) ?w2"
  have i: "idle ?w2 ?w3" by (rule idle_emit [OF q])
  show ?thesis
  proof (rule that)
    show "write_checkpoint g cfg ctx nc col n n' k p s w = Inr (ckpt, ctx\<lparr>ctx_ParentCheckpointID := ckpt\<rparr>, ?w3)"
      using has_store [OF u] d pe arts by (simp add: write_checkpoint_def Let_def)
    show "store_ready known ok ?t N ?w3" using cp(1) idle_calm [OF i] by (rule store_ready_calm)
    show "rng_pos (w_rng ?w3) = Suc (rng_pos (w_rng w))" using i pos by (simp add: idle_def)
    show "alive g ?t ckpt ?w3" using a2 i by (rule alive_idle)
    show "at_point latest ?t n' s k ckpt ?w3"
      using cp(2) i by (auto simp: at_point_def new_snapshot_def idle_def)
  qed
qed

text \<open>One full round of a run that is alive.\<close>

lemma round_live:
  assumes u: "uses g" and plan: "follows_plan g plan" "plan n = Some f" "n \<notin> {'''', END}"
    and q: "quiet_handler (handler_of ctx cfg)"
    and r: "store_ready known ok (rc_threadID cfg) N w" "rng_pos (w_rng w) < N"
    and a: "alive g (rc_threadID cfg) p w"
    and s': "s' = Apply s (f s) (g_reducers g)" "next_node g Background n s' = Inr n'"
  obtains ctx' p' w' where
    "run_body g cfg \<lparr>rs_ctx = ctx, rs_state = s, rs_node = n, rs_step = k, rs_parent = p, rs_world = w\<rparr>
       = (if rc_maxSteps cfg > 0 \<and> wrap64 (k + 1) \<ge> rc_maxSteps cfg
          then Inl (s', Some (Errorf ''graph: max steps %d exceeded'' [AInt (rc_maxSteps cfg)]), w')
          else Inr \<lparr>rs_ctx = ctx', rs_state = s', rs_node = n', rs_step = wrap64 (k + 1),
                    rs_parent = p', rs_world = w'\<rparr>)"
    "handler_of ctx' cfg = handler_of ctx cfg"
    "store_ready known ok (rc_threadID cfg) N w'" "rng_pos (w_rng w') = Suc (rng_pos (w_rng w))"
    "alive g (rc_threadID cfg) p' w'" "at_point latest (rc_threadID cfg) n' s' (wrap64 (k + 1)) p' w'"
proof -
  let ?t = "rc_threadID cfg"
  obtain fn where fn: "g_nodes g n = Some fn" "computes fn f"
    using follows_plan_node [OF plan(1), of n] plan(2) by auto
  obtain nc col w1 where nc: "node_context ctx n p w = (nc, col, w1)" by (rule prod_cases3)
  have hnc: "handler_of nc cfg = handler_of ctx cfg" using nc by (rule handler_of_node_context)
  have w1: "w1 = w\<lparr>w_collectors := w_collectors w @ [newArtifactCollector]\<rparr>" "col = length (w_collectors w)"
    using nc by (auto simp: node_context_def WithStepArtifacts_def Let_def split: option.splits)
  have e: "idle v (emit nc cfg ev v)" for v ev using q hnc by (intro idle_emit) simp
  let ?w2 = "emit nc cfg (node_event EventNodeStart n k p) w1"
  obtain w3 where call: "fn nc s ?w2 = (\<lparr>nr_Update = f s, nr_Err = None, nr_State = s\<rparr>, w3)" "idle ?w2 w3"
    using fn(2) unfolding computes_def by (metis prod.collapse)
  let ?w5 = "emit nc cfg ((node_event EventRoute n (wrap64 (k + 1)) p)
       \<lparr>ev_Metadata := [''from'' \<mapsto> AStr n, ''to'' \<mapsto> AStr n']\<rparr>)
       (emit nc cfg (node_event EventNodeEnd n k p) w3)"
  have i13: "idle w1 w3" using e call(2) by (blast intro: idle_trans)
  then have i15: "idle w1 ?w5" using e by (blast intro: idle_trans)
  have a1: "alive g ?t p w1" by (rule alive_same [OF a]) (simp add: same_run_def w1)
  have "calm latest known ok ?t w ?w5"
    by (rule calm_trans [OF _ idle_calm [OF i15]], rule calm_same_store) (simp_all add: w1)
  with r(1) have r5: "store_ready known ok ?t N ?w5" by (rule store_ready_calm)
  have p5: "rng_pos (w_rng ?w5) = rng_pos (w_rng w)" using i15 by (simp add: idle_def w1)
  have c5: "collector_snapshot col ?w5 = []"
    using i15 by (simp add: collector_snapshot_def w1 idle_def newArtifactCollector_def)
  let ?ctx = "ctx\<lparr>ctx_Resume := VNil\<rparr>"
  obtain p' w' where wc: "write_checkpoint g cfg ?ctx nc col n n' (wrap64 (k + 1)) p s' ?w5
        = Inr (p', ?ctx\<lparr>ctx_ParentCheckpointID := p'\<rparr>, w')"
    and w': "store_ready known ok ?t N w'" "rng_pos (w_rng w') = Suc (rng_pos (w_rng w))"
      "alive g ?t p' w'" "at_point latest ?t n' s' (wrap64 (k + 1)) p' w'"
    using checkpoint_live [OF u _ r5 _ alive_idle [OF a1 i15] c5, of nc] q hnc p5 r(2) by metis
  have "next_node g ?ctx n s' = Inr n'" using follows_plan_next [OF plan(1)] s'(2) by metis
  with wc have "after_node g cfg ctx nc col (f s) n k p s w3
      = (if rc_maxSteps cfg > 0 \<and> wrap64 (k + 1) \<ge> rc_maxSteps cfg
         then Inl (s', Some (Errorf ''graph: max steps %d exceeded'' [AInt (rc_maxSteps cfg)]), w')
         else Inr \<lparr>rs_ctx = ?ctx\<lparr>ctx_ParentCheckpointID := p'\<rparr>, rs_state = s', rs_node = n',
                   rs_step = wrap64 (k + 1), rs_parent = p', rs_world = w'\<rparr>)"
    using s'(1) by (simp add: after_node_def Let_def)
  moreover have "run_body g cfg \<lparr>rs_ctx = ctx, rs_state = s, rs_node = n, rs_step = k, rs_parent = p, rs_world = w\<rparr>
      = after_node g cfg ctx nc col (f s) n k p s w3"
    using plan(3) fn(1) a alive_idle [OF a1 i13] nc call(1) alive_lease [OF u] alive_ctx [OF u]
    by (simp add: run_body_def call_node_def handle_result_def)
  ultimately show ?thesis using w' that [of w' "?ctx\<lparr>ctx_ParentCheckpointID := p'\<rparr>" p'] by simp
qed

text \<open>A run that is alive walks its plan, as long as the step bound lets it.\<close>

lemma run_walks:
  assumes u: "uses g" and plan: "follows_plan g plan"
    and "walk g plan m n s = Some (n', s')" "quiet_handler (handler_of ctx cfg)"
    and "store_ready known ok (rc_threadID cfg) N w" "rng_pos (w_rng w) + m \<le> N"
    and "alive g (rc_threadID cfg) p w" "0 \<le> k" "k + int m \<le> max_int64"
    and "rc_maxSteps cfg \<le> 0 \<or> k + int m < rc_maxSteps cfg"
  obtains ctx' p' w' where
    "run g ctx s n k p cfg w = run g ctx' s' n' (k + int m) p' cfg w'"
    "handler_of ctx' cfg = handler_of ctx cfg" "store_ready known ok (rc_threadID cfg) N w'"
    "rng_pos (w_rng w') = rng_pos (w_rng w) + m" "alive g (rc_threadID cfg) p' w'"
    "0 < m \<longrightarrow> at_point latest (rc_threadID cfg) n' s' (k + int m) p' w'"
  using assms(3-)
proof (induction m arbitrary: n s ctx w p k thesis)
  case 0
  then show ?case by simp
next
  case (Suc m)
  from Suc.prems(2) obtain f n1 where f: "n \<notin> {'''', END}" "plan n = Some f"
    "next_node g Background n (Apply s (f s) (g_reducers g)) = Inr n1"
    "walk g plan m n1 (Apply s (f s) (g_reducers g)) = Some (n', s')"
    by (rule walk_SucE)
  let ?s = "Apply s (f s) (g_reducers g)"
  have lt: "rng_pos (w_rng w) < N" using Suc.prems(5) by simp
  have wr: "wrap64 (k + 1) = k + 1" using Suc.prems(7,8) by (intro wrap64_id) (simp add: in_int64_def max_int64_def)
  from round_live [OF u plan f(2,1) Suc.prems(3,4) lt Suc.prems(6) refl f(3), of k, unfolded wr]
  obtain ctx1 p1 w1 where b: "run_body g cfg \<lparr>rs_ctx = ctx, rs_state = s, rs_node = n, rs_step = k, rs_parent = p, rs_world = w\<rparr>
       = (if rc_maxSteps cfg > 0 \<and> k + 1 \<ge> rc_maxSteps cfg
          then Inl (?s, Some (Errorf ''graph: max steps %d exceeded'' [AInt (rc_maxSteps cfg)]), w1)
          else Inr \<lparr>rs_ctx = ctx1, rs_state = ?s, rs_node = n1, rs_step = k + 1,
                    rs_parent = p1, rs_world = w1\<rparr>)"
    and h: "handler_of ctx1 cfg = handler_of ctx cfg"
    and w1: "store_ready known ok (rc_threadID cfg) N w1" "rng_pos (w_rng w1) = Suc (rng_pos (w_rng w))"
      "alive g (rc_threadID cfg) p1 w1" "at_point latest (rc_threadID cfg) n1 ?s (k + 1) p1 w1" by metis
  from b Suc.prems(9) have r: "run g ctx s n k p cfg w = run g ctx1 ?s n1 (k + 1) p1 cfg w1"
    unfolding run_def by (intro go_loop_next) auto
  have k: "k + 1 + int m = k + int (Suc m)" by simp
  show ?case
  proof (rule Suc.IH [OF _ f(4) _ w1(1) _ w1(3), where k = "k + 1" and ctx = ctx1, unfolded k])
    fix ctx' p' w'
    assume c: "run g ctx1 ?s n1 (k + 1) p1 cfg w1 = run g ctx' s' n' (k + int (Suc m)) p' cfg w'"
      "handler_of ctx' cfg = handler_of ctx1 cfg" "store_ready known ok (rc_threadID cfg) N w'"
      "rng_pos (w_rng w') = rng_pos (w_rng w1) + m" "alive g (rc_threadID cfg) p' w'"
      "0 < m \<longrightarrow> at_point latest (rc_threadID cfg) n' s' (k + int (Suc m)) p' w'"
    have "at_point latest (rc_threadID cfg) n' s' (k + int (Suc m)) p' w' \<or> m = 0" using c(6) by auto
    show thesis
    proof (cases "m = 0")
      case True
      with f(4) r h w1 show thesis by (intro Suc.prems(1) [of ctx1 p1 w1]) simp_all
    next
      case False
      with c r h w1(2) show thesis by (intro Suc.prems(1) [of ctx' p' w']) simp_all
    qed
  qed (use Suc.prems h w1(2) in simp_all)
qed

text \<open>It returns at the end of its plan, or with an error when it reaches the step bound.\<close>

lemma run_ends:
  assumes "uses g" "follows_plan g plan" "walk g plan m n s = Some (n', s')" "n' \<in> {'''', END}"
    and "quiet_handler (handler_of ctx cfg)" "store_ready known ok (rc_threadID cfg) N w"
    and "rng_pos (w_rng w) + m \<le> N" "alive g (rc_threadID cfg) p w" "0 \<le> k" "k + int m \<le> max_int64"
    and "rc_maxSteps cfg \<le> 0 \<or> k + int m < rc_maxSteps cfg"
  obtains p' w' where "run g ctx s n k p cfg w = Some (s', None, w')"
    "store_ready known ok (rc_threadID cfg) N w'" "rng_pos (w_rng w') = rng_pos (w_rng w) + m"
    "alive g (rc_threadID cfg) p' w'" "0 < m \<longrightarrow> at_point latest (rc_threadID cfg) n' s' (k + int m) p' w'"
proof (rule run_walks [OF assms(1-3,5-11)])
  fix ctx' p' w'
  assume "run g ctx s n k p cfg w = run g ctx' s' n' (k + int m) p' cfg w'"
    and "store_ready known ok (rc_threadID cfg) N w'" "rng_pos (w_rng w') = rng_pos (w_rng w) + m"
    "alive g (rc_threadID cfg) p' w'" "0 < m \<longrightarrow> at_point latest (rc_threadID cfg) n' s' (k + int m) p' w'"
  then show thesis
    using assms(4) that by (simp add: run_def go_loop_done run_body_def)
qed

lemma run_bounded:
  assumes "uses g" "follows_plan g plan" "walk g plan (Suc m) n s = Some (n', s')"
    and "quiet_handler (handler_of ctx cfg)" "store_ready known ok (rc_threadID cfg) N w"
    and "rng_pos (w_rng w) + Suc m \<le> N" "alive g (rc_threadID cfg) p w" "0 \<le> k"
    and "k + int (Suc m) \<le> max_int64" "rc_maxSteps cfg = k + int (Suc m)"
  obtains p' w' where "run g ctx s n k p cfg w
      = Some (s', Some (Errorf ''graph: max steps %d exceeded'' [AInt (rc_maxSteps cfg)]), w')"
    "store_ready known ok (rc_threadID cfg) N w'" "rng_pos (w_rng w') = rng_pos (w_rng w) + Suc m"
    "alive g (rc_threadID cfg) p' w'" "at_point latest (rc_threadID cfg) n' s' (k + int (Suc m)) p' w'"
proof -
  from walk_last [OF assms(3)] obtain f n1 s1 where f: "walk g plan m n s = Some (n1, s1)"
    "n1 \<notin> {'''', END}" "plan n1 = Some f" "s' = Apply s1 (f s1) (g_reducers g)"
    "next_node g Background n1 s' = Inr n'" by blast
  have lt: "rng_pos (w_rng w) + m \<le> N" "k + int m \<le> max_int64" "k + int m < rc_maxSteps cfg"
    using assms(6,9,10) by simp_all
  show thesis
  proof (rule run_walks [OF assms(1,2) f(1) assms(4,5) lt(1) assms(7,8) lt(2) disjI2 [OF lt(3)]])
    fix ctx1 p1 w1
    assume w1: "run g ctx s n k p cfg w = run g ctx1 s1 n1 (k + int m) p1 cfg w1"
      "handler_of ctx1 cfg = handler_of ctx cfg" "store_ready known ok (rc_threadID cfg) N w1"
      "rng_pos (w_rng w1) = rng_pos (w_rng w) + m" "alive g (rc_threadID cfg) p1 w1"
    have q: "quiet_handler (handler_of ctx1 cfg)" using w1(2) assms(4) by simp
    have lt1: "rng_pos (w_rng w1) < N" using w1(4) assms(6) by simp
    have wr: "wrap64 (k + int m + 1) = k + int (Suc m)"
      using assms(8,9) by (subst wrap64_id) (simp_all add: in_int64_def max_int64_def)
    from round_live [OF assms(1,2) f(3,2) q w1(3) lt1 w1(5) f(4,5), of "k + int m", unfolded wr]
    obtain p2 w2 where "run_body g cfg \<lparr>rs_ctx = ctx1, rs_state = s1, rs_node = n1, rs_step = k + int m,
        rs_parent = p1, rs_world = w1\<rparr>
      = Inl (s', Some (Errorf ''graph: max steps %d exceeded'' [AInt (rc_maxSteps cfg)]), w2)"
      "store_ready known ok (rc_threadID cfg) N w2" "rng_pos (w_rng w2) = Suc (rng_pos (w_rng w1))"
      "alive g (rc_threadID cfg) p2 w2" "at_point latest (rc_threadID cfg) n' s' (k + int (Suc m)) p2 w2"
      using assms(8,10) by (metis (no_types, lifting) add_nonneg_pos of_nat_0_less_iff order_refl zero_less_Suc)
    with w1 show thesis
      by (intro that [of w2 p2]) (simp_all add: run_def go_loop_done)
  qed
qed

end

text \<open>Drawing the run's ids changes the random source only.\<close>

lemma prepareRun_frame:
  assumes "prepareRun g opts w = (cfg, v)"
  shows "same_run w v"
proof -
  have d: "same_run x y" if "draw_id x = (i, y)" for x y :: "('s, 'u) World" and i
    using that by (auto simp: draw_id_def same_run_def split: prod.splits)
  obtain r1 w1 where d1: "draw_id w = (r1, w1)" by (cases "draw_id w")
  obtain r2 w2 where d2: "draw_id w1 = (r2, w2)" by (cases "draw_id w1")
  have "v = w1 \<or> v = w2"
    using assms by (auto simp: prepareRun_def Let_def d1 d2 split: if_splits)
  with d [OF d1] d [OF d2] show ?thesis by (auto simp: same_run_def)
qed

lemma lease_ttl_pos: "0 < lease_ttl g cfg"
  by (simp add: lease_ttl_def Let_def DefaultLeaseTTL_def)

text \<open>Where a run, or the attempt around it, has come: the point, and the ids drawn.\<close>

definition landed ::
  "('s \<Rightarrow> string \<Rightarrow> Snapshot option) \<Rightarrow> ('s \<Rightarrow> string \<Rightarrow> string set) \<Rightarrow> ('s \<Rightarrow> bool)
   \<Rightarrow> string \<Rightarrow> string \<Rightarrow> State \<Rightarrow> int \<Rightarrow> nat \<Rightarrow> nat \<Rightarrow> string \<Rightarrow> ('s, 'u) World \<Rightarrow> bool" where
  "landed latest known ok t n s st N P p w \<longleftrightarrow>
     store_ready known ok t N w \<and> rng_pos (w_rng w) = P \<and> at_point latest t n s st p w"

context live_store
begin

lemma landed_idle: "landed latest known ok t n s st N P p w \<Longrightarrow> idle w w' \<Longrightarrow> landed latest known ok t n s st N P p w'"
  using store_ready_calm [OF _ idle_calm] at_point_calm [OF idle_calm]
  unfolding landed_def idle_def by metis

text \<open>The release of the lease leaves the thread vacant, at the checkpoint the run made.\<close>

lemma release_live:
  assumes u: "uses g" and l: "g_lease g = Some l" and q: "quiet_handler (handler_of ctx cfg)"
    and a: "alive g t p w" and cl: "calm_lease latest known ok t g" and ld: "landed latest known ok t n s st N P p w"
  shows "vacant g t p (release_lease l ctx cfg gr err w) \<and> landed latest known ok t n s st N P p (release_lease l ctx cfg gr err w)"
proof -
  let ?w1 = "cancel_run Canceled w"
  have ctx: "w_caller w = None" "w_cancel w = None"
    using alive_ctx [OF u a] by (auto simp: ctx_Err_def split: option.splits)
  then have w1: "?w1 = w\<lparr>w_cancel := Some Canceled\<rparr>" by (simp add: cancel_run_def ctx_Err_def)
  obtain gr' where sess: "w_sess w = Some gr'" using alive_release [OF u a] l by auto
  obtain ev where r: "release_lease l ctx cfg gr err w
      = (let w2 = emit ctx cfg ev ?w1; (_, w3) = el_Release l gr' (w2\<lparr>w_caller := None, w_cancel := None\<rparr>)
         in w3\<lparr>w_caller := w_caller w2, w_cancel := None\<rparr>)"
    using sess by (auto simp: release_lease_def Let_def w1)
  let ?w2 = "(emit ctx cfg ev ?w1)\<lparr>w_caller := None, w_cancel := None\<rparr>"
  obtain x w3 where rel: "el_Release l gr' ?w2 = (x, w3)" by (cases "el_Release l gr' ?w2")
  have i: "idle ?w1 (emit ctx cfg ev ?w1)" by (rule idle_emit [OF q])
  then have i2: "idle w ?w2" using ctx by (simp add: idle_def w1)
  with a have a2: "alive g t p ?w2" by (rule alive_idle)
  have s2: "w_sess ?w2 = Some gr'" using sess i2 by (simp add: idle_def)
  from alive_release [OF u a2] l s2 rel
  have v3: "vacant g t p w3" "w_rng w3 = w_rng ?w2" "w_caller w3 = None" "w_cancel w3 = None" by auto
  have "w_caller (emit ctx cfg ev ?w1) = None" using i ctx by (simp add: idle_def w1)
  with r rel have "release_lease l ctx cfg gr err w = w3\<lparr>w_caller := None, w_cancel := None\<rparr>"
    by (simp only: Let_def prod.case)
  also have "\<dots> = w3" using v3(3,4) by (cases w3) simp
  finally have eq: "release_lease l ctx cfg gr err w = w3" .
  have "calm latest known ok t ?w2 w3" using cl l rel unfolding calm_lease_def by (metis snd_conv)
  with landed_idle [OF ld i2] v3(2) have "landed latest known ok t n s st N P p w3"
    unfolding landed_def using store_ready_calm at_point_calm by metis
  with v3(1) show ?thesis by (simp add: eq)
qed

text \<open>A body that runs on a live thread, with the lease around it.\<close>

lemma lease_live:
  fixes cfg
  defines "t \<equiv> rc_threadID cfg"
  assumes u: "uses g" and cl: "calm_lease latest known ok t g" and q: "quiet_handler (handler_of ctx0 cfg)"
    and rid: "rc_runID cfg \<noteq> ''''" and v: "store_ready known ok t N v" "vacant g t p v"
    and body: "\<And>ctx1 w1. handler_of ctx1 cfg = handler_of ctx0 cfg \<Longrightarrow> store_ready known ok t N w1 \<Longrightarrow>
      alive g t p w1 \<Longrightarrow> latest (w_store w1) t = latest (w_store v) t \<Longrightarrow> w_rng w1 = w_rng v \<Longrightarrow>
      \<exists>p' w2. body ctx1 w1 = Some (s, e, w2) \<and> alive g t p' w2 \<and> landed latest known ok t n s st N P p' w2"
  shows "\<exists>p' w'. withLease g ctx0 cfg body v = Some (s, e, w') \<and> vacant g t p' w' \<and> landed latest known ok t n s st N P p' w'"
proof (cases "g_lease g")
  case None
  with vacant_start [OF u v(2), of "''r''" 1] have "alive g t p v" by simp
  from body [OF refl v(1) this] obtain p' w2 where b: "body ctx0 v = Some (s, e, w2)"
    "alive g t p' w2" "landed latest known ok t n s st N P p' w2" by blast
  from alive_release [OF u b(2)] None have "vacant g t p' w2" by simp
  with b show ?thesis using None by (auto simp: withLease_def)
next
  case (Some l)
  with vacant_start [OF u v(2) rid lease_ttl_pos [of g cfg]] obtain gr w1 where
    acq: "el_Acquire l t (rc_runID cfg) (lease_ttl g cfg) v = (Inr gr, w1)" "w_rng w1 = w_rng v"
    and al: "alive g t p (derive_ctx (w1\<lparr>w_sess := Some gr\<rparr>))" by auto
  let ?w2 = "derive_ctx (w1\<lparr>w_sess := Some gr\<rparr>)"
  let ?rc = "(withEventHandler (ctx0\<lparr>ctx_ThreadID := rc_threadID cfg, ctx_RunID := rc_runID cfg\<rparr>)
      (rc_events cfg))\<lparr>ctx_LeaseGrant := Some gr\<rparr>"
  obtain ev where wl: "withLease g ctx0 cfg body v = (case body ?rc (emit ?rc cfg ev ?w2) of None \<Rightarrow> None
      | Some (out, err, w4) \<Rightarrow> Some (out, err, release_lease l ctx0 cfg gr err w4))"
    using Some acq by (auto simp: withLease_def Let_def t_def)
  have h: "handler_of ?rc cfg = handler_of ctx0 cfg" by simp
  have i: "idle ?w2 (emit ?rc cfg ev ?w2)" by (rule idle_emit) (use q h in simp)
  have "calm latest known ok t v w1" using cl Some acq(1) by (auto simp: calm_lease_def)
  then have c: "calm latest known ok t v (emit ?rc cfg ev ?w2)"
    using calm_trans [OF calm_trans [OF _ calm_same_store [of "w1\<lparr>w_sess := Some gr\<rparr>"]]
        calm_trans [OF calm_derive_ctx idle_calm [OF i]]] by simp
  have "w_rng (emit ?rc cfg ev ?w2) = w_rng v" using i acq(2) by (simp add: idle_def derive_ctx_def)
  from body [OF h store_ready_calm [OF v(1) c] alive_idle [OF al i] calm_latest [OF c] this]
  obtain p' w4 where b: "body ?rc (emit ?rc cfg ev ?w2) = Some (s, e, w4)" "alive g t p' w4"
    "landed latest known ok t n s st N P p' w4" by blast
  from release_live [OF u Some q b(2) cl b(3)] b(1) show ?thesis by (auto simp: wl)
qed

text \<open>An invocation on a vacant thread without history, given what its run does.\<close>

lemma Invoke_live:
  fixes cfg
  defines "t \<equiv> rc_threadID cfg"
  assumes u: "uses g" and cl: "calm_lease latest known ok t g" and q: "quiet_handler (handler_of ctx0 cfg)"
    and pr: "prepareRun g opts (w\<lparr>w_sess := None\<rparr>) = (cfg, v)" "rc_runID cfg \<noteq> ''''"
    and w: "store_ready known ok t N w" "vacant g t '''' w"
    and run: "\<And>ctx w1. quiet_handler (handler_of ctx cfg) \<Longrightarrow> store_ready known ok t N w1 \<Longrightarrow>
      alive g t '''' w1 \<Longrightarrow> w_rng w1 = w_rng v \<Longrightarrow>
      \<exists>p' w2. run g ctx input (g_entry g) 0 '''' cfg w1 = Some (s, e, w2) \<and> alive g t p' w2 \<and> landed latest known ok t n s st N P p' w2"
  shows "\<exists>p' w'. Invoke g ctx0 input opts w = Some (s, e, w') \<and> vacant g t p' w' \<and> landed latest known ok t n s st N P p' w'"
proof -
  have "calm latest known ok t w v"
    using calm_trans [OF calm_same_store calm_prepareRun [OF pr(1)]] by simp
  with w(1) have rv: "store_ready known ok t N v" by (rule store_ready_calm)
  have vv: "vacant g t '''' v" using vacant_same [OF w(2) prepareRun_frame [OF pr(1)]] .
  show ?thesis
    unfolding Invoke_def pr(1) Let_def prod.case
  proof (rule lease_live [OF u cl [unfolded t_def] q pr(2) rv [unfolded t_def] vv [unfolded t_def], folded t_def], goal_cases)
    case (1 ctx1 w1)
    let ?ctx = "enrichCtx ctx1 cfg '''' w1"
    let ?w2 = "emit ?ctx cfg (new_event EventRunStart) w1"
    have qc: "quiet_handler (handler_of ?ctx cfg)" using q 1(1) by simp
    have i: "idle w1 ?w2" by (rule idle_emit [OF qc])
    then have "w_rng ?w2 = w_rng v" using 1(5) by (simp add: idle_def)
    from run [OF qc store_ready_calm [OF 1(2) idle_calm [OF i]] alive_idle [OF 1(3) i] this]
    obtain p' w3 where r: "run g ?ctx input (g_entry g) 0 '''' cfg ?w2 = Some (s, e, w3)"
      "alive g t p' w3" "landed latest known ok t n s st N P p' w3" by blast
    have "idle w3 (emitRunEnd ?ctx cfg e w3)" by (simp add: emitRunEnd_def Let_def idle_emit [OF qc])
    with r show ?case
      by (intro exI [of _ p'] exI [of _ "emitRunEnd ?ctx cfg e w3"]) (auto intro: alive_idle landed_idle)
  qed
qed

text \<open>A resume of a vacant thread whose latest snapshot is a point of a run.\<close>

lemma Resume_live:
  fixes cfg
  defines "t \<equiv> rc_threadID cfg"
  assumes u: "uses g" and cl: "calm_lease latest known ok t g" and q: "quiet_handler (handler_of ctx0 cfg)"
    and pr: "prepareRun g opts (w\<lparr>w_sess := None\<rparr>) = (cfg, v)" "rc_runID cfg \<noteq> ''''" "rc_command cfg = None"
      "rc_expectedCheckpointID cfg \<in> {'''', p}" "thread \<in> {'''', t}"
    and w: "store_ready known ok t N w" "vacant g t p w"
    and pt: "at_point latest t n0 s0 st0 p w" "n0 \<notin> {'''', END}"
    and run: "\<And>ctx w1. quiet_handler (handler_of ctx cfg) \<Longrightarrow> store_ready known ok t N w1 \<Longrightarrow>
      alive g t p w1 \<Longrightarrow> w_rng w1 = w_rng v \<Longrightarrow>
      \<exists>p' w2. run g ctx s0 n0 st0 p cfg w1 = Some (s, e, w2) \<and> alive g t p' w2 \<and> landed latest known ok t n s st N P p' w2"
  shows "\<exists>p' w'. Resume g ctx0 thread opts w = Some (s, e, w') \<and> vacant g t p' w' \<and> landed latest known ok t n s st N P p' w'"
proof -
  have cv: "calm latest known ok t w v"
    using calm_trans [OF calm_same_store calm_prepareRun [OF pr(1)]] by simp
  from w(1) cv have rv: "store_ready known ok t N v" by (rule store_ready_calm)
  have vv: "vacant g t p v" using vacant_same [OF w(2) prepareRun_frame [OF pr(1)]] .
  have cfg: "(if thread \<noteq> [] then cfg\<lparr>rc_threadID := thread\<rparr> else cfg) = cfg"
    using pr(5) by (auto simp: t_def)
  have R: "Resume g ctx0 thread opts w = withLease g ctx0 cfg (resume_body g cfg) v"
    using has_store [OF u] by (auto simp: Resume_def pr(1) cfg Let_def hasStore_def)
  show ?thesis
    unfolding R
  proof (rule lease_live [OF u cl [unfolded t_def] q pr(2) rv [unfolded t_def] vv [unfolded t_def], folded t_def], goal_cases)
    case (1 ctx1 w1)
    from pt(1) 1(4) calm_latest [OF cv] obtain sn where sn: "latest (w_store w1) t = Some sn"
      "sn_Node sn = n0" "sn_State sn = s0" "sn_Step sn = st0" "sn_CheckpointID sn = p" "\<not> sn_Interrupt sn"
      by (auto simp: at_point_def)
    have ok1: "ok (w_store w1)" using 1(2) by (simp add: store_ready_def)
    have ld: "loadLatest g (rc_threadID cfg) w1 = Inr (Some sn)"
      using load [OF u ok1, of t] sn(1) by (simp add: t_def)
    let ?ctx = "enrichCtx ctx1 cfg p w1"
    let ?w2 = "emit ?ctx cfg (node_event EventRunResume n0 st0 p) w1"
    have qc: "quiet_handler (handler_of ?ctx cfg)" using q 1(1) by simp
    have i: "idle w1 ?w2" by (rule idle_emit [OF qc])
    then have "w_rng ?w2 = w_rng v" using 1(5) by (simp add: idle_def)
    from run [OF qc store_ready_calm [OF 1(2) idle_calm [OF i]] alive_idle [OF 1(3) i] this]
    obtain p' w3 where r: "run g ?ctx s0 n0 st0 p cfg ?w2 = Some (s, e, w3)"
      "alive g t p' w3" "landed latest known ok t n s st N P p' w3" by blast
    have "resume_body g cfg ctx1 w1 = Some (s, e, emitRunEnd ?ctx cfg e w3)"
      using pr(3,4) pt(2) sn r(1)
      by (simp add: resume_body_point [OF ld] resume_node_def resume_state_def wrong_checkpoint_def Let_def) auto
    moreover have "idle w3 (emitRunEnd ?ctx cfg e w3)" by (simp add: emitRunEnd_def Let_def idle_emit [OF qc])
    ultimately show ?case using r(2,3)
      by (intro exI [of _ p'] exI [of _ "emitRunEnd ?ctx cfg e w3"]) (auto intro: alive_idle landed_idle)
  qed
qed

end

context live_store
begin

lemma Invoke_ends:
  fixes cfg
  defines "t \<equiv> rc_threadID cfg"
  assumes u: "uses g" and plan: "follows_plan g plan" and cl: "calm_lease latest known ok t g"
    and wk: "walk g plan (Suc m) (g_entry g) input = Some (n, out)" "n \<in> {'''', END}"
    and pr: "prepareRun g opts (w\<lparr>w_sess := None\<rparr>) = (cfg, v)" "rc_runID cfg \<noteq> ''''"
    and q: "quiet_handler (handler_of ctx0 cfg)"
    and w: "store_ready known ok t N w" "vacant g t '''' w"
    and b: "rng_pos (w_rng v) + Suc m \<le> N" "int (Suc m) \<le> max_int64"
      "rc_maxSteps cfg \<le> 0 \<or> int (Suc m) < rc_maxSteps cfg"
  shows "\<exists>p' w'. Invoke g ctx0 input opts w = Some (out, None, w') \<and> vacant g t p' w'
    \<and> landed latest known ok t n out (int (Suc m)) N (rng_pos (w_rng v) + Suc m) p' w'"
proof (rule Invoke_live [OF u cl [unfolded t_def] q pr w [unfolded t_def], folded t_def], goal_cases)
  case (1 ctx w1)
  have lt: "rng_pos (w_rng w1) + Suc m \<le> N" using b(1) 1(4) by simp
  show ?case
  proof (rule run_ends [OF u plan wk 1(1) 1(2) [unfolded t_def] lt 1(3) [unfolded t_def], where k = "0", folded t_def])
    fix p' w'
    assume "run g ctx input (g_entry g) 0 '''' cfg w1 = Some (out, None, w')"
      "store_ready known ok t N w'" "rng_pos (w_rng w') = rng_pos (w_rng w1) + Suc m"
      "alive g t p' w'" "0 < Suc m \<longrightarrow> at_point latest t n out (0 + int (Suc m)) p' w'"
    then show ?case using 1(4) by (auto simp: landed_def)
  qed (use b in auto)
qed

lemma Invoke_bounded:
  fixes cfg
  defines "t \<equiv> rc_threadID cfg"
  assumes u: "uses g" and plan: "follows_plan g plan" and cl: "calm_lease latest known ok t g"
    and wk: "walk g plan (Suc m) (g_entry g) input = Some (n, s)"
    and pr: "prepareRun g opts (w\<lparr>w_sess := None\<rparr>) = (cfg, v)" "rc_runID cfg \<noteq> ''''"
    and q: "quiet_handler (handler_of ctx0 cfg)"
    and w: "store_ready known ok t N w" "vacant g t '''' w"
    and b: "rng_pos (w_rng v) + Suc m \<le> N" "int (Suc m) \<le> max_int64" "rc_maxSteps cfg = int (Suc m)"
  shows "\<exists>p' w'. Invoke g ctx0 input opts w
      = Some (s, Some (Errorf ''graph: max steps %d exceeded'' [AInt (rc_maxSteps cfg)]), w')
    \<and> vacant g t p' w' \<and> landed latest known ok t n s (int (Suc m)) N (rng_pos (w_rng v) + Suc m) p' w'"
proof (rule Invoke_live [OF u cl [unfolded t_def] q pr w [unfolded t_def], folded t_def], goal_cases)
  case (1 ctx w1)
  have lt: "rng_pos (w_rng w1) + Suc m \<le> N" using b(1) 1(4) by simp
  show ?case
  proof (rule run_bounded [OF u plan wk 1(1) 1(2) [unfolded t_def] lt 1(3) [unfolded t_def], where k = "0", folded t_def])
    fix p' w'
    assume "run g ctx input (g_entry g) 0 '''' cfg w1
        = Some (s, Some (Errorf ''graph: max steps %d exceeded'' [AInt (rc_maxSteps cfg)]), w')"
      "store_ready known ok t N w'" "rng_pos (w_rng w') = rng_pos (w_rng w1) + Suc m"
      "alive g t p' w'" "at_point latest t n s (0 + int (Suc m)) p' w'"
    then show ?case using 1(4) by (auto simp: landed_def)
  qed (use b in auto)
qed

lemma Resume_ends:
  fixes cfg
  defines "t \<equiv> rc_threadID cfg"
  assumes u: "uses g" and plan: "follows_plan g plan" and cl: "calm_lease latest known ok t g"
    and pt: "at_point latest t n0 s0 (int k) p w" "n0 \<notin> {'''', END}"
    and wk: "walk g plan (Suc m) n0 s0 = Some (n, out)" "n \<in> {'''', END}"
    and pr: "prepareRun g opts (w\<lparr>w_sess := None\<rparr>) = (cfg, v)" "rc_runID cfg \<noteq> ''''" "rc_command cfg = None"
      "rc_expectedCheckpointID cfg \<in> {'''', p}" "thread \<in> {'''', t}"
    and q: "quiet_handler (handler_of ctx0 cfg)"
    and w: "store_ready known ok t N w" "vacant g t p w"
    and b: "rng_pos (w_rng v) + Suc m \<le> N" "int k + int (Suc m) \<le> max_int64"
      "rc_maxSteps cfg \<le> 0 \<or> int k + int (Suc m) < rc_maxSteps cfg"
  shows "\<exists>p' w'. Resume g ctx0 thread opts w = Some (out, None, w') \<and> vacant g t p' w'
    \<and> landed latest known ok t n out (int k + int (Suc m)) N (rng_pos (w_rng v) + Suc m) p' w'"
proof (rule Resume_live [OF u cl [unfolded t_def] q pr [unfolded t_def] w [unfolded t_def] pt [unfolded t_def],
    folded t_def], goal_cases)
  case (1 ctx w1)
  have lt: "rng_pos (w_rng w1) + Suc m \<le> N" using b(1) 1(4) by simp
  show ?case
  proof (rule run_ends [OF u plan wk 1(1) 1(2) [unfolded t_def] lt 1(3) [unfolded t_def], where k = "int k", folded t_def])
    fix p' w'
    assume "run g ctx s0 n0 (int k) p cfg w1 = Some (out, None, w')"
      "store_ready known ok t N w'" "rng_pos (w_rng w') = rng_pos (w_rng w1) + Suc m"
      "alive g t p' w'" "0 < Suc m \<longrightarrow> at_point latest t n out (int k + int (Suc m)) p' w'"
    then show ?case using 1(4) by (auto simp: landed_def)
  qed (use b in auto)
qed

end

context live_store
begin

text \<open>Resuming a thread whose latest snapshot is an end of the graph.\<close>

lemma Resume_done:
  fixes cfg
  defines "t \<equiv> rc_threadID cfg"
  assumes u: "uses g" and cl: "calm_lease latest known ok t g" and q: "quiet_handler (handler_of ctx0 cfg)"
    and pr: "prepareRun g opts (w\<lparr>w_sess := None\<rparr>) = (cfg, v)" "rc_runID cfg \<noteq> ''''" "rc_command cfg = None"
      "rc_expectedCheckpointID cfg \<in> {'''', p}" "thread \<in> {'''', t}"
    and w: "store_ready known ok t N w" "vacant g t p w"
    and pt: "at_point latest t n s st p w" "n \<in> {'''', END}"
  shows "\<exists>p' w'. Resume g ctx0 thread opts w = Some (s, None, w') \<and> vacant g t p' w'
    \<and> landed latest known ok t n s st N (rng_pos (w_rng v)) p' w'"
proof -
  have cv: "calm latest known ok t w v"
    using calm_trans [OF calm_same_store calm_prepareRun [OF pr(1)]] by simp
  from w(1) cv have rv: "store_ready known ok t N v" by (rule store_ready_calm)
  have vv: "vacant g t p v" using vacant_same [OF w(2) prepareRun_frame [OF pr(1)]] .
  have cfg: "(if thread \<noteq> [] then cfg\<lparr>rc_threadID := thread\<rparr> else cfg) = cfg"
    using pr(5) by (auto simp: t_def)
  have R: "Resume g ctx0 thread opts w = withLease g ctx0 cfg (resume_body g cfg) v"
    using has_store [OF u] by (auto simp: Resume_def pr(1) cfg Let_def hasStore_def)
  show ?thesis
    unfolding R
  proof (rule lease_live [OF u cl [unfolded t_def] q pr(2) rv [unfolded t_def] vv [unfolded t_def], folded t_def], goal_cases)
    case (1 ctx1 w1)
    from pt(1) 1(4) calm_latest [OF cv] obtain sn where sn: "latest (w_store w1) t = Some sn"
      "sn_Node sn = n" "sn_State sn = s" "sn_Step sn = st" "sn_CheckpointID sn = p"
      by (auto simp: at_point_def)
    have ok1: "ok (w_store w1)" using 1(2) by (simp add: store_ready_def)
    have ld: "loadLatest g (rc_threadID cfg) w1 = Inr (Some sn)"
      using load [OF u ok1, of t] sn(1) by (simp add: t_def)
    have qc: "quiet_handler (handler_of (enrichCtx ctx1 cfg p w1) cfg)" using q 1(1) by simp
    have rn: "resume_node cfg sn = n" "resume_state g cfg sn = s" "wrong_checkpoint cfg sn = False"
      using pr(3,4) sn by (auto simp: resume_node_def resume_state_def wrong_checkpoint_def)
    have yes: "(n = '''' \<or> n = END) = True" using pt(2) by simp
    obtain ev1 ev2 where "resume_body g cfg ctx1 w1 = Some (s, None,
        emit (enrichCtx ctx1 cfg p w1) cfg ev2 (emit (enrichCtx ctx1 cfg p w1) cfg ev1 w1))"
      unfolding resume_body_point [OF ld] rn Let_def yes sn if_True if_False by blast
    moreover have i: "idle w1 (emit (enrichCtx ctx1 cfg p w1) cfg ev2 (emit (enrichCtx ctx1 cfg p w1) cfg ev1 w1))"
      using idle_emit [OF qc] idle_trans by blast
    moreover have "landed latest known ok t n s st N (rng_pos (w_rng v)) p w1"
      using 1(2,4,5) pt(1) calm_latest [OF cv] by (auto simp: landed_def at_point_def)
    ultimately show ?case using alive_idle [OF 1(3) i] landed_idle [OF _ i] by blast
  qed
qed

end

section \<open>The stores keep a run going\<close>

lemma commit_succeeds:
  assumes "sn_ThreadID snap \<noteq> ''''" "sn_CheckpointID snap \<noteq> ''''"
    and "sn_CheckpointID snap \<notin> dm_known m (sn_ThreadID snap)"
    and "mt_latestID (thread_at m (sn_ThreadID snap)) = sn_ParentCheckpointID snap"
  shows "\<exists>m'. DM_CommitStep now snap [] m r = (None, m', r)
    \<and> mt_latestID (thread_at m' (sn_ThreadID snap)) = sn_CheckpointID snap"
proof -
  have "List.find (\<lambda>e. sn_CheckpointID e = sn_CheckpointID snap)
      (mt_history (thread_at m (sn_ThreadID snap))) = None"
    using assms(3) unfolding dm_known_def find_None_iff by (metis imageI)
  with assms show ?thesis
    by (simp add: DM_CommitStep_def commitStepLocked_def threadLocked_eq Let_def)
qed

definition uncancelled :: "('s, 'u) World \<Rightarrow> bool" where
  "uncancelled w \<longleftrightarrow> w_caller w = None \<and> w_cancel w = None"

lemma uncancelled_ctx: "uncancelled w \<Longrightarrow> ctx_Err w = None \<and> leaseLostFrom w = None"
  by (simp add: uncancelled_def ctx_Err_def leaseLostFrom_eq cause_is_lease_lost_def ctx_Cause_def)

definition dm_alive :: "(DurableMemory, 'u) Compiled \<Rightarrow> string \<Rightarrow> string \<Rightarrow> (DurableMemory, 'u) World \<Rightarrow> bool" where
  "dm_alive g t p w \<longleftrightarrow> t \<noteq> '''' \<and> uncancelled w \<and> mt_latestID (thread_at (w_store w) t) = p"

interpretation dm_live: live_store dm_uses dm_latest dm_known "\<lambda>m. True" dm_alive dm_alive
proof (unfold_locales, goal_cases)
  case (3 g w cfg p snap)
  then have "sn_ThreadID snap \<noteq> ''''" "mt_latestID (thread_at (w_store w) (sn_ThreadID snap)) = sn_ParentCheckpointID snap"
    by (simp_all add: dm_alive_def)
  from commit_succeeds [OF this(1) 3(6) 3(7) [folded 3(4)] this(2), of "w_clock w" "w_rng w"] obtain m' where
    c: "DM_CommitStep (w_clock w) snap [] (w_store w) (w_rng w) = (None, m', w_rng w)"
    "mt_latestID (thread_at m' (sn_ThreadID snap)) = sn_CheckpointID snap" by blast
  then have "persist g cfg snap [] w = (None, w\<lparr>w_store := m'\<rparr>)"
    using 3 uncancelled_ctx [of w]
    by (simp add: persist_def dm_uses_def dm_alive_def DurableMemory_at_def on_store_def)
  with c(2) 3 show ?case by (auto simp: dm_alive_def uncancelled_def)
qed (auto simp: dm_alive_def same_run_def uncancelled_def dm_uses_def ctx_Err_def)

definition fenced_alive :: "(Fenced, 'u) Compiled \<Rightarrow> string \<Rightarrow> string \<Rightarrow> (Fenced, 'u) World \<Rightarrow> bool" where
  "fenced_alive g t p w \<longleftrightarrow>
     t \<noteq> '''' \<and> uncancelled w \<and> f_Store (w_store w) \<noteq> None
     \<and> mt_latestID (thread_at (f_get (w_store w)) t) = p
     \<and> (g_lease g \<noteq> None \<longrightarrow> (\<exists>gr l. w_sess w = Some gr \<and> lg_ThreadID gr = t
          \<and> f_Lease (w_store w) = Some l \<and> grant_active (w_clock w) gr l))"

definition fenced_vacant :: "(Fenced, 'u) Compiled \<Rightarrow> string \<Rightarrow> string \<Rightarrow> (Fenced, 'u) World \<Rightarrow> bool" where
  "fenced_vacant g t p w \<longleftrightarrow>
     t \<noteq> '''' \<and> uncancelled w \<and> f_Store (w_store w) \<noteq> None
     \<and> mt_latestID (thread_at (f_get (w_store w)) t) = p
     \<and> (g_lease g \<noteq> None \<longrightarrow> ml_runID (ml_at (l_get (w_store w)) t) = ''''
          \<or> ml_expiresAt (ml_at (l_get (w_store w)) t) \<le> w_clock w)"

lemma fenced_acquire:
  assumes "t \<noteq> ''''" "rid \<noteq> ''''" "0 < ttl" "uncancelled w"
    and "ml_runID (ml_at (l_get (w_store w)) t) = '''' \<or> ml_expiresAt (ml_at (l_get (w_store w)) t) \<le> w_clock w"
  shows "\<exists>gr l'. el_Acquire Fenced_lease t rid ttl w = (Inr gr, w\<lparr>w_store := (w_store w)\<lparr>f_Lease := Some l'\<rparr>\<rparr>)
    \<and> lg_ThreadID gr = t \<and> grant_active (w_clock w) gr l'"
proof -
  have "ml_runID (ml_at (l_get (w_store w)) t) = '''' \<or> \<not> ml_expiresAt (ml_at (l_get (w_store w)) t) > w_clock w"
    using assms(5) by auto
  note a = Acquire_free [OF assms(1,2) this, of ttl]
  let ?n = "wrap64 (ml_epoch (ml_at (l_get (w_store w)) t) + 1)" and ?e = "w_clock w + ttl"
  show ?thesis
    using a assms(3,4)
    by (intro exI [of _ "\<lparr>lg_ThreadID = t, lg_RunID = rid, lg_Epoch = ?n, lg_ExpiresAt = ?e\<rparr>"]
        exI [of _ "(l_get (w_store w))(t \<mapsto> \<lparr>ml_runID = rid, ml_epoch = ?n, ml_expiresAt = ?e\<rparr>)"])
      (simp add: Fenced_lease_def uncancelled_ctx Let_def grant_active_def)
qed

lemma fenced_release:
  assumes "grant_active (w_clock w) gr lz" "f_Lease (w_store w) = Some lz" "uncancelled w"
  shows "\<exists>l'. snd (el_Release Fenced_lease gr w) = w\<lparr>w_store := (w_store w)\<lparr>f_Lease := Some l'\<rparr>\<rparr>
    \<and> ml_runID (ml_at l' (lg_ThreadID gr)) = ''''"
proof -
  obtain st where "lz (lg_ThreadID gr) = Some st" "ml_runID st = lg_RunID gr" "ml_epoch st = lg_Epoch gr"
    using assms(1) by (auto simp: grant_active_def split: option.splits)
  then have "ML_Release None gr lz = (None, lz(lg_ThreadID gr \<mapsto> st\<lparr>ml_runID := '''', ml_expiresAt := 0\<rparr>))"
    by (simp add: ML_Release_def)
  with assms(2,3) show ?thesis
    by (intro exI [of _ "lz(lg_ThreadID gr \<mapsto> st\<lparr>ml_runID := '''', ml_expiresAt := 0\<rparr>)"])
      (simp add: Fenced_lease_def uncancelled_ctx l_get_def)
qed

interpretation fenced_live: live_store fenced_uses "\<lambda>f. dm_latest (f_get f)" "\<lambda>f. dm_known (f_get f)"
  "\<lambda>f. f_Store f \<noteq> None" fenced_alive fenced_vacant
proof (unfold_locales, goal_cases)
  case (3 g w cfg p snap)
  let ?t = "sn_ThreadID snap" and ?m = "f_get (w_store w)"
  have t: "?t \<noteq> ''''" "mt_latestID (thread_at ?m ?t) = sn_ParentCheckpointID snap"
    using 3 by (simp_all add: fenced_alive_def)
  from commit_succeeds [OF t(1) 3(6) 3(7) [folded 3(4)] t(2), of "w_clock w" "w_rng w"] obtain m' where
    c: "DM_CommitStep (w_clock w) snap [] ?m (w_rng w) = (None, m', w_rng w)"
    "mt_latestID (thread_at m' ?t) = sn_CheckpointID snap" by blast
  have m: "f_Store (w_store w) = Some ?m" using 3(2) by (auto simp: f_get_def)
  have "persist g cfg snap [] w = (None, w\<lparr>w_store := f_put m' (w_store w)\<rparr>)"
  proof (cases "g_lease g")
    case None
    with 3 c(1) uncancelled_ctx [of w] show ?thesis
      by (simp add: persist_def fenced_uses_def fenced_alive_def Fenced_store_simps on_store_def)
  next
    case (Some l)
    with 3 obtain gr lz where gr: "w_sess w = Some gr" "lg_ThreadID gr = ?t" "f_Lease (w_store w) = Some lz"
      "grant_active (w_clock w) gr lz" by (auto simp: fenced_alive_def)
    from c(1) t(1) 3(6) have "commitStepLocked (w_clock w) snap [] ?m (w_rng w) = (None, m', w_rng w)"
      by (simp add: DM_CommitStep_def)
    with gr m t(1) 3(6) have "CommitStepFenced (w_clock w) snap [] gr (w_store w) (w_rng w)
        = (None, f_put m' (w_store w), w_rng w)"
      by (simp add: CommitStepFenced_def validateActiveLocked_def f_put_def)
    with Some 3 gr(1) uncancelled_ctx [of w] show ?thesis
      by (simp add: persist_def fenced_uses_def fenced_alive_def Fenced_store_simps)
  qed
  with c(2) 3 show ?case by (auto simp: fenced_alive_def uncancelled_def f_put_def f_get_def)
next
  case (5 g t p w rid ttl)
  show ?case
  proof (cases "g_lease g")
    case None
    with 5 show ?thesis by (simp add: fenced_alive_def fenced_vacant_def)
  next
    case (Some l)
    with 5(1) have l: "l = Fenced_lease" by (simp add: fenced_uses_def)
    from 5(2-4) Some fenced_acquire [of t rid ttl w] obtain gr l' where
      "el_Acquire Fenced_lease t rid ttl w = (Inr gr, w\<lparr>w_store := (w_store w)\<lparr>f_Lease := Some l'\<rparr>\<rparr>)"
      "lg_ThreadID gr = t" "grant_active (w_clock w) gr l'" by (auto simp: fenced_vacant_def)
    with Some 5(2) l show ?thesis
      by (auto simp: fenced_alive_def fenced_vacant_def uncancelled_def derive_ctx_def f_get_def)
  qed
next
  case (6 g t p w)
  show ?case
  proof (cases "g_lease g")
    case None
    with 6 show ?thesis by (simp add: fenced_alive_def fenced_vacant_def)
  next
    case (Some l)
    with 6(1) have l: "l = Fenced_lease" by (simp add: fenced_uses_def)
    from Some 6(2) obtain gr lz where gr: "w_sess w = Some gr" "lg_ThreadID gr = t"
      "f_Lease (w_store w) = Some lz" "grant_active (w_clock w) gr lz" by (auto simp: fenced_alive_def)
    then obtain l' where "snd (el_Release Fenced_lease gr w) = w\<lparr>w_store := (w_store w)\<lparr>f_Lease := Some l'\<rparr>\<rparr>"
      "ml_runID (ml_at l' t) = ''''"
      using fenced_release [of w gr lz] 6(2) by (auto simp: fenced_alive_def)
    with Some 6(2) l gr(1) show ?thesis
      by (auto simp: fenced_alive_def fenced_vacant_def uncancelled_def f_get_def l_get_def)
  qed
qed (auto simp: fenced_alive_def fenced_vacant_def same_run_def uncancelled_def ctx_Err_def)

end
