(* ===== verification/RunProps.thy ===== *)
theory RunProps
  imports Liveness
begin

text \<open>
  The properties of runs on the stores of the repository: that they finish, what they leave
  behind, and that they can be stopped and resumed without changing their result. They are
  stated for graphs compiled with a \<open>Fenced\<close> store, with or without its lease; a
  \<open>DurableMemory\<close> is what such a store commits to.
\<close>

section \<open>The views of a Fenced store\<close>

abbreviation fenced_latest :: "Fenced \<Rightarrow> string \<Rightarrow> Snapshot option" where
  "fenced_latest f \<equiv> dm_latest (f_get f)"

abbreviation fenced_known :: "Fenced \<Rightarrow> string \<Rightarrow> string set" where
  "fenced_known f \<equiv> dm_known (f_get f)"

abbreviation fenced_ok :: "Fenced \<Rightarrow> bool" where
  "fenced_ok f \<equiv> f_Store f \<noteq> None"

section \<open>Runs that finish\<close>

text \<open>
  C20: Runs finish. Let a graph be compiled with a \<open>Fenced\<close> store and lease (or the store
  alone), let its nodes compute their updates without error and without touching the store,
  and let following them lead from the entry to the end in \<open>m + 1\<close> rounds. Invoked on a thread
  without history whose lease is free, uncancelled, with enough fresh ids and a step bound
  that is off or larger than the number of rounds, \<open>Invoke\<close> returns the state in which the
  graph ends, without error. The thread's latest checkpoint is then that end, at step \<open>m + 1\<close>,
  and the lease is free again.
\<close>

theorem Invoke_completes:
  assumes "fenced_uses g" "follows_plan g plan"
    and "walk g plan (Suc m) (g_entry g) input = Some (n, out)" "n \<in> {'''', END}"
    and "prepareRun g opts (w\<lparr>w_sess := None\<rparr>) = (cfg, v)" "rc_runID cfg \<noteq> ''''"
    and "quiet_handler (handler_of ctx cfg)"
    and "store_ready fenced_known fenced_ok (rc_threadID cfg) N w"
    and "fenced_vacant g (rc_threadID cfg) '''' w"
    and "rng_pos (w_rng v) + Suc m \<le> N" "int (Suc m) \<le> max_int64"
    and "rc_maxSteps cfg \<le> 0 \<or> int (Suc m) < rc_maxSteps cfg"
  shows "\<exists>p w'. Invoke g ctx input opts w = Some (out, None, w')
    \<and> at_point fenced_latest (rc_threadID cfg) n out (int (Suc m)) p w'
    \<and> fenced_vacant g (rc_threadID cfg) p w'"
  using fenced_live.Invoke_ends [OF assms(1,2) fenced_calm_lease [OF assms(1)] assms(3-12)]
  by (auto simp: landed_def)

text \<open>
  C22: The step bound is checked after the checkpoint, also when the graph has just ended. With
  a bound of exactly the number of rounds that the graph needs, \<open>Invoke\<close> fails with the
  step-bound error although the thread's latest checkpoint is the end of the graph; with a
  smaller bound it fails and leaves the point it reached.
\<close>

theorem Invoke_step_bound:
  assumes "fenced_uses g" "follows_plan g plan"
    and "walk g plan (Suc m) (g_entry g) input = Some (n, s)"
    and "prepareRun g opts (w\<lparr>w_sess := None\<rparr>) = (cfg, v)" "rc_runID cfg \<noteq> ''''"
    and "quiet_handler (handler_of ctx cfg)"
    and "store_ready fenced_known fenced_ok (rc_threadID cfg) N w"
    and "fenced_vacant g (rc_threadID cfg) '''' w"
    and "rng_pos (w_rng v) + Suc m \<le> N" "int (Suc m) \<le> max_int64"
    and "rc_maxSteps cfg = int (Suc m)"
  shows "\<exists>p w'. Invoke g ctx input opts w
      = Some (s, Some (Errorf ''graph: max steps %d exceeded'' [AInt (int (Suc m))]), w')
    \<and> at_point fenced_latest (rc_threadID cfg) n s (int (Suc m)) p w'"
  using fenced_live.Invoke_bounded [OF assms(1,2) fenced_calm_lease [OF assms(1)] assms(3-11)] assms(11)
  by (auto simp: landed_def)

section \<open>What runs leave behind\<close>

text \<open>
  C19: What an invocation leaves on its thread, whatever its nodes do (fail, pause, lose
  the lease, run past the step bound), as long as nobody else writes to the thread. A completed
  run has written its result: the latest checkpoint is an end of the graph, with the returned
  state, which the graph reaches from the entry. A paused run has written the pause: the latest
  checkpoint is the node that asked, with the returned state and the payload of the interrupt.
  A failed run has not moved the thread beyond a point the graph reaches: the latest checkpoint
  is the one from before the run or such a point.
\<close>

theorem Invoke_leaves_thread:
  assumes "fenced_uses g" "fst (prepareRun g opts (w\<lparr>w_sess := None\<rparr>)) = cfg" "rc_threadID cfg = t"
    and "calm_run fenced_latest fenced_known fenced_ok g cfg (handler_of ctx cfg)"
    and "store_ready fenced_known fenced_ok t N w" "g_entry g \<notin> {'''', END}"
    and "Invoke g ctx input opts w = Some (s, e, w')" "rng_pos (w_rng w') \<le> N"
  shows "case e of
      None \<Rightarrow> \<exists>n st p. n \<in> {'''', END} \<and> (node_step g)\<^sup>*\<^sup>* (g_entry g, input) (n, s)
        \<and> at_point fenced_latest t n s st p w'
    | Some x \<Rightarrow> (case AsInterrupt x of
        Some ie \<Rightarrow> x = Interrupted ie \<and> (\<exists>st s0. (node_step g)\<^sup>*\<^sup>* (g_entry g, input) (ie_Node ie, s0)
          \<and> pause_state g (ie_Node ie, s0) s \<and> at_pause fenced_latest t (ie_Node ie) s st (ie_Value ie) w')
      | None \<Rightarrow> fenced_latest (w_store w') t = fenced_latest (w_store w) t
          \<or> (\<exists>n s' st p. (node_step g)\<^sup>*\<^sup>* (g_entry g, input) (n, s') \<and> at_point fenced_latest t n s' st p w'))"
proof -
  note il = fenced.Invoke_leaves [OF assms(1,4) fenced_calm_lease [OF assms(1)] assms(2) _ assms(7,8),
      unfolded assms(3), OF assms(5)]
  from il(2) assms(6) show ?thesis by (cases e) (simp_all add: run_left_def)
qed

text \<open>
  C18: Recovery is transparent. Let the steps of a graph be functions of node and state (its
  nodes may fail or pause at will). If an invocation on a new thread fails or pauses after its
  first checkpoint, and the thread is then resumed any number of times, each time failing or
  pausing again somewhere, the resume that finally completes returns the same state as an
  invocation of the same input that is never disturbed.
\<close>

theorem recovery_transparent:
  assumes "fenced_uses g" "det_graph g"
    and "fst (prepareRun g opts0 (w\<lparr>w_sess := None\<rparr>)) = cfg0" "rc_threadID cfg0 = t"
    and "calm_run fenced_latest fenced_known fenced_ok g cfg0 (handler_of ctx0 cfg0)"
    and "store_ready fenced_known fenced_ok t N w" "fenced_latest (w_store w) t = None"
    and "Invoke g ctx0 input opts0 w = Some (s0, Some e0, w0)" "rng_pos (w_rng w0) \<le> N"
    and "fenced_latest (w_store w0) t \<noteq> None"
    and "tried fenced_latest fenced_known fenced_ok g ctx1 t N w0 w1"
    and "calm fenced_latest fenced_known fenced_ok t w1 w2"
    and "resume_config g t opts w2 = cfg" "rc_threadID cfg = t" "plain_resume cfg"
    and "calm_run fenced_latest fenced_known fenced_ok g cfg (handler_of ctx1 cfg)"
    and "Resume g ctx1 t opts w2 = Some (out, None, w3)" "rng_pos (w_rng w3) \<le> N"
    and "fst (prepareRun g opts' (u\<lparr>w_sess := None\<rparr>)) = cfg'"
    and "calm_run fenced_latest fenced_known fenced_ok g cfg' (handler_of ctx' cfg')"
    and "store_ready fenced_known fenced_ok (rc_threadID cfg') N' u"
    and "Invoke g ctx' input opts' u = Some (out', None, u')" "rng_pos (w_rng u') \<le> N'"
  shows "out = out'"
proof -
  note cl = fenced_calm_lease [OF assms(1)]
  have "ends_with g (g_entry g, input) out"
    by (rule fenced.recovery [OF assms(1,2) cl assms(3-18)])
  moreover have "ends_with g (g_entry g, input) out'"
    by (rule fenced.undisturbed [OF assms(1,2) cl assms(19-23)])
  ultimately show ?thesis using ends_with_unique [OF assms(2)] by blast
qed

section \<open>Stopping and resuming\<close>

text \<open>
  C21: A run that a step bound stopped goes on where it stopped. Resumed without a command and
  with room for the remaining rounds, the thread is run to the end, and the result and the
  final step count are those of the whole walk from the entry: no round is repeated or skipped.
\<close>

theorem stopped_run_resumes:
  assumes "fenced_uses g" "follows_plan g plan"
    and "walk g plan (Suc k) (g_entry g) input = Some (n0, s0)" "n0 \<notin> {'''', END}"
    and "walk g plan (Suc m) n0 s0 = Some (n, out)" "n \<in> {'''', END}"
    and "prepareRun g opts (w\<lparr>w_sess := None\<rparr>) = (cfg, v)" "rc_runID cfg \<noteq> ''''"
    and "rc_maxSteps cfg = int (Suc k)" "rc_threadID cfg = t"
    and "quiet_handler (handler_of ctx cfg)"
    and "store_ready fenced_known fenced_ok t N w" "fenced_vacant g t '''' w"
    and "Invoke g ctx input opts w = Some (s1, e1, w1)"
    and "prepareRun g opts' (w1\<lparr>w_sess := None\<rparr>) = (cfg', v')" "rc_runID cfg' \<noteq> ''''"
    and "rc_command cfg' = None" "rc_expectedCheckpointID cfg' = ''''" "rc_threadID cfg' = t"
    and "rc_maxSteps cfg' \<le> 0" "quiet_handler (handler_of ctx' cfg')"
    and "rng_pos (w_rng v) + Suc k \<le> N" "rng_pos (w_rng v') + Suc m \<le> N" "int (Suc k) + int (Suc m) \<le> max_int64"
  shows "\<exists>p w'. e1 \<noteq> None \<and> Resume g ctx' t opts' w1 = Some (out, None, w')
    \<and> at_point fenced_latest t n out (int (Suc k) + int (Suc m)) p w'"
proof -
  note cl = fenced_calm_lease [OF assms(1)]
  from fenced_live.Invoke_bounded [OF assms(1,2) cl assms(3,7,8,11) _ _ _ _ assms(9)] assms(10,12,13,22,24)
  obtain p1 where e1: "e1 \<noteq> None" and v1: "fenced_vacant g t p1 w1"
    and l1: "landed fenced_latest fenced_known fenced_ok t n0 s0 (int (Suc k)) N (rng_pos (w_rng v) + Suc k) p1 w1"
    using assms(14) by auto
  from l1 have r1: "store_ready fenced_known fenced_ok t N w1" "at_point fenced_latest t n0 s0 (int (Suc k)) p1 w1"
    by (simp_all add: landed_def)
  from fenced_live.Resume_ends [OF assms(1,2) cl _ assms(4-6,15-17) _ _ assms(21) _ _ assms(23,24),
      of p1 t] assms(18-20) r1 v1
  obtain p' w' where "Resume g ctx' t opts' w1 = Some (out, None, w')"
    "landed fenced_latest fenced_known fenced_ok t n out (int (Suc k) + int (Suc m)) N (rng_pos (w_rng v') + Suc m) p' w'" by auto
  with e1 show ?thesis by (auto simp: landed_def)
qed

text \<open>
  C23: A finished thread stays finished. Resuming a thread whose latest checkpoint is an end of
  the graph returns the stored state without error, whatever the nodes of the graph would do
  (none is called), and leaves the thread at that checkpoint with its lease released.
\<close>

theorem Resume_finished:
  assumes "fenced_uses g" "prepareRun g opts (w\<lparr>w_sess := None\<rparr>) = (cfg, v)" "rc_runID cfg \<noteq> ''''"
    and "rc_command cfg = None" "rc_expectedCheckpointID cfg \<in> {'''', p}" "rc_threadID cfg = t"
    and "quiet_handler (handler_of ctx cfg)"
    and "store_ready fenced_known fenced_ok t N w" "fenced_vacant g t p w"
    and "at_point fenced_latest t n s st p w" "n \<in> {'''', END}"
  shows "\<exists>p' w'. Resume g ctx t opts w = Some (s, None, w')
    \<and> at_point fenced_latest t n s st p' w' \<and> fenced_vacant g t p' w'"
proof -
  have "\<exists>p' w'. Resume g ctx t opts w = Some (s, None, w') \<and> fenced_vacant g (rc_threadID cfg) p' w'
    \<and> landed fenced_latest fenced_known fenced_ok (rc_threadID cfg) n s st N (rng_pos (w_rng v)) p' w'"
    by (rule fenced_live.Resume_done [OF assms(1) fenced_calm_lease [OF assms(1)] assms(7,2-5)])
      (use assms(6,8-11) in simp_all)
  then show ?thesis using assms(6) by (auto simp: landed_def)
qed


section \<open>Instances\<close>

text \<open>A graph of two nodes on a \<open>Fenced\<close> store with its lease.\<close>

definition leased :: "(Fenced, 'u) Compiled \<Rightarrow> (Fenced, 'u) Compiled" where
  "leased g = g\<lparr>g_durable := Some Fenced_store, g_lease := Some Fenced_lease\<rparr>"

definition two_plan :: "string \<Rightarrow> (State \<Rightarrow> Update) option" where
  "two_plan = [''a'' \<mapsto> (\<lambda>s. [(''x'', VInt 1)]), ''b'' \<mapsto> (\<lambda>s. [(''y'', at_key s ''x'')])]"

definition two_result :: State where
  "two_result = [''x'' \<mapsto> VInt 1, ''y'' \<mapsto> VInt 1]"

abbreviation fenced_world :: "(Fenced, unit) World" where
  "fenced_world \<equiv> sample_world NewFencedMemory"

lemma leased_uses: "fenced_uses (leased g)"
  by (simp add: leased_def fenced_uses_def)

lemma computes_pure_node: "computes (pure_node f) f"
  by (simp add: computes_def pure_node_def)

lemma leased_plan: "follows_plan (leased two_step) two_plan"
  by (simp add: follows_plan_def leased_def two_step_def bare_graph_def two_plan_def next_node_def
      computes_pure_node)

lemma leased_simps [simp]:
  "g_entry (leased two_step) = ''a''" "g_lease (leased g) = Some Fenced_lease"
  "g_reducers (leased two_step) = Map.empty" "g_leaseTTL (leased two_step) = DefaultLeaseTTL"
  by (simp_all add: leased_def two_step_def bare_graph_def)

lemma two_next:
  "next_node (leased two_step) ctx ''a'' s = Inr ''b''" "next_node (leased two_step) ctx ''b'' s = Inr END"
  by (simp_all add: next_node_def leased_def two_step_def bare_graph_def)

lemma two_walks:
  "walk (leased two_step) two_plan (Suc 0) ''a'' Map.empty = Some (''b'', [''x'' \<mapsto> VInt 1])"
  "walk (leased two_step) two_plan (Suc 0) ''b'' [''x'' \<mapsto> VInt 1] = Some (END, two_result)"
  "walk (leased two_step) two_plan (Suc (Suc 0)) ''a'' Map.empty = Some (END, two_result)"
  by (simp_all add: two_plan_def two_next two_result_def at_key_def)

text \<open>The preparation of a run with a good random source.\<close>

definition plain_config :: "int \<Rightarrow> string \<Rightarrow> (Fenced, unit) runConfig" where
  "plain_config n rid = \<lparr>rc_threadID = ''default'', rc_maxSteps = n, rc_command = None, rc_runID = rid,
     rc_events = None, rc_leaseTTL = DefaultLeaseTTL, rc_expectedCheckpointID = ''''\<rparr>"

lemma plain_config_simps [simp]:
  "rc_threadID (plain_config n rid) = ''default''" "rc_maxSteps (plain_config n rid) = n"
  "rc_command (plain_config n rid) = None" "rc_runID (plain_config n rid) = rid"
  "rc_events (plain_config n rid) = None" "rc_expectedCheckpointID (plain_config n rid) = ''''"
  "handler_of Background (plain_config n rid) = None"
  by (simp_all add: plain_config_def handler_of_def Background_def)

lemma prepare_plain:
  assumes "fresh_reads N (w_rng w)" "rng_pos (w_rng w) < N"
  obtains rid v where "prepareRun (leased two_step) [WithMaxSteps n] (w\<lparr>w_sess := None\<rparr>) = (plain_config n rid, v)"
    "prepareRun (leased two_step) [] (w\<lparr>w_sess := None\<rparr>) = (plain_config 0 rid, v)"
    "rid \<noteq> ''''" "rng_pos (w_rng v) = Suc (rng_pos (w_rng w))"
proof -
  let ?w = "w\<lparr>w_sess := None\<rparr>"
  obtain rid v where d: "draw_id ?w = (rid, v)" by (cases "draw_id ?w")
  have "fresh_reads N (w_rng ?w)" "rng_pos (w_rng ?w) < N" using assms by simp_all
  from draw_id_fresh [OF d this] drawn_id_nonempty [OF this]
  have r: "rid \<noteq> ''''" "rng_pos (w_rng v) = Suc (rng_pos (w_rng w))" by simp_all
  show thesis
    by (rule that [of rid v])
      (use d r in \<open>simp_all add: prepareRun_def plain_config_def WithMaxSteps_def Let_def DefaultLeaseTTL_def\<close>)
qed

lemma fenced_world_ready:
  "store_ready fenced_known fenced_ok ''default'' 256 fenced_world"
  "fenced_vacant (leased g) ''default'' '''' fenced_world"
  "fenced_latest NewFencedMemory ''default'' = None"
  by (simp_all add: store_ready_def sample_fresh NewFencedMemory_def f_get_def dm_known_def thread_at_new
      new_thread_def fenced_vacant_def uncancelled_def l_get_def ml_at_def NewMemoryLease_def
      dm_latest_def GetLatest_thread)

lemma fenced_world_prepare:
  obtains rid v where
    "prepareRun (leased two_step) [WithMaxSteps n] (fenced_world\<lparr>w_sess := None\<rparr>) = (plain_config n rid, v)"
    "prepareRun (leased two_step) [] (fenced_world\<lparr>w_sess := None\<rparr>) = (plain_config 0 rid, v)"
    "rid \<noteq> ''''" "rng_pos (w_rng v) = 1"
  using prepare_plain [of 256 fenced_world n thesis] sample_fresh by (simp add: sample_rng_def)

lemma quiet_none [simp]: "quiet_handler None"
  by (simp add: quiet_handler_def)

lemma max_ge: "int (Suc 0) \<le> max_int64" "int (Suc (Suc 0)) \<le> max_int64"
  "int (Suc 0) + int (Suc 0) \<le> max_int64"
  by (simp_all add: max_int64_def)

theorem Invoke_completes_witness:
  "\<exists>p w'. Invoke (leased two_step) Background Map.empty [] fenced_world = Some (two_result, None, w')
    \<and> at_point fenced_latest ''default'' END two_result 2 p w'"
proof -
  obtain rid v where p: "prepareRun (leased two_step) [] (fenced_world\<lparr>w_sess := None\<rparr>) = (plain_config 0 rid, v)"
    "rid \<noteq> ''''" "rng_pos (w_rng v) = 1" by (rule fenced_world_prepare)
  from Invoke_completes [OF leased_uses leased_plan _ _ p(1), of "Suc 0" Map.empty END two_result Background 256]
    two_walks(3) p(2,3) fenced_world_ready max_ge
  show ?thesis by (auto simp: max_int64_def)
qed

theorem Invoke_step_bound_witness:
  "\<exists>p w'. Invoke (leased two_step) Background Map.empty [WithMaxSteps 2] fenced_world
      = Some (two_result, Some (Errorf ''graph: max steps %d exceeded'' [AInt 2]), w')
    \<and> at_point fenced_latest ''default'' END two_result 2 p w'"
proof -
  obtain rid v where p: "prepareRun (leased two_step) [WithMaxSteps 2] (fenced_world\<lparr>w_sess := None\<rparr>)
      = (plain_config 2 rid, v)" "rid \<noteq> ''''" "rng_pos (w_rng v) = 1" by (rule fenced_world_prepare)
  from Invoke_step_bound [OF leased_uses leased_plan _ p(1), of "Suc 0" Map.empty END two_result Background 256]
    two_walks(3) p(2,3) fenced_world_ready max_ge
  show ?thesis by (auto simp: max_int64_def)
qed

text \<open>The three runs that the remaining instances are about.\<close>

lemma two_stopped:
  obtains rid v w1 p1 where
    "prepareRun (leased two_step) [WithMaxSteps 1] (fenced_world\<lparr>w_sess := None\<rparr>) = (plain_config 1 rid, v)"
    "rid \<noteq> ''''" "rng_pos (w_rng v) = 1"
    "Invoke (leased two_step) Background Map.empty [WithMaxSteps 1] fenced_world
      = Some ([''x'' \<mapsto> VInt 1], Some (Errorf ''graph: max steps %d exceeded'' [AInt 1]), w1)"
    "fenced_vacant (leased two_step) ''default'' p1 w1"
    "landed fenced_latest fenced_known fenced_ok ''default'' ''b'' [''x'' \<mapsto> VInt 1] 1 256 2 p1 w1"
proof -
  obtain rid v where p: "prepareRun (leased two_step) [WithMaxSteps 1] (fenced_world\<lparr>w_sess := None\<rparr>)
      = (plain_config 1 rid, v)" "rid \<noteq> ''''" "rng_pos (w_rng v) = 1" by (rule fenced_world_prepare)
  have "\<exists>p' w'. Invoke (leased two_step) Background Map.empty [WithMaxSteps 1] fenced_world
      = Some ([''x'' \<mapsto> VInt 1], Some (Errorf ''graph: max steps %d exceeded'' [AInt (rc_maxSteps (plain_config 1 rid))]), w')
    \<and> fenced_vacant (leased two_step) (rc_threadID (plain_config 1 rid)) p' w'
    \<and> landed fenced_latest fenced_known fenced_ok (rc_threadID (plain_config 1 rid)) ''b'' [''x'' \<mapsto> VInt 1]
        (int (Suc 0)) 256 (rng_pos (w_rng v) + Suc 0) p' w'"
    by (rule fenced_live.Invoke_bounded [OF leased_uses leased_plan fenced_calm_lease [OF leased_uses] _ p(1)])
      (use two_walks(1) p fenced_world_ready max_ge in \<open>simp_all del: walk.simps\<close>)
  then obtain p' w' where "Invoke (leased two_step) Background Map.empty [WithMaxSteps 1] fenced_world
      = Some ([''x'' \<mapsto> VInt 1], Some (Errorf ''graph: max steps %d exceeded'' [AInt 1]), w')"
    "fenced_vacant (leased two_step) ''default'' p' w'"
    "landed fenced_latest fenced_known fenced_ok ''default'' ''b'' [''x'' \<mapsto> VInt 1] 1 256 2 p' w'"
    using p(3) by (auto simp: numeral_2_eq_2)
  with p show thesis by (rule that)
qed

lemma two_resumed:
  assumes "fenced_vacant (leased two_step) ''default'' p1 w1"
    and "landed fenced_latest fenced_known fenced_ok ''default'' ''b'' [''x'' \<mapsto> VInt 1] 1 256 2 p1 w1"
  obtains rid v w2 p2 where
    "prepareRun (leased two_step) [] (w1\<lparr>w_sess := None\<rparr>) = (plain_config 0 rid, v)" "rid \<noteq> ''''"
    "rng_pos (w_rng v) = 3" "Resume (leased two_step) Background ''default'' [] w1 = Some (two_result, None, w2)"
    "landed fenced_latest fenced_known fenced_ok ''default'' END two_result 2 256 4 p2 w2"
proof -
  have r: "store_ready fenced_known fenced_ok ''default'' 256 w1" "rng_pos (w_rng w1) = 2"
    "at_point fenced_latest ''default'' ''b'' [''x'' \<mapsto> VInt 1] (int (Suc 0)) p1 w1"
    using assms(2) by (simp_all add: landed_def)
  then have "fresh_reads 256 (w_rng w1)" "rng_pos (w_rng w1) < 256" by (simp_all add: store_ready_def)
  from prepare_plain [OF this] r(2) obtain rid v where
    p: "prepareRun (leased two_step) [] (w1\<lparr>w_sess := None\<rparr>) = (plain_config 0 rid, v)" "rid \<noteq> ''''"
      "rng_pos (w_rng v) = 3" by (metis eval_nat_numeral(3) numeral_2_eq_2)
  have "\<exists>p' w'. Resume (leased two_step) Background ''default'' [] w1 = Some (two_result, None, w')
    \<and> fenced_vacant (leased two_step) (rc_threadID (plain_config 0 rid)) p' w'
    \<and> landed fenced_latest fenced_known fenced_ok (rc_threadID (plain_config 0 rid)) END two_result
        (int (Suc 0) + int (Suc 0)) 256 (rng_pos (w_rng v) + Suc 0) p' w'"
    by (rule fenced_live.Resume_ends [OF leased_uses leased_plan fenced_calm_lease [OF leased_uses] _ _ _ _ p(1)])
      (use two_walks(2) p r assms(1) max_ge in \<open>simp_all del: walk.simps\<close>)
  then obtain p' w' where "Resume (leased two_step) Background ''default'' [] w1 = Some (two_result, None, w')"
    "landed fenced_latest fenced_known fenced_ok ''default'' END two_result 2 256 4 p' w'"
    using p(3) by auto
  with p show thesis by (rule that)
qed

lemma leased_calm:
  "calm_run l k i (leased two_step) (plain_config n rid) (handler_of Background (plain_config n rid))"
  using quiet_calm_run [OF leased_plan quiet_none] by simp

lemma leased_det: "det_graph (leased two_step)"
proof -
  have n: "g_nodes (leased two_step) n = Some fn \<Longrightarrow> n \<in> {''a'', ''b''} \<and>
      fn = (if n = ''a'' then pure_node (\<lambda>s. [(''x'', VInt 1)]) else pure_node (\<lambda>s. [(''y'', at_key s ''x'')]))" for n fn
    by (auto simp: leased_def two_step_def bare_graph_def split: if_splits)
  show ?thesis
    by (auto simp: det_graph_def node_step_def pause_state_def pure_node_def two_next dest!: n
        split: if_splits)
qed

theorem Invoke_leaves_thread_witness:
  "\<exists>w'. Invoke (leased two_step) Background Map.empty [WithMaxSteps 1] fenced_world
      = Some ([''x'' \<mapsto> VInt 1], Some (Errorf ''graph: max steps %d exceeded'' [AInt 1]), w')
    \<and> (\<exists>n s' st p. (node_step (leased two_step :: (Fenced, unit) Compiled))\<^sup>*\<^sup>* (''a'', Map.empty) (n, s')
        \<and> at_point fenced_latest ''default'' n s' st p w')"
proof -
  obtain rid v w1 p1 where
    r: "prepareRun (leased two_step) [WithMaxSteps 1] (fenced_world\<lparr>w_sess := None\<rparr>) = (plain_config 1 rid, v)"
    "Invoke (leased two_step) Background Map.empty [WithMaxSteps 1] fenced_world
      = Some ([''x'' \<mapsto> VInt 1], Some (Errorf ''graph: max steps %d exceeded'' [AInt 1]), w1)"
    "landed fenced_latest fenced_known fenced_ok ''default'' ''b'' [''x'' \<mapsto> VInt 1] 1 256 2 p1 w1"
    by (rule two_stopped)
  from r(1) have c: "fst (prepareRun (leased two_step) [WithMaxSteps 1] (fenced_world\<lparr>w_sess := None\<rparr>)) = plain_config 1 rid"
    by (simp del: sample_world_simps)
  from r(3) have p: "rng_pos (w_rng w1) \<le> 256" "fenced_latest (w_store w1) ''default'' \<noteq> None"
    by (auto simp: landed_def at_point_def)
  from Invoke_leaves_thread [OF leased_uses c _ leased_calm fenced_world_ready(1) _ r(2) p(1)] p(2)
    fenced_world_ready(3)
  have "\<exists>n s' st p. (node_step (leased two_step :: (Fenced, unit) Compiled))\<^sup>*\<^sup>* (''a'', Map.empty) (n, s')
        \<and> at_point fenced_latest ''default'' n s' st p w1" by simp
  with r(2) show ?thesis by blast
qed

theorem recovery_transparent_witness:
  "\<exists>w0 w3 u'. Invoke (leased two_step) Background Map.empty [WithMaxSteps 1] fenced_world
      = Some ([''x'' \<mapsto> VInt 1], Some (Errorf ''graph: max steps %d exceeded'' [AInt 1]), w0)
    \<and> Resume (leased two_step) Background ''default'' [] w0 = Some (two_result, None, w3)
    \<and> Invoke (leased two_step) Background Map.empty [] fenced_world = Some (two_result, None, u')"
proof -
  let ?g = "leased two_step"
  obtain rid v w0 p1 where
    r: "prepareRun ?g [WithMaxSteps 1] (fenced_world\<lparr>w_sess := None\<rparr>) = (plain_config 1 rid, v)"
    "Invoke ?g Background Map.empty [WithMaxSteps 1] fenced_world
      = Some ([''x'' \<mapsto> VInt 1], Some (Errorf ''graph: max steps %d exceeded'' [AInt 1]), w0)"
    "fenced_vacant ?g ''default'' p1 w0"
    "landed fenced_latest fenced_known fenced_ok ''default'' ''b'' [''x'' \<mapsto> VInt 1] 1 256 2 p1 w0"
    by (rule two_stopped)
  obtain rid' v' w3 p2 where
    q: "prepareRun ?g [] (w0\<lparr>w_sess := None\<rparr>) = (plain_config 0 rid', v')" "rid' \<noteq> ''''"
    "Resume ?g Background ''default'' [] w0 = Some (two_result, None, w3)"
    "landed fenced_latest fenced_known fenced_ok ''default'' END two_result 2 256 4 p2 w3"
    using two_resumed [OF r(3,4)] by metis
  obtain rid2 v2 where
    d: "prepareRun ?g [] (fenced_world\<lparr>w_sess := None\<rparr>) = (plain_config 0 rid2, v2)" "rid2 \<noteq> ''''"
    "rng_pos (w_rng v2) = 1" by (rule fenced_world_prepare)
  have "\<exists>p' u'. Invoke ?g Background Map.empty [] fenced_world = Some (two_result, None, u')
    \<and> fenced_vacant ?g (rc_threadID (plain_config 0 rid2)) p' u'
    \<and> landed fenced_latest fenced_known fenced_ok (rc_threadID (plain_config 0 rid2)) END two_result
        (int (Suc (Suc 0))) 256 (rng_pos (w_rng v2) + Suc (Suc 0)) p' u'"
    by (rule fenced_live.Invoke_ends [OF leased_uses leased_plan fenced_calm_lease [OF leased_uses] _ _ d(1)])
      (use two_walks(3) d fenced_world_ready max_ge in \<open>simp_all del: walk.simps\<close>)
  then obtain u' where u: "Invoke ?g Background Map.empty [] fenced_world = Some (two_result, None, u')"
    "rng_pos (w_rng u') = 3" using d(3) by (auto simp: landed_def)
  from r(1) d(1) q(1) have c: "fst (prepareRun ?g [WithMaxSteps 1] (fenced_world\<lparr>w_sess := None\<rparr>)) = plain_config 1 rid"
    "fst (prepareRun ?g [] (fenced_world\<lparr>w_sess := None\<rparr>)) = plain_config 0 rid2"
    "resume_config ?g ''default'' [] w0 = plain_config 0 rid'"
    by (simp_all add: resume_config_def plain_config_def del: sample_world_simps)
  have "rng_pos (w_rng w0) \<le> 256" "fenced_latest (w_store w0) ''default'' \<noteq> None" "rng_pos (w_rng w3) \<le> 256"
    using r(4) q(4) by (auto simp: landed_def at_point_def)
  from recovery_transparent [OF leased_uses leased_det c(1) _ leased_calm fenced_world_ready(1) _ r(2) this(1,2)
      tried_none calm_refl c(3) _ _ leased_calm q(3) this(3) c(2) leased_calm _ u(1)]
    u(2) fenced_world_ready
  have "two_result = two_result" by (simp add: plain_resume_def)
  with r(2) q(3) u(1) show ?thesis by blast
qed

theorem stopped_run_resumes_witness:
  "\<exists>w1 p w'. Invoke (leased two_step) Background Map.empty [WithMaxSteps 1] fenced_world
      = Some ([''x'' \<mapsto> VInt 1], Some (Errorf ''graph: max steps %d exceeded'' [AInt 1]), w1)
    \<and> Resume (leased two_step) Background ''default'' [] w1 = Some (two_result, None, w')
    \<and> at_point fenced_latest ''default'' END two_result 2 p w'"
proof -
  let ?g = "leased two_step"
  obtain rid v w1 p1 where
    r: "prepareRun ?g [WithMaxSteps 1] (fenced_world\<lparr>w_sess := None\<rparr>) = (plain_config 1 rid, v)"
    "rid \<noteq> ''''" "rng_pos (w_rng v) = 1"
    "Invoke ?g Background Map.empty [WithMaxSteps 1] fenced_world
      = Some ([''x'' \<mapsto> VInt 1], Some (Errorf ''graph: max steps %d exceeded'' [AInt 1]), w1)"
    "fenced_vacant ?g ''default'' p1 w1"
    "landed fenced_latest fenced_known fenced_ok ''default'' ''b'' [''x'' \<mapsto> VInt 1] 1 256 2 p1 w1"
    by (rule two_stopped)
  obtain rid' v' where
    q: "prepareRun ?g [] (w1\<lparr>w_sess := None\<rparr>) = (plain_config 0 rid', v')" "rid' \<noteq> ''''"
    "rng_pos (w_rng v') = 3" using two_resumed [OF r(5,6)] by metis
  have "\<exists>p w'. Some (Errorf ''graph: max steps %d exceeded'' [AInt 1]) \<noteq> None
    \<and> Resume ?g Background ''default'' [] w1 = Some (two_result, None, w')
    \<and> at_point fenced_latest ''default'' END two_result (int (Suc 0) + int (Suc 0)) p w'"
    by (rule stopped_run_resumes [where N = 256, OF leased_uses leased_plan _ _ _ _ r(1) _ _ _ _ _ _ r(4) q(1)])
      (use two_walks(1,2) fenced_world_ready r(2,3) q(2,3) max_ge in \<open>simp_all del: walk.simps\<close>)
  with r(4) show ?thesis by auto
qed

theorem Resume_finished_witness:
  "\<exists>w w'. Invoke (leased two_step) Background Map.empty [] fenced_world = Some (two_result, None, w)
    \<and> Resume (leased two_step) Background ''default'' [] w = Some (two_result, None, w')"
proof -
  let ?g = "leased two_step :: (Fenced, unit) Compiled"
  obtain rid v where
    d: "prepareRun ?g [] (fenced_world\<lparr>w_sess := None\<rparr>) = (plain_config 0 rid, v)" "rid \<noteq> ''''"
    "rng_pos (w_rng v) = 1" by (rule fenced_world_prepare)
  have "\<exists>p' u'. Invoke ?g Background Map.empty [] fenced_world = Some (two_result, None, u')
    \<and> fenced_vacant ?g (rc_threadID (plain_config 0 rid)) p' u'
    \<and> landed fenced_latest fenced_known fenced_ok (rc_threadID (plain_config 0 rid)) END two_result
        (int (Suc (Suc 0))) 256 (rng_pos (w_rng v) + Suc (Suc 0)) p' u'"
    by (rule fenced_live.Invoke_ends [OF leased_uses leased_plan fenced_calm_lease [OF leased_uses] _ _ d(1)])
      (use two_walks(3) d fenced_world_ready max_ge in \<open>simp_all del: walk.simps\<close>)
  then obtain p u where u: "Invoke ?g Background Map.empty [] fenced_world = Some (two_result, None, u)"
    "fenced_vacant ?g ''default'' p u" "store_ready fenced_known fenced_ok ''default'' 256 u"
    "rng_pos (w_rng u) = 3" "at_point fenced_latest ''default'' END two_result 2 p u"
    using d(3) by (auto simp: landed_def)
  then have "fresh_reads 256 (w_rng u)" "rng_pos (w_rng u) < 256" by (simp_all add: store_ready_def)
  from prepare_plain [OF this] obtain rid' v' where
    e: "prepareRun ?g [] (u\<lparr>w_sess := None\<rparr>) = (plain_config 0 rid', v')" "rid' \<noteq> ''''" by metis
  have "\<exists>p' w'. Resume ?g Background ''default'' [] u = Some (two_result, None, w')
      \<and> at_point fenced_latest ''default'' END two_result 2 p' w' \<and> fenced_vacant ?g ''default'' p' w'"
    by (rule Resume_finished [where N = 256, OF leased_uses e(1) _ _ _ _ _ u(3,2,5)]) (use e(2) in simp_all)
  with u(1) show ?thesis by blast
qed





end
