(* ===== verification/Strings.thy ===== *)
theory Strings
  imports Values "HOL-Library.Sublist"
begin

text \<open>
  What the module uses of Go's \<^verbatim>\<open>strings\<close> package. A Go string is a sequence of bytes,
  here a list of 8-bit characters; \<open>TrimSpace\<close> and \<open>ToLower\<close> work on the UTF-8 encoded runes
  in it.
\<close>

section \<open>TrimSpace\<close>

text \<open>The UTF-8 encodings of the runes with \<open>unicode.IsSpace\<close>.\<close>

definition space_runes :: "string list" where
  "space_runes =
     [[CHR 0x09], [CHR 0x0A], [CHR 0x0B], [CHR 0x0C], [CHR 0x0D], [CHR 0x20],
      [CHR 0xC2, CHR 0x85], [CHR 0xC2, CHR 0xA0], [CHR 0xE1, CHR 0x9A, CHR 0x80],
      [CHR 0xE2, CHR 0x80, CHR 0x80], [CHR 0xE2, CHR 0x80, CHR 0x81],
      [CHR 0xE2, CHR 0x80, CHR 0x82], [CHR 0xE2, CHR 0x80, CHR 0x83],
      [CHR 0xE2, CHR 0x80, CHR 0x84], [CHR 0xE2, CHR 0x80, CHR 0x85],
      [CHR 0xE2, CHR 0x80, CHR 0x86], [CHR 0xE2, CHR 0x80, CHR 0x87],
      [CHR 0xE2, CHR 0x80, CHR 0x88], [CHR 0xE2, CHR 0x80, CHR 0x89],
      [CHR 0xE2, CHR 0x80, CHR 0x8A], [CHR 0xE2, CHR 0x80, CHR 0xA8],
      [CHR 0xE2, CHR 0x80, CHR 0xA9], [CHR 0xE2, CHR 0x80, CHR 0xAF],
      [CHR 0xE2, CHR 0x81, CHR 0x9F], [CHR 0xE3, CHR 0x80, CHR 0x80]]"

text \<open>\<open>trim_with rs s\<close> drops prefixes of \<open>s\<close> that are one of \<open>rs\<close>, as long as there are any.\<close>

function trim_with :: "string list \<Rightarrow> string \<Rightarrow> string" where
  "trim_with rs s =
     (case List.find (\<lambda>r. r \<noteq> [] \<and> prefix r s) rs of
        None \<Rightarrow> s
      | Some r \<Rightarrow> trim_with rs (drop (length r) s))"
  by auto
termination
  by (relation "measure (\<lambda>(rs, s). length s)") (auto dest!: find_SomeD simp: prefix_def)

declare trim_with.simps [simp del]

definition TrimSpace :: "string \<Rightarrow> string" where
  "TrimSpace s = rev (trim_with (map rev space_runes) (rev (trim_with space_runes s)))"

lemma trim_with_suffix: "suffix (trim_with rs s) s"
proof (induction rs s rule: trim_with.induct)
  case (1 rs s)
  show ?case
  proof (cases "List.find (\<lambda>r. r \<noteq> [] \<and> prefix r s) rs")
    case None
    then show ?thesis by (subst trim_with.simps) simp
  next
    case (Some r)
    with 1 have "suffix (trim_with rs (drop (length r) s)) s"
      using suffix_drop suffix_order.order_trans by blast
    with Some show ?thesis by (subst trim_with.simps) simp
  qed
qed

text \<open>Nothing is left to trim, and what has nothing to trim is left alone.\<close>

definition trimmed :: "string list \<Rightarrow> string \<Rightarrow> bool" where
  "trimmed rs s \<longleftrightarrow> (\<forall>r \<in> set rs. r \<noteq> [] \<longrightarrow> \<not> prefix r s)"

lemma trim_with_trimmed: "trimmed rs (trim_with rs s)"
proof (induction rs s rule: trim_with.induct)
  case (1 rs s)
  show ?case
  proof (cases "List.find (\<lambda>r. r \<noteq> [] \<and> prefix r s) rs")
    case None
    then have "trim_with rs s = s" by (subst trim_with.simps) simp
    with None show ?thesis by (auto simp: find_None_iff trimmed_def)
  next
    case (Some r)
    with 1 show ?thesis by (subst trim_with.simps) simp
  qed
qed

lemma trim_with_id: "trimmed rs s \<Longrightarrow> trim_with rs s = s"
  by (subst trim_with.simps) (auto simp: trimmed_def find_None_iff split: option.splits dest!: find_SomeD)

text \<open>A string without white space at either end.\<close>

definition no_outer_space :: "string \<Rightarrow> bool" where
  "no_outer_space s \<longleftrightarrow> (\<forall>r \<in> set space_runes. \<not> prefix r s \<and> \<not> suffix r s)"

lemma space_runes_nonempty: "r \<in> set space_runes \<Longrightarrow> r \<noteq> []"
  by (auto simp: space_runes_def)

lemma trimmed_space: "trimmed space_runes s \<longleftrightarrow> (\<forall>r \<in> set space_runes. \<not> prefix r s)"
  using space_runes_nonempty by (auto simp: trimmed_def)

lemma trimmed_space_rev: "trimmed (map rev space_runes) (rev s) \<longleftrightarrow> (\<forall>r \<in> set space_runes. \<not> suffix r s)"
  using space_runes_nonempty by (auto simp: trimmed_def suffix_to_prefix)

lemma prefix_rev_trim:
  "prefix (rev (trim_with rs (rev s))) s"
  using trim_with_suffix [of rs "rev s"] by (simp add: suffix_to_prefix)

lemma TrimSpace_no_space: "no_outer_space (TrimSpace s)"
proof -
  let ?l = "trim_with space_runes s"
  have "prefix (TrimSpace s) ?l" by (simp add: TrimSpace_def prefix_rev_trim)
  moreover have "\<forall>r \<in> set space_runes. \<not> prefix r ?l"
    using trim_with_trimmed [of space_runes s] by (simp only: trimmed_space)
  ultimately have "\<forall>r \<in> set space_runes. \<not> prefix r (TrimSpace s)"
    using prefix_order.order_trans by blast
  moreover have "trimmed (map rev space_runes) (rev (TrimSpace s))"
    by (simp add: TrimSpace_def trim_with_trimmed)
  ultimately show ?thesis by (simp only: trimmed_space_rev no_outer_space_def) blast
qed

lemma TrimSpace_id: "no_outer_space s \<Longrightarrow> TrimSpace s = s"
proof -
  assume "no_outer_space s"
  then have "trimmed space_runes s" "trimmed (map rev space_runes) (rev s)"
    by (simp_all only: trimmed_space trimmed_space_rev no_outer_space_def) blast+
  then show ?thesis by (simp add: TrimSpace_def trim_with_id)
qed

lemma TrimSpace_idem [simp]: "TrimSpace (TrimSpace s) = TrimSpace s"
  by (rule TrimSpace_id [OF TrimSpace_no_space])

lemma TrimSpace_empty [simp]: "TrimSpace '''' = ''''"
  by (rule TrimSpace_id) (auto simp: no_outer_space_def space_runes_def)

lemma TrimSpace_sublist: "sublist (TrimSpace s) s"
proof -
  have "prefix (TrimSpace s) (trim_with space_runes s)" by (simp add: TrimSpace_def prefix_rev_trim)
  then show ?thesis
    using trim_with_suffix [of space_runes s]
    by (meson prefix_imp_sublist sublist_order.order_trans suffix_imp_sublist)
qed

section \<open>ToLower\<close>

text \<open>
  \<open>ToLower\<close>, as far as a comparison with a string of ASCII characters can tell: ASCII capitals
  become small letters, and of the other runes exactly two have an ASCII letter for their
  lower case, the capital I with a dot (U+0130) and the Kelvin sign (U+212A). Every other rune
  is kept here and becomes a rune outside ASCII in Go, which no ASCII string equals.
\<close>

definition lower_char :: "char \<Rightarrow> char" where
  "lower_char c = (let n = of_char c :: nat in if 65 \<le> n \<and> n \<le> 90 then char_of (n + 32) else c)"

fun ToLower :: "string \<Rightarrow> string" where
  "ToLower (a # b # c # s) =
     (if a = CHR 0xC4 \<and> b = CHR 0xB0 then CHR ''i'' # ToLower (c # s)
      else if a = CHR 0xE2 \<and> b = CHR 0x84 \<and> c = CHR 0xAA then CHR ''k'' # ToLower s
      else lower_char a # ToLower (b # c # s))"
| "ToLower [a, b] = (if a = CHR 0xC4 \<and> b = CHR 0xB0 then ''i'' else [lower_char a, lower_char b])"
| "ToLower [a] = [lower_char a]"
| "ToLower [] = []"

section \<open>Other functions\<close>

definition Contains :: "string \<Rightarrow> string \<Rightarrow> bool" where
  "Contains s sub = sublist sub s"

text \<open>\<open>strings.Join\<close>.\<close>

fun Join :: "string list \<Rightarrow> string \<Rightarrow> string" where
  "Join [] sep = ''''"
| "Join [x] sep = x"
| "Join (x # y # xs) sep = x @ sep @ Join (y # xs) sep"

text \<open>Joining loses nothing when the separator is a character of none of the parts.\<close>

lemma Join_inject:
  assumes "length xs = length ys" "\<forall>x \<in> set xs \<union> set ys. c \<notin> set x" "Join xs [c] = Join ys [c]"
  shows "xs = ys"
  using assms
proof (induction xs "[c]" arbitrary: ys rule: Join.induct)
  case (2 x)
  then show ?case by (cases ys) auto
next
  case (3 x y xs)
  then obtain a b zs where ys: "ys = a # b # zs" by (cases ys; cases "tl ys") auto
  with 3(3,4) have "x = a" "Join (y # xs) [c] = Join (b # zs) [c]"
    using append_sep_inject [of c x a] by auto
  moreover from 3(2,3) ys have "length (y # xs) = length (b # zs)" "\<forall>x \<in> set (y # xs) \<union> set (b # zs). c \<notin> set x"
    by auto
  ultimately show ?case using 3(1) ys by blast
qed simp

end
