(* ===== verification/Handoffs.thy ===== *)
theory Handoffs
  imports Runtime Strings
begin

text \<open>
  \<^verbatim>\<open>orchestrator/handoff.go\<close> and \<^verbatim>\<open>orchestrator/handoff_tool.go\<close>: the transfer record
  between supervisor and workers, the aliases of the end, the schema of the handoff tool the
  model is offered, and the decision read from the model's tool calls.
\<close>

section \<open>Handoffs in the state\<close>

record Decision =
  d_Next :: string
  d_Reason :: string
  d_Task :: string

definition NormalizeNext :: "string \<Rightarrow> string" where
  "NormalizeNext next =
     (let n = TrimSpace next
      in if ToLower n \<in> {''end'', ''__end__'', ''finish'', ''done'', ''stop''} then ''__end__'' else n)"

definition strField :: "(string \<Rightarrow> gval option) \<Rightarrow> string \<Rightarrow> string" where
  "strField m key = as_string (at_key m key)"

definition HandoffFromMap :: "gval \<Rightarrow> Handoff" where
  "HandoffFromMap v =
     (case v of
        VHandoff h \<Rightarrow> h
      | VMap x \<Rightarrow> \<lparr>h_From = strField x ''from'', h_To = strField x ''to'',
                  h_Reason = strField x ''reason'', h_Task = strField x ''task''\<rparr>
      | _ \<Rightarrow> \<lparr>h_From = '''', h_To = '''', h_Reason = '''', h_Task = ''''\<rparr>)"

definition handoffToMap :: "Handoff \<Rightarrow> string \<Rightarrow> gval option" where
  "handoffToMap h = [''from'' \<mapsto> VString (h_From h), ''to'' \<mapsto> VString (h_To h),
     ''reason'' \<mapsto> VString (h_Reason h), ''task'' \<mapsto> VString (h_Task h)]"

section \<open>Workers\<close>

text \<open>
  One worker of a supervisor (\<open>WorkerSpec\<close> of \<^verbatim>\<open>orchestrator/supervisor.go\<close>). \<open>Run\<close>
  answers a text or fails; like a node it may write the state map it is given, so it also
  answers the state as it leaves it.
\<close>

type_synonym ('s, 'u) RunFunc =
  "('s, 'u) Ctx \<Rightarrow> State \<Rightarrow> string \<Rightarrow> ('s, 'u) World \<Rightarrow> ((gerror + string) \<times> State) \<times> ('s, 'u) World"

record ('s, 'u) WorkerSpec =
  ws_ID :: string
  ws_Description :: string
  ws_SystemPrompt :: string
  ws_AllowTools :: "string list"
  ws_Run :: "('s, 'u) RunFunc option"

section \<open>The handoff tool\<close>

text \<open>
  The fields of the model's response that the code reads (\<open>llm.Response\<close>, \<open>llm.ToolCall\<close> of
  the core module).
\<close>

record ToolCall =
  tc_Name :: string
  tc_Arguments :: "string \<Rightarrow> gval option"

record Response =
  rs_HasToolCalls :: bool
  rs_ToolCalls :: "ToolCall list"

definition handoffToolName :: string where
  "handoffToolName = ''handoff''"

text \<open>
  The schema offered to the model, from the workers. A list of strings or of maps is the slice
  of its elements.
\<close>

definition handoffToolSchema :: "('s, 'u) WorkerSpec list \<Rightarrow> (string \<Rightarrow> gval option) list" where
  "handoffToolSchema workers =
     (let enum = map ws_ID workers @ [''END'']
      in [[''type'' \<mapsto> VString ''function'',
           ''function'' \<mapsto> VMap
             [''name'' \<mapsto> VString handoffToolName,
              ''description'' \<mapsto> VString ''Route work to a specialist worker, or END when the goal is satisfied.'',
              ''parameters'' \<mapsto> VMap
                [''type'' \<mapsto> VString ''object'',
                 ''properties'' \<mapsto> VMap
                   [''to'' \<mapsto> VMap
                      [''type'' \<mapsto> VString ''string'',
                       ''description'' \<mapsto> VString ''Worker id to run next, or END to finish'',
                       ''enum'' \<mapsto> VSlice (map VString enum)],
                    ''reason'' \<mapsto> VMap
                      [''type'' \<mapsto> VString ''string'',
                       ''description'' \<mapsto> VString ''Short reason for this routing choice''],
                    ''task'' \<mapsto> VMap
                      [''type'' \<mapsto> VString ''string'',
                       ''description'' \<mapsto> VString ''Concrete instructions for the worker (ignored when to=END)'']],
                 ''required'' \<mapsto> VSlice (map VString [''to'', ''reason'', ''task'']),
                 ''additionalProperties'' \<mapsto> VBool False]]]])"

definition DecisionFromToolCalls :: "Response \<Rightarrow> string set \<Rightarrow> gerror + Decision" where
  "DecisionFromToolCalls resp allowed =
     (if \<not> rs_HasToolCalls resp \<or> rs_ToolCalls resp = []
      then Inl (Errorf ''orchestrator: supervisor response missing handoff tool call'' [])
      else (case List.find (\<lambda>tc. tc_Name tc = handoffToolName) (rs_ToolCalls resp) of
              None \<Rightarrow> Inl (Errorf ''orchestrator: expected tool %q, got %q''
                        [AStr handoffToolName, AStr (tc_Name (hd (rs_ToolCalls resp)))])
            | Some tc \<Rightarrow>
                (let to = TrimSpace (as_string (at_key (tc_Arguments tc) ''to''));
                     reason = as_string (at_key (tc_Arguments tc) ''reason'');
                     task = as_string (at_key (tc_Arguments tc) ''task'');
                     next = NormalizeNext to
                 in if to = '''' then Inl (Errorf ''orchestrator: handoff missing to'' [])
                    else if next \<noteq> END \<and> next \<notin> allowed
                    then Inl (Errorf ''orchestrator: handoff to unknown worker %q'' [AStr to])
                    else Inr \<lparr>d_Next = next, d_Reason = TrimSpace reason, d_Task = TrimSpace task\<rparr>)))"

definition workerAllowSet :: "('s, 'u) WorkerSpec list \<Rightarrow> string set" where
  "workerAllowSet workers = set (map ws_ID workers)"

section \<open>Properties\<close>

text \<open>
  C31: A handoff survives being stored as a plain map, as checkpoints do: what the worker reads
  back is the record the supervisor wrote, whether it finds the record itself or its map.
\<close>

theorem Handoff_roundtrip:
  "HandoffFromMap (VMap (handoffToMap h)) = h \<and> HandoffFromMap (VHandoff h) = h"
  by (cases h) (simp add: HandoffFromMap_def handoffToMap_def strField_def at_key_def)

definition end_aliases :: "string set" where
  "end_aliases = {''end'', ''__end__'', ''finish'', ''done'', ''stop''}"

lemma NormalizeNext_alias:
  "NormalizeNext s = (if ToLower (TrimSpace s) \<in> end_aliases then END else TrimSpace s)"
  by (simp add: NormalizeNext_def end_aliases_def Let_def)

lemma ToLower_END: "ToLower END = END"
  by (simp add: lower_char_def Let_def)

lemma END_no_space: "TrimSpace END = END"
  by (rule TrimSpace_id) (auto simp: no_outer_space_def space_runes_def suffix_def)

lemma NormalizeNext_END: "NormalizeNext END = END"
  by (simp add: NormalizeNext_alias END_no_space)

lemma NormalizeNext_idem: "NormalizeNext (NormalizeNext s) = NormalizeNext s"
  by (simp add: NormalizeNext_END [unfolded NormalizeNext_alias] NormalizeNext_alias)

text \<open>
  C30: Normalising a destination is idempotent, it yields either the end or a name without
  white space around it, and it yields the end exactly for the five aliases, in any case and
  with any white space around them.
\<close>

theorem NormalizeNext_spec:
  "NormalizeNext (NormalizeNext s) = NormalizeNext s
   \<and> no_outer_space (NormalizeNext s)
   \<and> (NormalizeNext s = END \<longleftrightarrow> ToLower (TrimSpace s) \<in> end_aliases)"
proof (cases "ToLower (TrimSpace s) \<in> end_aliases")
  case True
  then have "NormalizeNext s = END" by (simp add: NormalizeNext_alias)
  moreover have "no_outer_space END" using TrimSpace_no_space [of END] by (simp only: END_no_space)
  ultimately show ?thesis using True NormalizeNext_END by simp
next
  case False
  then have n: "NormalizeNext s = TrimSpace s" by (simp add: NormalizeNext_alias)
  have "TrimSpace s \<noteq> END"
  proof
    assume "TrimSpace s = END"
    then have "ToLower (TrimSpace s) \<in> end_aliases" by (simp only: end_aliases_def ToLower_END) simp
    with False show False by blast
  qed
  then show ?thesis using False NormalizeNext_idem [of s] TrimSpace_no_space unfolding n by simp
qed

text \<open>The first call of the handoff tool among the model's calls.\<close>

definition first_handoff :: "Response \<Rightarrow> ToolCall \<Rightarrow> bool" where
  "first_handoff resp tc \<longleftrightarrow> tc_Name tc = handoffToolName
     \<and> (\<exists>pre post. rs_ToolCalls resp = pre @ tc # post \<and> (\<forall>c \<in> set pre. tc_Name c \<noteq> handoffToolName))"

definition call_arg :: "ToolCall \<Rightarrow> string \<Rightarrow> string" where
  "call_arg tc key = as_string (at_key (tc_Arguments tc) key)"

lemma find_at: "\<forall>c \<in> set pre. \<not> P c \<Longrightarrow> P x \<Longrightarrow> List.find P (pre @ x # post) = Some x"
  by (induction pre) auto

lemma find_split: "List.find P xs = Some x \<Longrightarrow> P x \<and> (\<exists>pre post. xs = pre @ x # post \<and> (\<forall>c \<in> set pre. \<not> P c))"
proof (induction xs)
  case (Cons y xs)
  show ?case
  proof (cases "P y")
    case True
    with Cons.prems have "y # xs = [] @ x # xs" "P x" by simp_all
    then show ?thesis by fastforce
  next
    case False
    with Cons obtain pre post where "P x" "xs = pre @ x # post" "\<forall>c \<in> set pre. \<not> P c" by auto
    with False have "y # xs = (y # pre) @ x # post" "\<forall>c \<in> set (y # pre). \<not> P c" by simp_all
    with \<open>P x\<close> show ?thesis by blast
  qed
qed simp

lemma first_handoff_find:
  "first_handoff resp tc \<longleftrightarrow> List.find (\<lambda>tc. tc_Name tc = handoffToolName) (rs_ToolCalls resp) = Some tc"
  unfolding first_handoff_def using find_split [of "\<lambda>tc. tc_Name tc = handoffToolName" "rs_ToolCalls resp" tc]
  by (auto simp: find_at)

lemma Decision_uncalled:
  assumes "\<not> rs_HasToolCalls resp \<or> rs_ToolCalls resp = []"
  shows "DecisionFromToolCalls resp allowed
    = Inl (Errorf ''orchestrator: supervisor response missing handoff tool call'' [])"
  unfolding DecisionFromToolCalls_def by (rule if_P [OF assms])

lemma Decision_other_tool:
  assumes "rs_HasToolCalls resp" "rs_ToolCalls resp \<noteq> []"
    and "\<forall>tc \<in> set (rs_ToolCalls resp). tc_Name tc \<noteq> handoffToolName"
  shows "DecisionFromToolCalls resp allowed = Inl (Errorf ''orchestrator: expected tool %q, got %q''
    [AStr handoffToolName, AStr (tc_Name (hd (rs_ToolCalls resp)))])"
proof -
  have n: "List.find (\<lambda>tc. tc_Name tc = handoffToolName) (rs_ToolCalls resp) = None"
    using assms(3) by (simp add: find_None_iff)
  have called: "\<not> (\<not> rs_HasToolCalls resp \<or> rs_ToolCalls resp = [])" using assms(1,2) by simp
  show ?thesis unfolding DecisionFromToolCalls_def n option.case if_not_P [OF called] by (rule refl)
qed

lemma Decision_called:
  assumes "rs_HasToolCalls resp" "first_handoff resp tc"
  shows "DecisionFromToolCalls resp allowed =
    (if TrimSpace (call_arg tc ''to'') = '''' then Inl (Errorf ''orchestrator: handoff missing to'' [])
     else if NormalizeNext (call_arg tc ''to'') \<noteq> END \<and> NormalizeNext (call_arg tc ''to'') \<notin> allowed
     then Inl (Errorf ''orchestrator: handoff to unknown worker %q'' [AStr (TrimSpace (call_arg tc ''to''))])
     else Inr \<lparr>d_Next = NormalizeNext (call_arg tc ''to''), d_Reason = TrimSpace (call_arg tc ''reason''),
       d_Task = TrimSpace (call_arg tc ''task'')\<rparr>)"
proof -
  note f = assms(2) [unfolded first_handoff_find]
  have called: "\<not> (\<not> rs_HasToolCalls resp \<or> rs_ToolCalls resp = [])" using assms(1) f by (cases "rs_ToolCalls resp") auto
  have n: "NormalizeNext (TrimSpace x) = NormalizeNext x" for x by (simp add: NormalizeNext_alias)
  show ?thesis
    unfolding DecisionFromToolCalls_def f option.case if_not_P [OF called] Let_def n call_arg_def by (rule refl)
qed

lemma no_first_handoff:
  "(\<nexists>tc. first_handoff resp tc) \<longleftrightarrow> (\<forall>tc \<in> set (rs_ToolCalls resp). tc_Name tc \<noteq> handoffToolName)"
  unfolding first_handoff_find not_Some_eq by (auto simp: find_None_iff)

lemma first_handoff_unique: "first_handoff resp tc \<Longrightarrow> first_handoff resp tc' \<Longrightarrow> tc' = tc"
  by (simp add: first_handoff_find)

text \<open>
  C29: The decision read from the model's tool calls. The model is refused exactly when it made
  no tool calls, called other tools only, named no destination in its first call of the handoff
  tool, or named one there that is neither a worker nor an alias of the end, each with its own
  error; in every other case that first call is the decision, its destination normalised and
  its reason and task trimmed. Later calls do not matter. So a decision can be routed: its
  destination is the end or one of the workers and normalises to itself.
\<close>

theorem DecisionFromToolCalls_sound:
  "(\<forall>d. DecisionFromToolCalls resp allowed = Inr d \<longleftrightarrow> rs_HasToolCalls resp \<and> (\<exists>tc. first_handoff resp tc
        \<and> TrimSpace (call_arg tc ''to'') \<noteq> '''' \<and> NormalizeNext (call_arg tc ''to'') \<in> insert END allowed
        \<and> d = \<lparr>d_Next = NormalizeNext (call_arg tc ''to''), d_Reason = TrimSpace (call_arg tc ''reason''),
               d_Task = TrimSpace (call_arg tc ''task'')\<rparr>))
   \<and> (\<forall>e. DecisionFromToolCalls resp allowed = Inl e \<longleftrightarrow>
        (\<not> rs_HasToolCalls resp \<or> rs_ToolCalls resp = [])
          \<and> e = Errorf ''orchestrator: supervisor response missing handoff tool call'' []
        \<or> rs_HasToolCalls resp \<and> rs_ToolCalls resp \<noteq> []
          \<and> (\<forall>tc \<in> set (rs_ToolCalls resp). tc_Name tc \<noteq> handoffToolName)
          \<and> e = Errorf ''orchestrator: expected tool %q, got %q''
                  [AStr handoffToolName, AStr (tc_Name (hd (rs_ToolCalls resp)))]
        \<or> rs_HasToolCalls resp \<and> (\<exists>tc. first_handoff resp tc
          \<and> (TrimSpace (call_arg tc ''to'') = '''' \<and> e = Errorf ''orchestrator: handoff missing to'' []
             \<or> TrimSpace (call_arg tc ''to'') \<noteq> '''' \<and> NormalizeNext (call_arg tc ''to'') \<notin> insert END allowed
               \<and> e = Errorf ''orchestrator: handoff to unknown worker %q'' [AStr (TrimSpace (call_arg tc ''to''))])))
   \<and> (\<forall>d. DecisionFromToolCalls resp allowed = Inr d \<longrightarrow>
        (d_Next d = END \<or> d_Next d \<in> allowed) \<and> NormalizeNext (d_Next d) = d_Next d
        \<and> no_outer_space (d_Next d) \<and> no_outer_space (d_Reason d) \<and> no_outer_space (d_Task d))"
proof -
  consider (uncalled) "\<not> rs_HasToolCalls resp \<or> rs_ToolCalls resp = []"
    | (other) "rs_HasToolCalls resp" "rs_ToolCalls resp \<noteq> []" "\<nexists>tc. first_handoff resp tc"
    | (called) tc where "rs_HasToolCalls resp" "first_handoff resp tc" by blast
  then show ?thesis
  proof cases
    case uncalled
    then have "\<not> (rs_HasToolCalls resp \<and> (\<exists>tc. first_handoff resp tc \<and> P tc))" for P
      by (auto simp: first_handoff_def)
    with uncalled show ?thesis unfolding Decision_uncalled [OF uncalled] by auto
  next
    case other
    note all = other(3) [unfolded no_first_handoff]
    show ?thesis unfolding Decision_other_tool [OF other(1,2) all] using other all by auto
  next
    case called
    then have some: "rs_ToolCalls resp \<noteq> []" "\<not> (\<forall>tc \<in> set (rs_ToolCalls resp). tc_Name tc \<noteq> handoffToolName)"
      using no_first_handoff [of resp] by (auto simp: first_handoff_def)
    have ex: "(\<exists>tc'. first_handoff resp tc' \<and> P tc') \<longleftrightarrow> P tc" for P
      using called(2) first_handoff_unique by blast
    have n: "no_outer_space (NormalizeNext x)" for x
      using TrimSpace_no_space [of x] TrimSpace_no_space [of END] by (simp add: NormalizeNext_alias END_no_space)
    show ?thesis unfolding Decision_called [OF called] ex
      using called(1) some NormalizeNext_idem [of "call_arg tc ''to''"] n TrimSpace_no_space by auto
  qed
qed

definition sample_response :: Response where
  "sample_response = \<lparr>rs_HasToolCalls = True, rs_ToolCalls =
     [\<lparr>tc_Name = ''search'', tc_Arguments = Map.empty\<rparr>,
      \<lparr>tc_Name = ''handoff'', tc_Arguments = [''to'' \<mapsto> VString '' b '', ''task'' \<mapsto> VString ''t '']\<rparr>]\<rparr>"

lemma TrimSpace_samples:
  "TrimSpace '' b '' = ''b''" "TrimSpace ''b'' = ''b''" "TrimSpace ''t '' = ''t''"
  by (simp_all add: TrimSpace_def space_runes_def trim_with.simps)

theorem DecisionFromToolCalls_sound_witness:
  "DecisionFromToolCalls sample_response {''b''} = Inr \<lparr>d_Next = ''b'', d_Reason = '''', d_Task = ''t''\<rparr>
   \<and> DecisionFromToolCalls (sample_response\<lparr>rs_HasToolCalls := False\<rparr>) {''b''}
      = Inl (Errorf ''orchestrator: supervisor response missing handoff tool call'' [])"
proof -
  let ?tc = "\<lparr>tc_Name = ''handoff'', tc_Arguments = [''to'' \<mapsto> VString '' b '', ''task'' \<mapsto> VString ''t '']\<rparr>"
  have f: "first_handoff sample_response ?tc"
    by (simp add: first_handoff_find sample_response_def handoffToolName_def)
  have n: "NormalizeNext '' b '' = ''b''"
    by (simp add: NormalizeNext_alias end_aliases_def TrimSpace_samples lower_char_def Let_def)
  have e: "TrimSpace '''' = ''''" by (simp add: TrimSpace_id no_outer_space_def space_runes_def)
  have "DecisionFromToolCalls sample_response {''b''} = Inr \<lparr>d_Next = ''b'', d_Reason = '''', d_Task = ''t''\<rparr>"
    by (rule DecisionFromToolCalls_sound [of sample_response "{''b''}", THEN conjunct1, rule_format, THEN iffD2],
        intro conjI exI [of _ ?tc])
      (simp_all add: f call_arg_def at_key_def n e TrimSpace_samples, simp add: sample_response_def)
  moreover have "DecisionFromToolCalls (sample_response\<lparr>rs_HasToolCalls := False\<rparr>) {''b''}
      = Inl (Errorf ''orchestrator: supervisor response missing handoff tool call'' [])"
    by (rule DecisionFromToolCalls_sound [THEN conjunct2, THEN conjunct1, rule_format, THEN iffD2]) simp
  ultimately show ?thesis by (rule conjI)
qed

end
