(* ===== verification/ToolExec.thy ===== *)
theory ToolExec
  imports Hex Strings
begin

text \<open>
  \<^verbatim>\<open>graph/tool_execution.go\<close>: the execution metadata that tools get for their side effects,
  with the idempotency key. The key is a SHA-256 digest, so the digest is defined here too.
\<close>

unbundle bit_operations_syntax

section \<open>SHA-256\<close>

text \<open>\<open>crypto/sha256\<close>, after FIPS 180-4, on lists of bytes.\<close>

text \<open>
  The constants are the first 32 fractional bits of square and cube roots of the first primes:
  the integer root of \<open>p * 2 ^ (32 * k)\<close>, found bit by bit, without the bits of its integer part.
\<close>

definition root_floor :: "nat \<Rightarrow> nat \<Rightarrow> nat" where
  "root_floor k n = foldl (\<lambda>r b. if (r + 2 ^ b) ^ k \<le> n then r + 2 ^ b else r) 0 (rev [0..<40])"

definition fraction_bits :: "nat \<Rightarrow> nat \<Rightarrow> 32 word" where
  "fraction_bits k p = word_of_nat (root_floor k (p * 2 ^ (32 * k)))"

definition primes_below :: "nat \<Rightarrow> nat list" where
  "primes_below n = filter (\<lambda>p. \<forall>d \<in> set [2..<p]. p mod d \<noteq> 0) [2..<n]"

definition sha_K :: "32 word list" where
  "sha_K = map (fraction_bits 3) (primes_below 312)"

definition sha_H :: "32 word list" where
  "sha_H = map (fraction_bits 2) (primes_below 20)"

definition rotr :: "nat \<Rightarrow> 32 word \<Rightarrow> 32 word" where
  "rotr n x = drop_bit n x OR push_bit (32 - n) x"

text \<open>Padding: the bit 1, zeros, and the length in bits as 64 bits, to a multiple of 64 bytes.\<close>

definition sha_pad :: "8 word list \<Rightarrow> 8 word list" where
  "sha_pad m =
     (let l = length m
      in m @ [0x80] @ replicate ((119 - l mod 64) mod 64) 0
           @ map (\<lambda>i. word_of_nat ((8 * l) div 2 ^ (8 * (7 - i)))) [0..<8])"

definition be_word :: "8 word list \<Rightarrow> 32 word" where
  "be_word bs = foldl (\<lambda>x b. push_bit 8 x OR ucast b) 0 bs"

fun chunks :: "nat \<Rightarrow> 'a list \<Rightarrow> 'a list list" where
  "chunks n [] = []"
| "chunks n (x # xs) = (if n = 0 then [x # xs] else take n (x # xs) # chunks n (drop n (x # xs)))"

text \<open>The message schedule, newest word first, extended \<open>k\<close> times.\<close>

fun sha_schedule :: "nat \<Rightarrow> 32 word list \<Rightarrow> 32 word list" where
  "sha_schedule 0 ws = ws"
| "sha_schedule (Suc k) ws =
     (let s0 = (\<lambda>x. rotr 7 x XOR rotr 18 x XOR drop_bit 3 x);
          s1 = (\<lambda>x. rotr 17 x XOR rotr 19 x XOR drop_bit 10 x)
      in sha_schedule k ((s1 (ws ! 1) + ws ! 6 + s0 (ws ! 14) + ws ! 15) # ws))"

definition sha_round :: "32 word \<times> 32 word \<Rightarrow> 32 word list \<Rightarrow> 32 word list" where
  "sha_round kw v =
     (let (k, w) = kw; a = v ! 0; b = v ! 1; c = v ! 2; d = v ! 3; e = v ! 4; f = v ! 5; g = v ! 6; h = v ! 7;
          t1 = h + (rotr 6 e XOR rotr 11 e XOR rotr 25 e) + ((e AND f) XOR (NOT e AND g)) + k + w;
          t2 = (rotr 2 a XOR rotr 13 a XOR rotr 22 a) + ((a AND b) XOR (a AND c) XOR (b AND c))
      in [t1 + t2, a, b, c, d + t1, e, f, g])"

definition sha_block :: "8 word list \<Rightarrow> 32 word list \<Rightarrow> 32 word list" where
  "sha_block bs hs =
     (let ws = rev (sha_schedule 48 (rev (map be_word (chunks 4 bs))))
      in map2 (+) hs (fold sha_round (zip sha_K ws) hs))"

definition Sum256 :: "8 word list \<Rightarrow> 8 word list" where
  "Sum256 m =
     concat (map (\<lambda>x. map (\<lambda>i. ucast (drop_bit (8 * (3 - i)) x)) [0..<4])
       (fold sha_block (chunks 64 (sha_pad m)) sha_H))"

section \<open>Tool executions\<close>

record ToolExecution =
  te_ThreadID :: string
  te_RunID :: string
  te_NodeID :: string
  te_ParentCheckpointID :: string
  te_LeaseEpoch :: int
  te_ToolName :: string
  te_OperationID :: string

definition IdempotencyKeyVersion :: string where
  "IdempotencyKeyVersion = ''v1''"

definition ToolExecutionFrom :: "('s, 'u) Ctx \<Rightarrow> string \<Rightarrow> string \<Rightarrow> gerror + ToolExecution" where
  "ToolExecutionFrom ctx toolName0 operationID0 =
     (let toolName = TrimSpace toolName0; operationID = TrimSpace operationID0
      in if toolName = '''' then Inl (Errorf ''graph: ToolExecution requires toolName'' [])
         else if operationID = '''' then Inl (Errorf ''graph: ToolExecution requires operationID'' [])
         else Inr \<lparr>te_ThreadID = ctx_ThreadID ctx, te_RunID = ctx_RunID ctx, te_NodeID = ctx_NodeID ctx,
           te_ParentCheckpointID = ctx_ParentCheckpointID ctx, te_LeaseEpoch = LeaseEpoch ctx,
           te_ToolName = toolName, te_OperationID = operationID\<rparr>)"

definition key_payload :: "ToolExecution \<Rightarrow> string" where
  "key_payload e =
     Join [IdempotencyKeyVersion, te_ThreadID e, te_ParentCheckpointID e, te_NodeID e,
           te_ToolName e, te_OperationID e] [CHR 0x00]"

text \<open>\<open>[]byte(payload)\<close>.\<close>

definition bytes_of :: "string \<Rightarrow> 8 word list" where
  "bytes_of s = map (\<lambda>c. word_of_nat (of_char c)) s"

definition IdempotencyKey :: "ToolExecution \<Rightarrow> string" where
  "IdempotencyKey e = hex_encode (Sum256 (bytes_of (key_payload e)))"

definition FenceToken :: "ToolExecution \<Rightarrow> int" where
  "FenceToken e = te_LeaseEpoch e"

section \<open>Properties\<close>

lemma bytes_of_inject: "bytes_of s = bytes_of t \<longleftrightarrow> s = t"
proof -
  have "(word_of_nat (of_char c) :: 8 word) = word_of_nat (of_char d) \<longleftrightarrow> c = d" for c d :: char
  proof -
    have "(of_char c :: nat) < 256" "(of_char d :: nat) < 256" by (simp_all add: nat_of_char_less_256)
    then show ?thesis by (simp add: word_of_nat_eq_iff take_bit_eq_mod)
  qed
  then show ?thesis unfolding bytes_of_def by (intro inj_map_eq_map injI) simp
qed

text \<open>The coordinates that a tool's side effect is identified by.\<close>

definition coordinates :: "ToolExecution \<Rightarrow> string list" where
  "coordinates e = [te_ThreadID e, te_ParentCheckpointID e, te_NodeID e, te_ToolName e, te_OperationID e]"

lemma key_payload_coordinates: "key_payload e = Join (IdempotencyKeyVersion # coordinates e) [CHR 0x00]"
  by (simp add: key_payload_def coordinates_def)

text \<open>
  C32: The idempotency key identifies the operation. For executions whose coordinates (thread,
  parent checkpoint, node, tool and operation) hold no NUL byte, the keys are equal exactly when
  the coordinates are, unless SHA-256 collides on the two payloads; run and lease epoch do not
  matter, so a retry or a takeover of the same operation reuses its key.
\<close>

theorem IdempotencyKey_identifies:
  assumes "\<forall>x \<in> set (coordinates e) \<union> set (coordinates e'). CHR 0x00 \<notin> set x"
    and "inj_on Sum256 {bytes_of (key_payload e), bytes_of (key_payload e')}"
  shows "IdempotencyKey e = IdempotencyKey e' \<longleftrightarrow> coordinates e = coordinates e'"
proof
  assume "IdempotencyKey e = IdempotencyKey e'"
  then have "Sum256 (bytes_of (key_payload e)) = Sum256 (bytes_of (key_payload e'))"
    by (simp add: IdempotencyKey_def hex_encode_inject)
  with assms(2) have "bytes_of (key_payload e) = bytes_of (key_payload e')" by (auto dest: inj_onD)
  then have eq: "Join (IdempotencyKeyVersion # coordinates e) [CHR 0x00]
      = Join (IdempotencyKeyVersion # coordinates e') [CHR 0x00]"
    by (simp add: bytes_of_inject key_payload_coordinates)
  have "IdempotencyKeyVersion # coordinates e = IdempotencyKeyVersion # coordinates e'"
    by (rule Join_inject [OF _ _ eq])
      (use assms(1) in \<open>auto simp: coordinates_def IdempotencyKeyVersion_def\<close>)
  then show "coordinates e = coordinates e'" by simp
next
  assume "coordinates e = coordinates e'"
  then have "key_payload e = key_payload e'" by (simp only: key_payload_coordinates)
  then show "IdempotencyKey e = IdempotencyKey e'" by (simp only: IdempotencyKey_def)
qed

definition sample_execution :: "string \<Rightarrow> string \<Rightarrow> int \<Rightarrow> ToolExecution" where
  "sample_execution thread rid n = \<lparr>te_ThreadID = thread, te_RunID = rid, te_NodeID = ''node'',
     te_ParentCheckpointID = ''c1'', te_LeaseEpoch = n, te_ToolName = ''pay'', te_OperationID = ''call-1''\<rparr>"

theorem IdempotencyKey_identifies_witness:
  "IdempotencyKey (sample_execution ''t'' ''r1'' 1) = IdempotencyKey (sample_execution ''t'' ''r2'' 2)"
  by (subst IdempotencyKey_identifies) (auto simp: sample_execution_def coordinates_def key_payload_def)

text \<open>
  With NUL bytes in the coordinates the key does not separate operations: two executions of
  different threads share one, because the coordinates are joined with NUL bytes.
\<close>

theorem IdempotencyKey_NUL:
  "let e = (sample_execution [CHR ''a'', CHR 0x00, CHR ''b''] ''r'' 1)\<lparr>te_ParentCheckpointID := ''c''\<rparr>;
       e' = (sample_execution ''a'' ''r'' 1)\<lparr>te_ParentCheckpointID := [CHR ''b'', CHR 0x00, CHR ''c'']\<rparr>
   in te_ThreadID e \<noteq> te_ThreadID e' \<and> te_ParentCheckpointID e \<noteq> te_ParentCheckpointID e'
     \<and> IdempotencyKey e = IdempotencyKey e'"
  by (simp add: IdempotencyKey_def key_payload_def sample_execution_def Let_def)

end
