(* ===== verification/Legacy.thy ===== *)
theory Legacy
  imports Liveness
begin

text \<open>
  \<^verbatim>\<open>checkpoint/memory.go\<close>: the in-process legacy checkpointer, which keeps the latest
  snapshot of every thread. It meets the engine's store contract, so everything proved for
  runs on durable stores holds on it; and as a legacy checkpointer \<open>DurableMemory\<close> refines it.
\<close>

section \<open>Memory\<close>

type_synonym Memory = "string \<Rightarrow> Snapshot option"

definition NewMemory :: Memory where
  "NewMemory = Map.empty"

definition Mem_Put :: "string \<Rightarrow> Snapshot \<Rightarrow> Memory \<Rightarrow> Memory" where
  "Mem_Put threadID0 snap m =
     (let threadID = (if threadID0 = '''' then sn_ThreadID snap else threadID0)
      in m(threadID \<mapsto> snap\<lparr>sn_ThreadID := threadID\<rparr>))"

definition Mem_Get :: "string \<Rightarrow> Memory \<Rightarrow> Snapshot option" where
  "Mem_Get threadID m = m threadID"

text \<open>The methods as a \<open>Checkpointer\<close>, for a \<open>Memory\<close> at the place \<open>get\<close> reads and \<open>put\<close> writes.\<close>

definition Memory_at ::
  "('s \<Rightarrow> Memory) \<Rightarrow> (Memory \<Rightarrow> 's \<Rightarrow> 's) \<Rightarrow> ('s, 'u) Checkpointer" where
  "Memory_at get put =
     \<lparr>cp_Put = (\<lambda>t snap w. (None, w\<lparr>w_store := put (Mem_Put t snap (get (w_store w))) (w_store w)\<rparr>)),
      cp_Get = (\<lambda>t w. Inr (Mem_Get t (get (w_store w))))\<rparr>"

abbreviation mem_store :: "(Memory, 'u) Checkpointer" where
  "mem_store \<equiv> Memory_at (\<lambda>s. s) (\<lambda>m s. m)"

section \<open>The store contract\<close>

text \<open>A graph compiled with a \<open>Memory\<close>. Every commit is taken, whatever id it carries.\<close>

definition mem_uses :: "(Memory, 'u) Compiled \<Rightarrow> bool" where
  "mem_uses g \<longleftrightarrow> g_checkpointer g = Some mem_store \<and> g_durable g = None \<and> g_lease g = None"

definition mem_latest :: "Memory \<Rightarrow> string \<Rightarrow> Snapshot option" where
  "mem_latest m t = Mem_Get t m"

lemma mem_persist:
  assumes "mem_uses g"
  shows "persist g cfg snap arts w =
    (case leaseLostFrom w of Some e \<Rightarrow> (Some e, w)
     | None \<Rightarrow> (None, w\<lparr>w_store := Mem_Put (rc_threadID cfg) snap (w_store w)\<rparr>))"
  using assms by (simp add: persist_def mem_uses_def Memory_at_def split: option.splits)

lemma Mem_Put_latest:
  assumes "sn_ThreadID snap = t"
  shows "mem_latest (Mem_Put t snap m) t = Some snap"
  using assms by (simp add: mem_latest_def Mem_Put_def Mem_Get_def)

interpretation mem: live_store mem_uses mem_latest "\<lambda>m t. {}" "\<lambda>m. True"
  "\<lambda>g t p w. uncancelled w" "\<lambda>g t p w. uncancelled w"
proof (unfold_locales, goal_cases)
  case (3 g w cfg snap arts w')
  then have "mem_latest (w_store w') (rc_threadID cfg) = Some snap"
    by (auto simp: mem_persist Mem_Put_latest split: option.splits)
  then have "mem_latest (w_store w') (rc_threadID cfg)
      = Some (snap\<lparr>sn_Revision := sn_Revision snap, sn_CreatedAt := sn_CreatedAt snap\<rparr>)" by simp
  then show ?case by blast
next
  case (4 g w cfg snap arts e w')
  then show ?case by (auto simp: mem_persist split: option.splits dest: leaseLostFrom_AsInterrupt)
next
  case (8 g w cfg p snap)
  then have "persist g cfg snap [] w = (None, w\<lparr>w_store := Mem_Put (rc_threadID cfg) snap (w_store w)\<rparr>)"
    by (simp add: mem_persist uncancelled_ctx)
  with 8(3) show ?case by (auto simp: uncancelled_def)
qed (auto simp: mem_uses_def hasStore_def loadLatest_def Memory_at_def mem_latest_def mem_persist
    uncancelled_def same_run_def ctx_Err_def split: option.splits)

section \<open>DurableMemory as a legacy checkpointer\<close>

text \<open>What a legacy checkpointer promises to keep of a snapshot.\<close>

definition content :: "Snapshot \<Rightarrow> string \<times> string \<times> State \<times> int \<times> bool \<times> gval" where
  "content s = (sn_ThreadID s, sn_Node s, sn_State s, sn_Step s, sn_Interrupt s, sn_InterruptValue s)"

lemma Put_step:
  assumes "DM_Put now t snap m r = (e, m', r')" "t \<noteq> ''''" "sn_CheckpointID snap \<noteq> ''''"
    and "sn_CheckpointID snap \<notin> dm_known m t"
  shows "e = None \<and> map_option content (DM_GetLatest t' m')
      = (if t' = t then Some (content (snap\<lparr>sn_ThreadID := t\<rparr>)) else map_option content (DM_GetLatest t' m))
    \<and> dm_known m' t' = (if t' = t then insert (sn_CheckpointID snap) (dm_known m t) else dm_known m t')"
proof -
  let ?m1 = "m(t \<mapsto> thread_at m t)"
  let ?s = "snap\<lparr>sn_ThreadID := t, sn_ParentCheckpointID := mt_latestID (thread_at m t)\<rparr>"
  have same: "thread_at ?m1 = thread_at m" by simp
  have c: "DM_CommitStep now ?s [] ?m1 r = (e, m', r')"
    using assms(1-3) by (simp add: DM_Put_def threadLocked_eq)
  have "sn_CheckpointID ?s \<notin> dm_known ?m1 (sn_ThreadID ?s)" using assms(4) by (simp add: dm_known_def same)
  from commit_succeeds [OF _ _ this, of now r] assms(2,3) same c have e: "e = None" by simp
  from commit_new [OF c [unfolded e], of t] assms(4)
  have n: "dm_known m' t = insert (sn_CheckpointID snap) (dm_known m t)"
    "\<exists>rv c. DM_GetLatest t m' = Some (?s\<lparr>sn_Revision := rv, sn_CreatedAt := c\<rparr>)"
    by (simp_all add: dm_known_def same dm_latest_def)
  have f: "thread_at m' t' = thread_at m t'" if "t' \<noteq> t"
    using CommitStep_frame [OF c, of t'] that same by (simp add: thread_at_def)
  show ?thesis
  proof (cases "t' = t")
    case True
    with e n show ?thesis by (auto simp: content_def)
  next
    case False
    with e f show ?thesis by (simp add: GetLatest_thread dm_known_def)
  qed
qed

text \<open>Snapshots that can be put in this order, with ids the threads do not have yet.\<close>

fun fresh_puts :: "(string \<times> Snapshot) list \<Rightarrow> (string \<Rightarrow> string set) \<Rightarrow> bool" where
  "fresh_puts [] known = True"
| "fresh_puts ((t, s) # xs) known =
     (t \<noteq> '''' \<and> sn_CheckpointID s \<noteq> '''' \<and> sn_CheckpointID s \<notin> known t
      \<and> fresh_puts xs (known(t := insert (sn_CheckpointID s) (known t))))"

text \<open>
  C28: As a legacy checkpointer \<open>DurableMemory\<close> refines \<open>Memory\<close>: after the same puts, with
  checkpoint ids their threads do not have yet, \<open>Get\<close> answers the same content for every thread
  on both (thread, node, state, step and interrupt), although one keeps the whole history and
  the other the latest snapshot only.
\<close>

theorem DurableMemory_refines_Memory:
  assumes "fresh_puts puts (dm_known m)" "\<forall>t. map_option content (DM_GetLatest t m) = map_option content (Mem_Get t mm)"
    and "dm_run (map (\<lambda>(t, s). OpPut now t s) puts) (m, r) = (m', r')"
    and "fold (\<lambda>(t, s). Mem_Put t s) puts mm = mm'"
  shows "map_option content (DM_GetLatest t m') = map_option content (Mem_Get t mm')"
  using assms
proof (induction puts arbitrary: m r mm)
  case (Cons p puts)
  obtain t1 s1 where p: "p = (t1, s1)" by (cases p)
  obtain e m1 r1 where put: "DM_Put now t1 s1 m r = (e, m1, r1)" by (rule prod_cases3)
  note fp = Cons.prems(1) [unfolded p]
  have new: "t1 \<noteq> ''''" "sn_CheckpointID s1 \<noteq> ''''" "sn_CheckpointID s1 \<notin> dm_known m t1"
    using fp by simp_all
  note st = Put_step [OF put new]
  have "dm_known m1 = (dm_known m)(t1 := insert (sn_CheckpointID s1) (dm_known m t1))"
    using st by (auto simp: fun_eq_iff)
  with fp have "fresh_puts puts (dm_known m1)" by simp
  moreover have "\<forall>t. map_option content (DM_GetLatest t m1) = map_option content (Mem_Get t (Mem_Put t1 s1 mm))"
    using st Cons.prems(2) new(1) by (simp add: Mem_Get_def Mem_Put_def)
  moreover have "dm_run (map (\<lambda>(t, s). OpPut now t s) puts) (m1, r1) = (m', r')"
    using Cons.prems(3) p put by simp
  moreover have "fold (\<lambda>(t, s). Mem_Put t s) puts (Mem_Put t1 s1 mm) = mm'"
    using Cons.prems(4) p by simp
  ultimately show ?case by (rule Cons.IH)
qed simp

theorem DurableMemory_refines_Memory_witness:
  "map_option content (DM_GetLatest ''a'' (fst (dm_run [OpPut 9 ''a'' (sample_snap ''c1'' ''''),
      OpPut 9 ''b'' (sample_snap ''c1'' ''''), OpPut 9 ''a'' (sample_snap ''c2'' '''')] (NewDurableMemory, sample_rng))))
    = Some (content ((sample_snap ''c2'' '''')\<lparr>sn_ThreadID := ''a''\<rparr>))"
proof -
  let ?puts = "[(''a'', sample_snap ''c1'' ''''), (''b'', sample_snap ''c1'' ''''), (''a'', sample_snap ''c2'' '''')]"
  have "fresh_puts ?puts (dm_known NewDurableMemory)"
    by (simp add: dm_known_def thread_at_new new_thread_def)
  moreover have "\<forall>t. map_option content (DM_GetLatest t NewDurableMemory) = map_option content (Mem_Get t NewMemory)"
    by (simp add: DM_GetLatest_def NewDurableMemory_def Mem_Get_def NewMemory_def)
  ultimately have "map_option content (DM_GetLatest ''a''
      (fst (dm_run (map (\<lambda>(t, s). OpPut 9 t s) ?puts) (NewDurableMemory, sample_rng))))
    = map_option content (Mem_Get ''a'' (fold (\<lambda>(t, s). Mem_Put t s) ?puts NewMemory))"
    using DurableMemory_refines_Memory [OF _ _ surjective_pairing refl] by blast
  then show ?thesis by (simp add: Mem_Get_def Mem_Put_def Let_def del: dm_exec.simps dm_run.simps)
qed

end
