(* ===== verification/BuilderProps.thy ===== *)
theory BuilderProps
  imports EngineFacts
begin

text \<open>
  What \<open>Compile\<close> accepts, that its verdict does not depend on the order in which \<open>range\<close>
  visits the builder's maps, and that a compiled graph never leads a run to a node it does
  not have.
\<close>

section \<open>Validation\<close>

text \<open>The topology that \<open>Compile\<close> asks for.\<close>

definition valid_topology :: "('s, 'u) Builder \<Rightarrow> bool" where
  "valid_topology b \<longleftrightarrow>
     b_entry b \<noteq> '''' \<and> b_nodes b (b_entry b) \<noteq> None
     \<and> (\<forall>from to. b_edges b from = Some to \<longrightarrow>
          (b_nodes b from \<noteq> None \<or> from = START) \<and> (to = END \<or> b_nodes b to \<noteq> None))
     \<and> (\<forall>from. b_routes b from \<noteq> None \<longrightarrow> b_nodes b from \<noteq> None)"

text \<open>The options after all of them were applied.\<close>

definition options_of :: "('s, 'u) CompileOption list \<Rightarrow> ('s, 'u) compileConfig" where
  "options_of opts = fold (\<lambda>o1 c. o1 c) opts
     \<lparr>cc_checkpointer = None, cc_durable = None, cc_lease = None, cc_leaseTTL = 0,
      cc_leaseReleaseTimeout = 0\<rparr>"

definition graph_of :: "('s, 'u) CompileOption list \<Rightarrow> ('s, 'u) Builder \<Rightarrow> ('s, 'u) Compiled" where
  "graph_of opts b =
     (let cfg = options_of opts
      in \<lparr>g_nodes = b_nodes b, g_edges = b_edges b, g_routes = b_routes b,
          g_reducers = b_reducers b, g_entry = b_entry b, g_checkpointer = cc_checkpointer cfg,
          g_durable = cc_durable cfg, g_lease = cc_lease cfg,
          g_leaseTTL = (if cc_leaseTTL cfg \<le> 0 then DefaultLeaseTTL else cc_leaseTTL cfg),
          g_leaseReleaseTimeout = (if cc_leaseReleaseTimeout cfg \<le> 0 then DefaultLeaseReleaseTimeout
            else cc_leaseReleaseTimeout cfg)\<rparr>)"

lemma check_edges_None:
  "check_edges b es = None \<longleftrightarrow>
     (\<forall>(from, to) \<in> set es. (b_nodes b from \<noteq> None \<or> from = START) \<and> (to = END \<or> b_nodes b to \<noteq> None))"
  by (induction es rule: check_edges.induct) auto

lemma check_routes_None: "check_routes b rs = None \<longleftrightarrow> (\<forall>from \<in> set rs. b_nodes b from \<noteq> None)"
  by (induction rs) auto

text \<open>The two listings a call of \<open>Compile\<close> works with.\<close>

definition range_orders :: "('s, 'u) Builder \<Rightarrow> (string \<times> string) list \<Rightarrow> string list \<Rightarrow> bool" where
  "range_orders b es rs \<longleftrightarrow> is_range es (b_edges b) \<and> set rs = dom (b_routes b)"

lemma valid_topology_checks:
  assumes "range_orders b es rs"
  shows "valid_topology b \<longleftrightarrow> b_entry b \<noteq> '''' \<and> b_nodes b (b_entry b) \<noteq> None
    \<and> check_edges b es = None \<and> check_routes b rs = None"
proof -
  have "set es = {(from, to). b_edges b from = Some to}"
    using assms is_range_mem [of es "b_edges b"] by (auto simp: range_orders_def)
  then have e: "check_edges b es = None \<longleftrightarrow> (\<forall>from to. b_edges b from = Some to \<longrightarrow>
      (b_nodes b from \<noteq> None \<or> from = START) \<and> (to = END \<or> b_nodes b to \<noteq> None))"
    by (simp add: check_edges_None)
  have r: "check_routes b rs = None \<longleftrightarrow> (\<forall>from. b_routes b from \<noteq> None \<longrightarrow> b_nodes b from \<noteq> None)"
    using assms by (auto simp: range_orders_def check_routes_None dom_def)
  show ?thesis unfolding valid_topology_def e r by (rule refl)
qed

lemma Compile_graph:
  assumes "range_orders b es rs"
  shows "Compile opts es rs b = Inr g \<longleftrightarrow>
    check_options (options_of opts) = None \<and> valid_topology b \<and> g = graph_of opts b"
  unfolding valid_topology_checks [OF assms]
  by (auto simp: Compile_def graph_of_def options_of_def Let_def split: option.splits)

lemma check_options_None:
  "check_options cfg = None \<longleftrightarrow> cc_lease cfg = None
     \<or> (case cc_durable cfg of Some d \<Rightarrow> dc_CommitStepFenced d \<noteq> None | None \<Rightarrow> cc_checkpointer cfg = None)"
  by (simp add: check_options_def split: option.splits)

text \<open>
  C26: \<open>Compile\<close> accepts a builder exactly when its options are consistent and its topology is
  valid. A lease is accepted beside a durable store that commits fenced (a legacy
  \<open>Checkpointer\<close> then does not matter) and without any store; a lease beside a durable store
  that cannot commit fenced, or beside a legacy \<open>Checkpointer\<close> alone, is refused. The topology
  is valid when the entry is a node, every edge and route starts at a node (an edge also at
  \<open>START\<close>) and every edge leads to a node or the end. The graph holds what the builder and the
  options hold, with positive lease lifetime and release timeout kept and others defaulted;
  verdict and graph do not depend on the order in which \<open>range\<close> visits edges and routes.
\<close>

theorem Compile_spec:
  assumes "range_orders b es rs"
  shows "((\<exists>g. Compile opts es rs b = Inr g)
      \<longleftrightarrow> (cc_lease (options_of opts) = None
           \<or> (case cc_durable (options_of opts) of
                Some d \<Rightarrow> dc_CommitStepFenced d \<noteq> None
              | None \<Rightarrow> cc_checkpointer (options_of opts) = None))
        \<and> b_entry b \<noteq> '''' \<and> b_nodes b (b_entry b) \<noteq> None
        \<and> (\<forall>from to. b_edges b from = Some to \<longrightarrow>
             (b_nodes b from \<noteq> None \<or> from = START) \<and> (to = END \<or> b_nodes b to \<noteq> None))
        \<and> (\<forall>from. b_routes b from \<noteq> None \<longrightarrow> b_nodes b from \<noteq> None))
    \<and> (\<forall>g. Compile opts es rs b = Inr g \<longrightarrow>
         g_nodes g = b_nodes b \<and> g_edges g = b_edges b \<and> g_routes g = b_routes b
         \<and> g_reducers g = b_reducers b \<and> g_entry g = b_entry b
         \<and> g_checkpointer g = cc_checkpointer (options_of opts) \<and> g_durable g = cc_durable (options_of opts)
         \<and> g_lease g = cc_lease (options_of opts)
         \<and> g_leaseTTL g = (if 0 < cc_leaseTTL (options_of opts) then cc_leaseTTL (options_of opts) else DefaultLeaseTTL)
         \<and> g_leaseReleaseTimeout g = (if 0 < cc_leaseReleaseTimeout (options_of opts)
              then cc_leaseReleaseTimeout (options_of opts) else DefaultLeaseReleaseTimeout))
    \<and> (\<forall>es' rs' g. range_orders b es' rs' \<longrightarrow> Compile opts es rs b = Inr g \<longrightarrow> Compile opts es' rs' b = Inr g)"
proof (intro conjI)
  show "(\<exists>g. Compile opts es rs b = Inr g)
      \<longleftrightarrow> (cc_lease (options_of opts) = None
           \<or> (case cc_durable (options_of opts) of
                Some d \<Rightarrow> dc_CommitStepFenced d \<noteq> None
              | None \<Rightarrow> cc_checkpointer (options_of opts) = None))
        \<and> b_entry b \<noteq> '''' \<and> b_nodes b (b_entry b) \<noteq> None
        \<and> (\<forall>from to. b_edges b from = Some to \<longrightarrow>
             (b_nodes b from \<noteq> None \<or> from = START) \<and> (to = END \<or> b_nodes b to \<noteq> None))
        \<and> (\<forall>from. b_routes b from \<noteq> None \<longrightarrow> b_nodes b from \<noteq> None)"
    unfolding Compile_graph [OF assms] check_options_None valid_topology_def by blast
  show "\<forall>g. Compile opts es rs b = Inr g \<longrightarrow>
         g_nodes g = b_nodes b \<and> g_edges g = b_edges b \<and> g_routes g = b_routes b
         \<and> g_reducers g = b_reducers b \<and> g_entry g = b_entry b
         \<and> g_checkpointer g = cc_checkpointer (options_of opts) \<and> g_durable g = cc_durable (options_of opts)
         \<and> g_lease g = cc_lease (options_of opts)
         \<and> g_leaseTTL g = (if 0 < cc_leaseTTL (options_of opts) then cc_leaseTTL (options_of opts) else DefaultLeaseTTL)
         \<and> g_leaseReleaseTimeout g = (if 0 < cc_leaseReleaseTimeout (options_of opts)
              then cc_leaseReleaseTimeout (options_of opts) else DefaultLeaseReleaseTimeout)"
    by (auto simp: Compile_graph [OF assms] graph_of_def Let_def)
  show "\<forall>es' rs' g. range_orders b es' rs' \<longrightarrow> Compile opts es rs b = Inr g \<longrightarrow> Compile opts es' rs' b = Inr g"
    by (simp add: Compile_graph assms)
qed

section \<open>A compiled graph is closed\<close>

text \<open>
  C27: A run of a compiled graph never leaves it. From a registered node, with an update and a
  context of any kind, routing fails or leads to the end or to a registered node; so a run that
  starts at a registered node only ever reaches registered nodes and the end. A lease without
  fenced commits is never compiled in: every checkpoint of a leased durable run goes through
  \<open>CommitStepFenced\<close> with the run's own grant.
\<close>

theorem compiled_graph_closed:
  assumes "Compile opts es rs b = Inr g" "range_orders b es rs"
  shows "(\<forall>ctx n s n'. next_node g ctx n s = Inr n' \<longrightarrow> n' = END \<or> g_nodes g n' \<noteq> None)
    \<and> (\<forall>cfg rs rs'. run_body g cfg rs = Inr rs' \<longrightarrow>
         g_nodes g (rs_node rs) \<noteq> None \<and> (rs_node rs' = END \<or> g_nodes g (rs_node rs') \<noteq> None))
    \<and> (\<forall>d cfg snap arts w w'. g_durable g = Some d \<and> g_lease g \<noteq> None
         \<and> persist g cfg snap arts w = (None, w') \<longrightarrow>
         (\<exists>commit gr. dc_CommitStepFenced d = Some commit \<and> w_sess w = Some gr
            \<and> commit snap arts gr w = (None, w')))"
proof -
  from assms have v: "valid_topology b" "g = graph_of opts b" by (auto simp: Compile_graph)
  then have r: "n' = END \<or> g_nodes g n' \<noteq> None" if "next_node g ctx n s = Inr n'" for ctx n s n'
    using that
    by (auto simp: next_node_def graph_of_def valid_topology_def Let_def split: option.splits if_splits)
  moreover have "g_nodes g (rs_node rs) \<noteq> None \<and> (rs_node rs' = END \<or> g_nodes g (rs_node rs') \<noteq> None)"
    if b: "run_body g cfg rs = Inr rs'" for cfg rs rs'
  proof -
    from b obtain fn nc col and res :: node_result and w1 where n: "g_nodes g (rs_node rs) = Some fn"
      and a: "after_node g cfg (rs_ctx rs) nc col (nr_Update res) (rs_node rs) (rs_step rs) (rs_parent rs)
        (nr_State res) w1 = Inr rs'" by (rule run_body_Inr) blast
    from a have "next_node g ((rs_ctx rs)\<lparr>ctx_Resume := VNil\<rparr>) (rs_node rs)
        (Apply (nr_State res) (nr_Update res) (g_reducers g)) = Inr (rs_node rs')"
      by (auto simp: after_node_def Let_def split: sum.splits prod.splits if_splits)
    from r [OF this] have "rs_node rs' = END \<or> g_nodes g (rs_node rs') \<noteq> None" .
    with n show ?thesis by simp
  qed
  moreover have "\<exists>commit gr. dc_CommitStepFenced d = Some commit \<and> w_sess w = Some gr
      \<and> commit snap arts gr w = (None, w')"
    if "g_durable g = Some d \<and> g_lease g \<noteq> None \<and> persist g cfg snap arts w = (None, w')"
    for d cfg snap arts w w'
    using that by (auto simp: persist_def split: option.splits)
  ultimately show ?thesis by blast
qed

section \<open>Instances\<close>

definition built :: "(unit, unit) Builder" where
  "built = \<lparr>b_nodes = [''a'' \<mapsto> pure_node (\<lambda>s. []), ''b'' \<mapsto> pure_node (\<lambda>s. [])],
     b_edges = [''a'' \<mapsto> ''b''], b_routes = [''b'' \<mapsto> (\<lambda>ctx s. ''a'')], b_reducers = Map.empty,
     b_entry = ''a''\<rparr>"

lemma built_orders: "range_orders built [(''a'', ''b'')] [''b'']"
  by (simp add: range_orders_def built_def is_range_def)

lemma built_valid: "valid_topology built"
  by (simp add: valid_topology_def built_def)

lemma no_options: "check_options (options_of []) = None"
  by (simp add: check_options_def options_of_def)

theorem Compile_spec_witness: "\<exists>g. Compile [] [(''a'', ''b'')] [''b''] built = Inr g"
  using Compile_spec [OF built_orders, of "[]", THEN conjunct1] built_valid no_options
  unfolding check_options_None valid_topology_def by blast

theorem compiled_graph_closed_witness:
  "\<exists>n'. next_node (graph_of [] built) Background ''b'' Map.empty = Inr n'
     \<and> g_nodes (graph_of [] built) n' \<noteq> None"
proof -
  have c: "Compile [] [(''a'', ''b'')] [''b''] built = Inr (graph_of [] built)"
    by (simp add: Compile_graph [OF built_orders] built_valid no_options)
  have "next_node (graph_of [] built) Background ''b'' Map.empty = Inr ''a''"
    by (simp add: next_node_def graph_of_def built_def Let_def)
  with compiled_graph_closed [OF c built_orders, THEN conjunct1] show ?thesis by fastforce
qed

end
