(* ===== verification/Pipelines.thy ===== *)
theory Pipelines
  imports RunProps BuilderProps
begin

text \<open>
  \<^verbatim>\<open>orchestrator/pipeline.go\<close>: the preset that runs its nodes one after the other, and
  that it does.
\<close>

section \<open>Pipeline\<close>

text \<open>
  The two loops of \<open>Pipeline\<close>. A registration that panics ends the call (\<open>Inl\<close> with the
  panic's text); a missing node is an error.
\<close>

fun pipeline_nodes ::
  "(string \<Rightarrow> ('s, 'u) NodeFunc option option) \<Rightarrow> string list \<Rightarrow> ('s, 'u) Builder
   \<Rightarrow> string + (gerror + ('s, 'u) Builder)" where
  "pipeline_nodes nodes [] b = Inr (Inr b)"
| "pipeline_nodes nodes (name # order) b =
     (case nodes name of
        None \<Rightarrow> Inr (Inl (Errorf ''orchestrator: missing node %q'' [AStr name]))
      | Some fn \<Rightarrow>
          (case AddNode name fn b of
             Inl p \<Rightarrow> Inl p
           | Inr b' \<Rightarrow> pipeline_nodes nodes order b'))"

fun pipeline_edges :: "string list \<Rightarrow> ('s, 'u) Builder \<Rightarrow> string + ('s, 'u) Builder" where
  "pipeline_edges [] b = Inr b"
| "pipeline_edges [x] b = AddEdge x END b"
| "pipeline_edges (x # y # order) b =
     (case AddEdge x y b of Inl p \<Rightarrow> Inl p | Inr b' \<Rightarrow> pipeline_edges (y # order) b')"

definition Pipeline ::
  "(string \<Rightarrow> ('s, 'u) NodeFunc option option) \<Rightarrow> string list \<Rightarrow> ('s, 'u) CompileOption list
   \<Rightarrow> (string \<times> string) list \<Rightarrow> string list \<Rightarrow> string + (gerror + ('s, 'u) Compiled)" where
  "Pipeline nodes order opts es rs =
     (if order = [] then Inr (Inl (Errorf ''orchestrator: empty pipeline order'' []))
      else (case pipeline_nodes nodes order NewBuilder of
              Inl p \<Rightarrow> Inl p
            | Inr (Inl e) \<Rightarrow> Inr (Inl e)
            | Inr (Inr b) \<Rightarrow>
                (case SetEntry (hd order) b of
                   Inl p \<Rightarrow> Inl p
                 | Inr b' \<Rightarrow>
                     (case pipeline_edges order b' of
                        Inl p \<Rightarrow> Inl p
                      | Inr b'' \<Rightarrow> Inr (Compile opts es rs b'')))))"

section \<open>What it builds\<close>

text \<open>Names and functions that make a pipeline.\<close>

definition proper_stages :: "(string \<Rightarrow> ('s, 'u) NodeFunc option option) \<Rightarrow> string list \<Rightarrow> bool" where
  "proper_stages nodes order \<longleftrightarrow> distinct order
     \<and> (\<forall>n \<in> set order. n \<notin> {'''', START, END} \<and> (\<exists>f. nodes n = Some (Some f)))"

text \<open>The edges of a pipeline.\<close>

fun chain :: "string list \<Rightarrow> string \<Rightarrow> string option" where
  "chain [] = Map.empty"
| "chain [x] = [x \<mapsto> END]"
| "chain (x # y # order) = (chain (y # order))(x \<mapsto> y)"

lemma chain_one: "chain [x] = [x \<mapsto> END]"
  by (simp add: fun_eq_iff)

lemma chain_step: "chain (x # y # order) = (chain (y # order))(x \<mapsto> y)"
  by (simp add: fun_eq_iff)

lemma dom_chain_step: "dom (chain (x # y # order)) = insert x (dom (chain (y # order)))"
  unfolding chain_step by (rule dom_fun_upd [THEN trans]) simp

lemma chain_dom: "dom (chain order) = set order"
proof (induction order rule: chain.induct)
  case (2 x)
  show ?case unfolding chain_one by (rule dom_fun_upd [THEN trans]) simp
next
  case (3 x y order)
  then show ?case unfolding dom_chain_step by simp
qed simp

lemma chain_target: "chain order n = Some m \<Longrightarrow> m = END \<or> m \<in> set order"
  by (induction order rule: chain.induct) (auto split: if_splits)

lemma pipeline_nodes_append:
  assumes "proper_stages nodes xs" "\<forall>n \<in> set xs. b_nodes b n = None"
  shows "pipeline_nodes nodes (xs @ ys) b = pipeline_nodes nodes ys
    (b\<lparr>b_nodes := (\<lambda>n. if n \<in> set xs then the (nodes n) else b_nodes b n)\<rparr>)"
  using assms
proof (induction xs arbitrary: b)
  case Nil
  then show ?case by simp
next
  case (Cons n xs)
  then obtain f where f: "nodes n = Some (Some f)" "n \<notin> {'''', START, END}" "n \<notin> set xs"
    by (auto simp: proper_stages_def)
  let ?b = "b\<lparr>b_nodes := (b_nodes b)(n \<mapsto> f)\<rparr>"
  have "proper_stages nodes xs" using Cons.prems(1) by (simp add: proper_stages_def)
  moreover have "\<forall>m \<in> set xs. b_nodes ?b m = None" using Cons.prems(2) f(3) by auto
  ultimately have "pipeline_nodes nodes (xs @ ys) ?b = pipeline_nodes nodes ys
      (?b\<lparr>b_nodes := (\<lambda>m. if m \<in> set xs then the (nodes m) else b_nodes ?b m)\<rparr>)"
    by (rule Cons.IH)
  moreover have "(\<lambda>m. if m \<in> set xs then the (nodes m) else b_nodes ?b m)
      = (\<lambda>m. if m \<in> set (n # xs) then the (nodes m) else b_nodes b m)"
    using f by (auto simp: fun_eq_iff)
  ultimately show ?case using f Cons.prems(2) by (simp add: AddNode_def)
qed

lemma pipeline_nodes_proper:
  assumes "proper_stages nodes order" "\<forall>n \<in> set order. b_nodes b n = None"
  shows "pipeline_nodes nodes order b
    = Inr (Inr (b\<lparr>b_nodes := (\<lambda>n. if n \<in> set order then the (nodes n) else b_nodes b n)\<rparr>))"
  using pipeline_nodes_append [OF assms, of "[]"] by simp

lemma pipeline_edges_chain:
  "distinct order \<Longrightarrow> b_routes b = Map.empty \<Longrightarrow> (\<forall>n \<in> set order. b_edges b n = None) \<Longrightarrow>
    pipeline_edges order b = Inr (b\<lparr>b_edges := b_edges b ++ chain order\<rparr>)"
proof (induction order b rule: pipeline_edges.induct)
  case (3 x y order b)
  let ?b = "b\<lparr>b_edges := (b_edges b)(x \<mapsto> y)\<rparr>"
  have "pipeline_edges (y # order) ?b = Inr (?b\<lparr>b_edges := b_edges ?b ++ chain (y # order)\<rparr>)"
    by (rule 3(1)) (use 3(2-4) in \<open>auto simp: AddEdge_def\<close>)
  moreover have "(b_edges b)(x \<mapsto> y) ++ chain (y # order) = b_edges b ++ chain (x # y # order)"
    using 3(2) chain_dom [of "y # order"] by (auto simp: fun_eq_iff map_add_def split: option.splits)
  ultimately show ?case using 3(3) by (simp add: AddEdge_def del: chain.simps map_add_upd)
next
  case (2 x b)
  then have "pipeline_edges [x] b = Inr (b\<lparr>b_edges := b_edges b ++ [x \<mapsto> END]\<rparr>)"
    by (simp add: AddEdge_def)
  then show ?case unfolding chain_one .
qed simp

definition pipeline_builder ::
  "(string \<Rightarrow> ('s, 'u) NodeFunc option option) \<Rightarrow> string list \<Rightarrow> ('s, 'u) Builder" where
  "pipeline_builder nodes order =
     \<lparr>b_nodes = (\<lambda>n. if n \<in> set order then the (nodes n) else None), b_edges = chain order,
      b_routes = Map.empty, b_reducers = Map.empty, b_entry = hd order\<rparr>"

lemma Pipeline_builds:
  assumes "proper_stages nodes order" "order \<noteq> []"
  shows "Pipeline nodes order opts es rs = Inr (Compile opts es rs (pipeline_builder nodes order))"
proof -
  have n: "pipeline_nodes nodes order NewBuilder
      = Inr (Inr (NewBuilder\<lparr>b_nodes := (\<lambda>n. if n \<in> set order then the (nodes n) else None)\<rparr>))"
  proof -
    have none: "b_nodes NewBuilder m = None" for m :: string by (simp add: NewBuilder_def)
    show ?thesis using pipeline_nodes_proper [OF assms(1), of NewBuilder] unfolding none by simp
  qed
  let ?b = "NewBuilder\<lparr>b_nodes := (\<lambda>n. if n \<in> set order then the (nodes n) else None), b_entry := hd order\<rparr>"
  have "pipeline_edges order ?b = Inr (?b\<lparr>b_edges := b_edges ?b ++ chain order\<rparr>)"
    using assms(1) by (intro pipeline_edges_chain) (auto simp: proper_stages_def NewBuilder_def)
  then show ?thesis
    using assms(2) n
    by (simp add: Pipeline_def SetEntry_def pipeline_builder_def) (simp add: NewBuilder_def)
qed

lemma pipeline_valid:
  assumes "proper_stages nodes order" "order \<noteq> []"
  shows "valid_topology (pipeline_builder nodes order)"
proof -
  have st: "n \<noteq> ''''" "the (nodes n) \<noteq> None" if "n \<in> set order" for n
    using assms(1) that by (auto simp: proper_stages_def)
  have "hd order \<in> set order" using assms(2) by simp
  moreover have "from \<in> set order" "to = END \<or> to \<in> set order" if "chain order from = Some to" for "from" to
    using that chain_dom [of order] chain_target [OF that] by auto
  ultimately show ?thesis using st by (auto simp: valid_topology_def pipeline_builder_def)
qed

section \<open>What it runs\<close>

text \<open>The state after the stages in order, each by its plan.\<close>

definition stages_result :: "(string \<Rightarrow> (State \<Rightarrow> Update) option) \<Rightarrow> string list \<Rightarrow> State \<Rightarrow> State" where
  "stages_result plan order s = foldl (\<lambda>s n. Apply s (the (plan n) s) Map.empty) s order"

lemma chain_walk:
  assumes "distinct (xs @ order)" "order \<noteq> []" "g_edges g = chain (xs @ order)" "g_routes g = Map.empty"
    and "g_reducers g = Map.empty" "\<forall>n \<in> set order. n \<notin> {'''', END} \<and> plan n \<noteq> None"
  shows "walk g plan (length order) (hd order) s = Some (END, stages_result plan order s)"
  using assms
proof (induction order arbitrary: xs s)
  case (Cons x order)
  obtain f where f: "plan x = Some f" "x \<notin> {'''', END}" using Cons.prems(6) by auto
  have split: "chain (ys @ x # order) x = Some (case order of [] \<Rightarrow> END | y # _ \<Rightarrow> y)"
    if "distinct (ys @ x # order)" for ys
    using that by (induction ys rule: chain.induct) (auto split: list.splits)
  have nx: "next_node g c x t = Inr (case order of [] \<Rightarrow> END | y # _ \<Rightarrow> y)" for c t
    using split [OF Cons.prems(1)] Cons.prems(3,4) by (simp add: next_node_def)
  show ?case
  proof (cases order)
    case Nil
    with f nx Cons.prems(5) show ?thesis by (simp add: stages_result_def Let_def)
  next
    case (Cons y ys)
    with Cons.prems have "walk g plan (length order) (hd order) (Apply s (f s) Map.empty)
        = Some (END, stages_result plan order (Apply s (f s) Map.empty))"
      by (intro Cons.IH [of "xs @ [x]"]) auto
    with f nx Cons.prems(5) Cons show ?thesis by (simp add: stages_result_def Let_def)
  qed
qed simp

section \<open>The property\<close>

lemma no_nodes [simp]: "b_nodes NewBuilder n = None"
  by (simp add: NewBuilder_def)

lemma Pipeline_missing:
  assumes "nodes n = None" "proper_stages nodes xs"
  shows "Pipeline nodes (xs @ n # ys) opts es rs
    = Inr (Inl (Errorf ''orchestrator: missing node %q'' [AStr n]))"
  using pipeline_nodes_append [OF assms(2), of NewBuilder "n # ys"] assms(1) by (simp add: Pipeline_def)

lemma Pipeline_repeated:
  assumes "n \<in> set xs" "proper_stages nodes xs"
  shows "Pipeline nodes (xs @ n # ys) opts es rs = Inl (''graph: duplicate node: '' @ n)"
proof -
  obtain f where "nodes n = Some (Some f)" "n \<notin> {'''', START, END}"
    using assms by (auto simp: proper_stages_def)
  then show ?thesis
    using pipeline_nodes_append [OF assms(2), of NewBuilder "n # ys"] assms(1)
    by (simp add: Pipeline_def AddNode_def)
qed

text \<open>A stage's function computes its planned update.\<close>

definition stages_follow ::
  "(string \<Rightarrow> ('s, 'u) NodeFunc option option) \<Rightarrow> (string \<Rightarrow> (State \<Rightarrow> Update) option) \<Rightarrow> string list \<Rightarrow> bool" where
  "stages_follow nodes plan order \<longleftrightarrow>
     (\<forall>n. if n \<in> set order then \<exists>fn f. nodes n = Some (Some fn) \<and> plan n = Some f \<and> computes fn f
          else plan n = None)"

lemma graph_of_pipeline [simp]:
  "g_nodes (graph_of opts (pipeline_builder nodes order)) = (\<lambda>n. if n \<in> set order then the (nodes n) else None)"
  "g_edges (graph_of opts (pipeline_builder nodes order)) = chain order"
  "g_routes (graph_of opts (pipeline_builder nodes order)) = Map.empty"
  "g_reducers (graph_of opts (pipeline_builder nodes order)) = Map.empty"
  "g_entry (graph_of opts (pipeline_builder nodes order)) = hd order"
  by (simp_all add: graph_of_def pipeline_builder_def Let_def)

lemma pipeline_follows:
  assumes "stages_follow nodes plan order"
  shows "follows_plan (graph_of opts (pipeline_builder nodes order)) plan"
  unfolding follows_plan_def
proof (intro conjI allI)
  fix n
  show "case plan n of None \<Rightarrow> g_nodes (graph_of opts (pipeline_builder nodes order)) n = None
      | Some f \<Rightarrow> \<exists>fn. g_nodes (graph_of opts (pipeline_builder nodes order)) n = Some fn \<and> computes fn f"
    using assms [unfolded stages_follow_def, THEN spec, of n] by (cases "n \<in> set order") auto
qed (simp add: next_node_def)

text \<open>
  C25: A pipeline runs its stages in their order, each exactly once. For an order of distinct
  proper names with a function each, \<open>Pipeline\<close> returns a graph, whatever order \<open>range\<close>
  visits its edges in; compiled with a \<open>Fenced\<close> store (with or without lease), and with
  stages that compute their updates without error, an undisturbed \<open>Invoke\<close> returns the input
  folded through the stages from the first to the last and leaves the thread at the end after
  as many steps as there are stages. An empty order and a name without a function are errors,
  a repeated name is a panic.
\<close>

theorem Pipeline_runs_stages:
  assumes "proper_stages nodes order" "order \<noteq> []" "stages_follow nodes plan order"
    and "range_orders (pipeline_builder nodes order) es rs" "check_options (options_of opts) = None"
    and "graph_of opts (pipeline_builder nodes order) = g" "fenced_uses g"
    and "prepareRun g ropts (w\<lparr>w_sess := None\<rparr>) = (cfg, v)" "rc_runID cfg \<noteq> ''''" "rc_maxSteps cfg \<le> 0"
    and "quiet_handler (handler_of ctx cfg)"
    and "store_ready fenced_known fenced_ok (rc_threadID cfg) N w"
    and "fenced_vacant g (rc_threadID cfg) '''' w"
    and "rng_pos (w_rng v) + length order \<le> N" "int (length order) \<le> max_int64"
  shows "Pipeline nodes order opts es rs = Inr (Inr g)
    \<and> (\<exists>p w'. Invoke g ctx input ropts w = Some (stages_result plan order input, None, w')
        \<and> at_point fenced_latest (rc_threadID cfg) END (stages_result plan order input)
            (int (length order)) p w')
    \<and> (\<exists>e. Pipeline nodes [] opts es rs = Inr (Inl e))
    \<and> (\<forall>xs n ys. nodes n = None \<and> proper_stages nodes xs \<longrightarrow>
        Pipeline nodes (xs @ n # ys) opts es rs
          = Inr (Inl (Errorf ''orchestrator: missing node %q'' [AStr n])))
    \<and> (\<forall>xs n ys. n \<in> set xs \<and> proper_stages nodes xs \<longrightarrow>
        Pipeline nodes (xs @ n # ys) opts es rs = Inl (''graph: duplicate node: '' @ n))"
proof (intro conjI allI impI)
  obtain m where m: "length order = Suc m" using assms(2) by (cases order) auto
  have st: "\<forall>n \<in> set order. n \<notin> {'''', END} \<and> plan n \<noteq> None"
  proof
    fix n assume "n \<in> set order"
    with assms(1) assms(3) [unfolded stages_follow_def, THEN spec, of n]
    show "n \<notin> {'''', END} \<and> plan n \<noteq> None" by (auto simp: proper_stages_def)
  qed
  have "distinct order" using assms(1) by (simp add: proper_stages_def)
  note gs = graph_of_pipeline [of opts nodes order, unfolded assms(6)]
  have "walk g plan (length order) (hd order) input = Some (END, stages_result plan order input)"
    by (rule chain_walk [of "[]", OF _ assms(2) _ _ _ st]) (simp_all only: append_Nil gs \<open>distinct order\<close>)
  then have w: "walk g plan (Suc m) (g_entry g) input = Some (END, stages_result plan order input)"
    unfolding m gs .
  have plan: "follows_plan g plan" using pipeline_follows [OF assms(3)] assms(6) by blast
  have "\<exists>p' w'. Invoke g ctx input ropts w = Some (stages_result plan order input, None, w')
      \<and> fenced_vacant g (rc_threadID cfg) p' w'
      \<and> landed fenced_latest fenced_known fenced_ok (rc_threadID cfg) END (stages_result plan order input)
          (int (Suc m)) N (rng_pos (w_rng v) + Suc m) p' w'"
    by (rule fenced_live.Invoke_ends [OF assms(7) plan fenced_calm_lease [OF assms(7)] w _ assms(8,9,11-13)])
      (use assms(10,14,15) m in simp_all)
  then show "\<exists>p w'. Invoke g ctx input ropts w = Some (stages_result plan order input, None, w')
      \<and> at_point fenced_latest (rc_threadID cfg) END (stages_result plan order input) (int (length order)) p w'"
    by (auto simp: landed_def m)
  show "Pipeline nodes order opts es rs = Inr (Inr g)"
    unfolding Pipeline_builds [OF assms(1,2)]
    using Compile_graph [OF assms(4)] assms(5,6) pipeline_valid [OF assms(1,2)] by blast
qed (simp_all add: Pipeline_def [of _ "[]"] Pipeline_missing Pipeline_repeated)

section \<open>Instance\<close>

text \<open>Two stages, compiled with a \<open>Fenced\<close> store and its lease.\<close>

definition pipe_nodes :: "string \<Rightarrow> (Fenced, unit) NodeFunc option option" where
  "pipe_nodes = [''a'' \<mapsto> Some (pure_node (\<lambda>s. [(''x'', VInt 1)])),
     ''b'' \<mapsto> Some (pure_node (\<lambda>s. [(''y'', at_key s ''x'')]))]"

definition pipe_graph :: "(Fenced, unit) Compiled" where
  "pipe_graph = graph_of [WithDurableCheckpointer Fenced_store, WithExecutionLease Fenced_lease]
     (pipeline_builder pipe_nodes [''a'', ''b''])"

lemma pipe_options:
  "options_of [WithDurableCheckpointer Fenced_store, WithExecutionLease Fenced_lease]
    = \<lparr>cc_checkpointer = None, cc_durable = Some Fenced_store, cc_lease = Some Fenced_lease,
       cc_leaseTTL = 0, cc_leaseReleaseTimeout = 0\<rparr>"
  by (simp add: options_of_def WithDurableCheckpointer_def WithExecutionLease_def)

lemma prepareRun_ttl:
  assumes "g_leaseTTL g = g_leaseTTL h"
  shows "prepareRun g opts w = prepareRun h opts w"
  unfolding prepareRun_def assms by (rule refl)

theorem Pipeline_runs_stages_witness:
  "Pipeline pipe_nodes [''a'', ''b''] [WithDurableCheckpointer Fenced_store, WithExecutionLease Fenced_lease]
      [(''a'', ''b''), (''b'', END)] [] = Inr (Inr pipe_graph)
    \<and> (\<exists>p w'. Invoke pipe_graph Background Map.empty [] fenced_world = Some (two_result, None, w')
        \<and> at_point fenced_latest ''default'' END two_result 2 p w')"
proof -
  obtain rid v where p0: "prepareRun (leased two_step) [] (fenced_world\<lparr>w_sess := None\<rparr>) = (plain_config 0 rid, v)"
    and p: "rid \<noteq> ''''" "rng_pos (w_rng v) = 1" by (rule fenced_world_prepare)
  have "g_leaseTTL pipe_graph = g_leaseTTL (leased two_step :: (Fenced, unit) Compiled)"
    by (simp add: pipe_graph_def graph_of_def pipe_options Let_def)
  from p0 [folded prepareRun_ttl [OF this]]
  have p1: "prepareRun pipe_graph [] (fenced_world\<lparr>w_sess := None\<rparr>) = (plain_config 0 rid, v)" .
  have s: "proper_stages pipe_nodes [''a'', ''b'']" "stages_follow pipe_nodes two_plan [''a'', ''b'']"
    by (simp_all add: proper_stages_def pipe_nodes_def stages_follow_def two_plan_def
        computes_pure_node)
  have r: "range_orders (pipeline_builder pipe_nodes [''a'', ''b'']) [(''a'', ''b''), (''b'', END)] []"
    by (simp add: range_orders_def pipeline_builder_def is_range_def fun_eq_iff)
  have o: "check_options (options_of [WithDurableCheckpointer Fenced_store, WithExecutionLease Fenced_lease]) = None"
    unfolding check_options_def pipe_options by (simp add: Fenced_store_def)
  have u: "fenced_uses pipe_graph"
    by (simp add: fenced_uses_def pipe_graph_def graph_of_def pipe_options Let_def)
  have v: "fenced_vacant pipe_graph ''default'' '''' fenced_world"
    using fenced_world_ready(2) [of pipe_graph] by (simp add: fenced_vacant_def)
  have t: "stages_result two_plan [''a'', ''b''] Map.empty = two_result"
    by (simp add: stages_result_def two_plan_def two_result_def at_key_def)
  from Pipeline_runs_stages [OF s(1) _ s(2) r o pipe_graph_def [symmetric] u p1, of Background 256 Map.empty]
    p v fenced_world_ready(1) t
  show ?thesis by (simp add: max_int64_def)
qed

end
