(* ===== verification/Decimals.thy ===== *)
theory Decimals
  imports Runtime Strings "HOL-Library.Log_Nat" "HOL-Library.Char_ord" "HOL-Library.List_Lexorder"
begin

text \<open>
  What the module uses of Go's \<^verbatim>\<open>strconv\<close> and \<^verbatim>\<open>fmt\<close>: integers in decimal, IEEE double
  precision numbers read from and written as decimals, and \<open>fmt.Sprint\<close> of dynamic values. A
  \<open>float64\<close> is the rational it denotes; there is one zero, and infinities and NaN do not
  occur (JSON has none).
\<close>

section \<open>Integers\<close>

fun dec_nat :: "nat \<Rightarrow> string" where
  "dec_nat n = (if n < 10 then [hex_digit n] else dec_nat (n div 10) @ [hex_digit (n mod 10)])"

declare dec_nat.simps [simp del]

definition dec_int :: "int \<Rightarrow> string" where
  "dec_int i = (if i < 0 then CHR ''-'' # dec_nat (nat (- i)) else dec_nat (nat i))"

definition is_digit :: "char \<Rightarrow> bool" where
  "is_digit c = (let n = of_char c :: nat in 48 \<le> n \<and> n \<le> 57)"

definition nat_of_dec :: "string \<Rightarrow> nat" where
  "nat_of_dec ds = foldl (\<lambda>n c. 10 * n + (of_char c - 48)) 0 ds"

lemma digit_char: "n < 10 \<Longrightarrow> of_char (hex_digit n) = 48 + n"
proof -
  assume "n < 10"
  then have "n \<in> {0, 1, 2, 3, 4, 5, 6, 7, 8, 9}" by auto
  then show ?thesis by (auto simp: hex_digit_def)
qed

lemma digit_facts:
  assumes "n < 10"
  shows "is_digit (hex_digit n)" "of_char (hex_digit n) - 48 = (n :: nat)"
  using digit_char [OF assms] assms by (simp_all add: is_digit_def)

lemma dec_nat_digits: "\<forall>c \<in> set (dec_nat n). is_digit c"
  by (induction n rule: dec_nat.induct) (subst dec_nat.simps, auto simp: digit_facts)

lemma dec_nat_nonempty [simp]: "dec_nat n \<noteq> []"
  by (subst dec_nat.simps) simp

lemma nat_of_dec_append: "nat_of_dec (xs @ [c]) = 10 * nat_of_dec xs + (of_char c - 48)"
  by (simp add: nat_of_dec_def)

lemma nat_of_dec_nat [simp]: "nat_of_dec (dec_nat n) = n"
proof (induction n rule: dec_nat.induct)
  case (1 n)
  show ?case
  proof (cases "n < 10")
    case True
    then show ?thesis using digit_facts(2) [of n] by (subst dec_nat.simps) (simp add: nat_of_dec_def)
  next
    case False
    then have "nat_of_dec (dec_nat n) = 10 * (n div 10) + n mod 10"
      using 1 digit_facts(2) [of "n mod 10"] by (subst dec_nat.simps) (simp add: nat_of_dec_append)
    then show ?thesis by simp
  qed
qed

text \<open>A number of more than one digit does not start with a zero.\<close>

lemma dec_nat_hd: "hd (dec_nat n) = CHR ''0'' \<longleftrightarrow> n = 0"
proof (induction n rule: dec_nat.induct)
  case (1 n)
  show ?case
  proof (cases "n < 10")
    case True
    then have "n \<in> {0, 1, 2, 3, 4, 5, 6, 7, 8, 9}" by auto
    then show ?thesis by (subst dec_nat.simps) (auto simp: hex_digit_def)
  next
    case False
    then show ?thesis using 1 by (subst dec_nat.simps) (simp add: hd_append)
  qed
qed

lemma dec_nat_zero: "dec_nat 0 = ''0''"
  by (simp add: dec_nat.simps hex_digit_def)

section \<open>Double precision\<close>

definition pow2 :: "int \<Rightarrow> rat" where
  "pow2 e = (if 0 \<le> e then 2 ^ nat e else 1 / 2 ^ nat (- e))"

definition pow10 :: "int \<Rightarrow> rat" where
  "pow10 e = (if 0 \<le> e then 10 ^ nat e else 1 / 10 ^ nat (- e))"

text \<open>To the nearest integer, halves to the even one.\<close>

definition round_even :: "rat \<Rightarrow> int" where
  "round_even x =
     (let f = \<lfloor>x\<rfloor>; r = x - of_int f
      in if r < 1 / 2 \<or> r = 1 / 2 \<and> even f then f else f + 1)"

text \<open>The binary exponent of a positive number.\<close>

definition bit_exp :: "rat \<Rightarrow> int" where
  "bit_exp x =
     (let (n, d) = quotient_of x; e = bitlen n - bitlen d
      in if pow2 e \<le> x then e else e - 1)"

text \<open>The nearest \<open>float64\<close>, or nothing when the number is out of range.\<close>

definition round64 :: "rat \<Rightarrow> rat option" where
  "round64 x =
     (if x = 0 then Some 0
      else (let a = \<bar>x\<bar>; e = max (bit_exp a - 52) (- 1074);
                y = of_int (round_even (a / pow2 e)) * pow2 e
            in if y \<ge> 2 ^ 1024 then None else Some (if x < 0 then - y else y)))"

lemma round_even_int: "round_even (of_int k) = k"
  by (simp add: round_even_def)

lemma round64_exact:
  assumes "of_int (round_even (\<bar>x\<bar> / pow2 (max (bit_exp \<bar>x\<bar> - 52) (- 1074))))
      * pow2 (max (bit_exp \<bar>x\<bar> - 52) (- 1074)) = \<bar>x\<bar>" "\<not> \<bar>x\<bar> \<ge> 2 ^ 1024" "x \<noteq> 0"
  shows "round64 x = Some x"
  unfolding round64_def Let_def assms(1) using assms(2,3) by simp

text \<open>Integers of at most 53 bits are numbers of double precision.\<close>

lemma round64_int:
  assumes "\<bar>n\<bar> \<le> 2 ^ 53"
  shows "round64 (of_int n) = Some (of_int n)"
proof (cases "n = 0")
  case False
  let ?a = "\<bar>n\<bar>" and ?x = "\<bar>of_int n :: rat\<bar>"
  have a: "?x = of_int ?a" by simp
  have q: "quotient_of ?x = (?a, 1)" unfolding a by (rule quotient_of_rat_of_int)
  have one: "bitlen 1 = 1" by (simp add: bitlen_def floorlog_def)
  have be: "bit_exp ?x \<le> bitlen ?a - 1"
    unfolding bit_exp_def q by (simp add: Let_def one)
  let ?e = "max (bit_exp ?x - 52) (- 1074)"
  have "\<exists>k. ?x = of_int k * pow2 ?e"
  proof (cases "?a = 2 ^ 53")
    case True
    then have "bitlen ?a \<le> 54" by (simp add: bitlen_le_iff_power)
    with be have "?e \<le> 1" by simp
    then consider "?e = 1" | "?e \<le> 0" by linarith
    then show ?thesis
    proof cases
      case 1
      have "?x = of_int (2 ^ 52) * pow2 1" unfolding a True by (simp add: pow2_def)
      with 1 show ?thesis by metis
    next
      case 2
      then have "?x = of_int (?a * 2 ^ nat (- ?e)) * pow2 ?e" by (auto simp: pow2_def)
      then show ?thesis by metis
    qed
  next
    case False
    with assms have "?a < 2 ^ 53" by linarith
    then have "bitlen ?a \<le> 53" using \<open>n \<noteq> 0\<close> by (simp add: bitlen_le_iff_power)
    with be have "?e \<le> 0" by simp
    then have "?x = of_int (?a * 2 ^ nat (- ?e)) * pow2 ?e" by (auto simp: pow2_def)
    then show ?thesis by metis
  qed
  then obtain k where k: "?x = of_int k * pow2 ?e" ..
  have "pow2 ?e \<noteq> 0" by (simp add: pow2_def)
  have "?x / pow2 ?e = of_int k" unfolding nonzero_divide_eq_eq [OF \<open>pow2 ?e \<noteq> 0\<close>] by (rule k)
  then have r: "round_even (?x / pow2 ?e) = k" by (simp only: round_even_int)
  have lt: "\<not> ?x \<ge> 2 ^ 1024"
  proof -
    have "?x \<le> of_int (2 ^ 53)" unfolding a using assms by (simp only: of_int_le_iff)
    also have "\<dots> < (2 :: rat) ^ 1024" by simp
    finally show ?thesis by simp
  qed
  have "of_int (round_even (?x / pow2 ?e)) * pow2 ?e = ?x" unfolding r by (rule k [symmetric])
  from round64_exact [OF this] lt False show ?thesis by simp
qed (simp add: round64_def)

section \<open>Number literals\<close>

text \<open>
  The number at the start of a text, by the grammar of JSON: a sign, an integer part without
  leading zeros, a fraction and an exponent. The answer is the literal and what follows it.
\<close>

definition int_part :: "string \<Rightarrow> string" where
  "int_part s = (case s of c # t \<Rightarrow> if c = CHR ''0'' then ''0'' else takeWhile is_digit s | [] \<Rightarrow> [])"

definition frac_part :: "string \<Rightarrow> string option" where
  "frac_part s =
     (case s of
        c # t \<Rightarrow> if c = CHR ''.'' then (let ds = takeWhile is_digit t in if ds = [] then None else Some (c # ds))
                else Some []
      | [] \<Rightarrow> Some [])"

definition exp_part :: "string \<Rightarrow> string option" where
  "exp_part s =
     (case s of
        c # t \<Rightarrow>
          if c \<in> {CHR ''e'', CHR ''E''}
          then (let sg = (case t of d # u \<Rightarrow> if d \<in> {CHR ''+'', CHR ''-''} then [d] else [] | [] \<Rightarrow> []);
                    ds = takeWhile is_digit (drop (length sg) t)
                in if ds = [] then None else Some (c # sg @ ds))
          else Some []
      | [] \<Rightarrow> Some [])"

definition scan_number :: "string \<Rightarrow> (string \<times> string) option" where
  "scan_number s =
     (let sg = (case s of c # t \<Rightarrow> if c = CHR ''-'' then [c] else [] | [] \<Rightarrow> []);
          s1 = drop (length sg) s; ip = int_part s1; s2 = drop (length ip) s1
      in if ip = [] then None
         else (case frac_part s2 of
                 None \<Rightarrow> None
               | Some fp \<Rightarrow>
                   (case exp_part (drop (length fp) s2) of
                      None \<Rightarrow> None
                    | Some ep \<Rightarrow> Some (sg @ ip @ fp @ ep, drop (length ep) (drop (length fp) s2)))))"

text \<open>The number a literal denotes.\<close>

definition literal_value :: "string \<Rightarrow> rat" where
  "literal_value l =
     (let neg = (l \<noteq> [] \<and> hd l = CHR ''-''); s = (if neg then tl l else l);
          ip = takeWhile is_digit s; s2 = drop (length ip) s;
          fp = (if s2 \<noteq> [] \<and> hd s2 = CHR ''.'' then takeWhile is_digit (tl s2) else []);
          s3 = (if fp = [] then s2 else drop (Suc (length fp)) s2);
          e = (case s3 of [] \<Rightarrow> 0
               | c # t \<Rightarrow> (if t \<noteq> [] \<and> hd t = CHR ''-'' then - int (nat_of_dec (tl t))
                           else if t \<noteq> [] \<and> hd t = CHR ''+'' then int (nat_of_dec (tl t))
                           else int (nat_of_dec t)));
          v = of_nat (nat_of_dec (ip @ fp)) * pow10 (e - int (length fp))
      in if neg then - v else v)"

text \<open>\<open>strconv.ParseFloat\<close> on a JSON number.\<close>

definition ParseFloat :: "string \<Rightarrow> rat option" where
  "ParseFloat l = round64 (literal_value l)"

lemma takeWhile_dec [simp]: "takeWhile is_digit (dec_nat n) = dec_nat n"
  using dec_nat_digits by (simp add: takeWhile_eq_all_conv)

lemma literal_value_dec: "literal_value (dec_int i) = of_int i"
proof -
  have n: "dec_nat n \<noteq> []" "hd (dec_nat n) \<noteq> CHR ''-''" for n
    using dec_nat_digits [of n] by (cases "dec_nat n"; auto simp: is_digit_def)+
  show ?thesis
    unfolding literal_value_def dec_int_def by (auto simp: Let_def n pow10_def)
qed

lemma ParseFloat_dec: "\<bar>i\<bar> \<le> 2 ^ 53 \<Longrightarrow> ParseFloat (dec_int i) = Some (of_int i)"
  by (simp add: ParseFloat_def literal_value_dec round64_int)

text \<open>A decimal integer is one literal.\<close>

lemma scan_number_dec:
  assumes "rest = [] \<or> \<not> is_digit (hd rest) \<and> hd rest \<notin> {CHR ''.'', CHR ''e'', CHR ''E''}"
  shows "scan_number (dec_int i @ rest) = Some (dec_int i, rest)"
proof -
  have rest: "frac_part rest = Some []" "exp_part rest = Some []" "takeWhile is_digit rest = []"
    using assms by (cases rest; auto simp: frac_part_def exp_part_def)+
  have ip: "int_part (dec_nat n @ rest) = dec_nat n" for n
  proof (cases "n = 0")
    case True
    then show ?thesis by (simp add: dec_nat_zero int_part_def)
  next
    case False
    obtain c t where c: "dec_nat n = c # t" by (cases "dec_nat n") auto
    with False dec_nat_hd [of n] have "c \<noteq> CHR ''0''" by simp
    moreover have "takeWhile is_digit (dec_nat n @ rest) = dec_nat n"
      using dec_nat_digits [of n] rest(3) by (simp add: takeWhile_append2)
    ultimately show ?thesis by (simp add: int_part_def c)
  qed
  have sg: "(case dec_nat n @ rest of c # t \<Rightarrow> if c = CHR ''-'' then [c] else [] | [] \<Rightarrow> []) = []" for n
    using dec_nat_digits [of n] by (cases "dec_nat n") (auto simp: is_digit_def)
  show ?thesis
    using rest ip sg unfolding scan_number_def dec_int_def Let_def by simp
qed

section \<open>Formatting numbers\<close>

text \<open>The decimal exponent of a positive number.\<close>

definition dec_exp :: "rat \<Rightarrow> int" where
  "dec_exp x =
     (if x \<ge> 1 then int (length (dec_nat (nat \<lfloor>x\<rfloor>))) - 1
      else (case List.find (\<lambda>k. x * 10 ^ k \<ge> 1) [1..<400] of Some k \<Rightarrow> - int k | None \<Rightarrow> - 400))"

text \<open>
  The shortest decimal that is read back as the same number: for the least number of digits
  for which there is one, the nearer of the two candidates, as an integer and a power of ten.
\<close>

definition candidates :: "rat \<Rightarrow> nat \<Rightarrow> (nat \<times> int) list" where
  "candidates x d =
     (let k = dec_exp x - int d + 1; lo = nat \<lfloor>x / pow10 k\<rfloor>
      in filter (\<lambda>(n, k). round64 (of_nat n * pow10 k) = Some x)
           (if x / pow10 k - of_nat lo \<le> 1 / 2 then [(lo, k), (Suc lo, k)] else [(Suc lo, k), (lo, k)]))"

definition shortest :: "rat \<Rightarrow> nat \<times> int" where
  "shortest x =
     (case List.find (\<lambda>d. candidates x d \<noteq> []) [1..<18] of
        Some d \<Rightarrow> hd (candidates x d)
      | None \<Rightarrow> (0, 0))"

text \<open>Its digits without trailing zeros, and the position of the decimal point in them.\<close>

definition decimal :: "rat \<Rightarrow> string \<times> int" where
  "decimal x =
     (let (n, k) = shortest x; ds = dec_nat n
      in (rev (dropWhile (\<lambda>c. c = CHR ''0'') (rev ds)), int (length ds) + k))"

definition fixed_text :: "string \<Rightarrow> int \<Rightarrow> string" where
  "fixed_text ds dp =
     (if dp \<le> 0 then ''0.'' @ replicate (nat (- dp)) (CHR ''0'') @ ds
      else if dp \<ge> int (length ds) then ds @ replicate (nat (dp - int (length ds))) (CHR ''0'')
      else take (nat dp) ds @ ''.'' @ drop (nat dp) ds)"

definition exp_text :: "nat \<Rightarrow> string \<Rightarrow> int \<Rightarrow> string" where
  "exp_text width ds dp =
     (let e = dp - 1; es = dec_nat (nat \<bar>e\<bar>)
      in hd ds # (if tl ds = [] then [] else ''.'' @ tl ds) @ ''e'' @ (if e < 0 then ''-'' else ''+'')
           @ replicate (width - length es) (CHR ''0'') @ es)"

text \<open>\<open>%v\<close> of a \<open>float64\<close>, which is \<open>%g\<close> with the shortest precision.\<close>

definition float_v :: "rat \<Rightarrow> string" where
  "float_v x =
     (if x = 0 then ''0''
      else (let (ds, dp) = decimal \<bar>x\<bar>
            in (if x < 0 then ''-'' else []) @
               (if dp - 1 < - 4 \<or> dp - 1 \<ge> 6 then exp_text 2 ds dp else fixed_text ds dp)))"

section \<open>Sprint\<close>

text \<open>
  \<open>fmt.Sprint\<close> of one value, which is \<open>%v\<close>. A map is printed with its keys in order. The text
  of a value of a type the module does not name is the parameter \<open>other\<close>.
\<close>

primrec Sprint :: "(string \<Rightarrow> string) \<Rightarrow> gval \<Rightarrow> string" where
  "Sprint other VNil = ''<nil>''"
| "Sprint other (VBool b) = (if b then ''true'' else ''false'')"
| "Sprint other (VInt i) = dec_int i"
| "Sprint other (VInt64 i) = dec_int i"
| "Sprint other (VFloat64 x) = float_v x"
| "Sprint other (VString s) = s"
| "Sprint other VNilSlice = ''[]''"
| "Sprint other (VSlice vs) = ''['' @ Join (map (Sprint other) vs) '' '' @ '']''"
| "Sprint other VNilMap = ''map[]''"
| "Sprint other (VMap m) =
     (let t = (\<lambda>k. map_option (Sprint other) (m k))
      in ''map['' @ Join (map (\<lambda>k. k @ '':'' @ the (t k)) (sorted_list_of_set (dom t))) '' '' @ '']'')"
| "Sprint other (VHandoff h) = ''{'' @ h_From h @ '' '' @ h_To h @ '' '' @ h_Reason h @ '' '' @ h_Task h @ ''}''"
| "Sprint other (VOther t) = other t"

end
