(* ===== verification/Json.thy ===== *)
theory Json
  imports Decimals
begin

text \<open>
  What the module uses of Go's \<^verbatim>\<open>encoding/json\<close>: \<open>Marshal\<close> and \<open>Unmarshal\<close> of dynamic
  values. Checkpoints and agent sessions go through it, so the last part says what a value is
  after a round trip: integers come back as \<open>float64\<close>, records as maps, everything else as it
  was.
\<close>

section \<open>UTF-8\<close>

text \<open>
  The ranges of the bytes that follow a first byte, by the table of \<^verbatim>\<open>unicode/utf8\<close>; nothing
  for a byte that starts no rune.
\<close>

definition next_bytes :: "nat \<Rightarrow> (nat \<times> nat) list option" where
  "next_bytes x =
     (if x < 0x80 then Some []
      else if 0xC2 \<le> x \<and> x \<le> 0xDF then Some [(0x80, 0xBF)]
      else if x = 0xE0 then Some [(0xA0, 0xBF), (0x80, 0xBF)]
      else if x = 0xED then Some [(0x80, 0x9F), (0x80, 0xBF)]
      else if 0xE1 \<le> x \<and> x \<le> 0xEF then Some [(0x80, 0xBF), (0x80, 0xBF)]
      else if x = 0xF0 then Some [(0x90, 0xBF), (0x80, 0xBF), (0x80, 0xBF)]
      else if 0xF1 \<le> x \<and> x \<le> 0xF3 then Some [(0x80, 0xBF), (0x80, 0xBF), (0x80, 0xBF)]
      else if x = 0xF4 then Some [(0x80, 0x8F), (0x80, 0xBF), (0x80, 0xBF)]
      else None)"

fun starts_within :: "(nat \<times> nat) list \<Rightarrow> string \<Rightarrow> bool" where
  "starts_within [] s = True"
| "starts_within ((lo, hi) # rs) [] = False"
| "starts_within ((lo, hi) # rs) (c # s) = (lo \<le> of_char c \<and> of_char c \<le> hi \<and> starts_within rs s)"

text \<open>The length of the rune at the start of \<open>a # t\<close>; 0 when the bytes are not valid.\<close>

definition rune_len :: "char \<Rightarrow> string \<Rightarrow> nat" where
  "rune_len a t =
     (case next_bytes (of_char a) of
        None \<Rightarrow> 0
      | Some rs \<Rightarrow> if starts_within rs t then Suc (length rs) else 0)"

text \<open>A string cut into its runes; an invalid byte stands alone.\<close>

fun runes :: "string \<Rightarrow> string list" where
  "runes [] = []"
| "runes (a # t) = (let n = rune_len a t - 1 in (a # take n t) # runes (drop n t))"

declare runes.simps(2) [simp del]

text \<open>\<open>utf8.ValidString\<close>.\<close>

function valid_utf8 :: "string \<Rightarrow> bool" where
  "valid_utf8 [] = True"
| "valid_utf8 (a # t) = (rune_len a t \<noteq> 0 \<and> valid_utf8 (drop (rune_len a t - 1) t))"
  by pat_completeness auto
termination by (relation "measure length") auto

declare valid_utf8.simps(2) [simp del]

definition utf8_encode :: "nat \<Rightarrow> string" where
  "utf8_encode r =
     (if r < 0x80 then [char_of r]
      else if r < 0x800 then [char_of (0xC0 + r div 0x40), char_of (0x80 + r mod 0x40)]
      else if r < 0x10000
      then [char_of (0xE0 + r div 0x1000), char_of (0x80 + r div 0x40 mod 0x40), char_of (0x80 + r mod 0x40)]
      else [char_of (0xF0 + r div 0x40000), char_of (0x80 + r div 0x1000 mod 0x40),
            char_of (0x80 + r div 0x40 mod 0x40), char_of (0x80 + r mod 0x40)])"

abbreviation replacement_rune :: string where
  "replacement_rune \<equiv> [CHR 0xEF, CHR 0xBF, CHR 0xBD]"

section \<open>Strings\<close>

text \<open>One rune as \<open>Marshal\<close> writes it, with HTML escaping.\<close>

definition escape :: "string \<Rightarrow> string" where
  "escape r =
     (case r of
        [c] \<Rightarrow>
          (let n = of_char c :: nat
           in if c = CHR 0x5C \<or> c = CHR 0x22 then [CHR 0x5C, c]
              else if n = 8 then CHR 0x5C # ''b'' else if n = 12 then CHR 0x5C # ''f''
              else if n = 10 then CHR 0x5C # ''n'' else if n = 13 then CHR 0x5C # ''r''
              else if n = 9 then CHR 0x5C # ''t''
              else if n < 32 \<or> c \<in> {CHR ''<'', CHR ''>'', CHR ''&''}
              then CHR 0x5C # ''u00'' @ [hex_digit (n div 16), hex_digit (n mod 16)]
              else if n \<ge> 128 then CHR 0x5C # ''ufffd''
              else [c])
      | _ \<Rightarrow> if r = [CHR 0xE2, CHR 0x80, CHR 0xA8] then CHR 0x5C # ''u2028''
             else if r = [CHR 0xE2, CHR 0x80, CHR 0xA9] then CHR 0x5C # ''u2029''
             else r)"

definition json_string :: "string \<Rightarrow> string" where
  "json_string s = CHR 0x22 # concat (map escape (runes s)) @ [CHR 0x22]"

definition hex_value :: "char \<Rightarrow> nat option" where
  "hex_value c =
     (let n = of_char c :: nat
      in if 48 \<le> n \<and> n \<le> 57 then Some (n - 48)
         else if 97 \<le> n \<and> n \<le> 102 then Some (n - 87)
         else if 65 \<le> n \<and> n \<le> 70 then Some (n - 55)
         else None)"

text \<open>Four hex digits.\<close>

definition hex4 :: "string \<Rightarrow> nat option" where
  "hex4 s =
     (case s of
        a # b # c # d # t \<Rightarrow>
          (case (hex_value a, hex_value b, hex_value c, hex_value d) of
             (Some w, Some x, Some y, Some z) \<Rightarrow> Some (((w * 16 + x) * 16 + y) * 16 + z)
           | _ \<Rightarrow> None)
      | _ \<Rightarrow> None)"

text \<open>A second escape that completes the surrogate \<open>h\<close> to a rune.\<close>

definition surrogate_pair :: "nat \<Rightarrow> string \<Rightarrow> nat option" where
  "surrogate_pair h s =
     (case s of
        a # b # t \<Rightarrow>
          if a = CHR 0x5C \<and> b = CHR ''u'' \<and> h < 0xDC00
          then (case hex4 t of
                  Some l \<Rightarrow> if 0xDC00 \<le> l \<and> l < 0xE000
                            then Some (0x10000 + (h - 0xD800) * 0x400 + (l - 0xDC00)) else None
                | None \<Rightarrow> None)
          else None
      | _ \<Rightarrow> None)"

definition unescape :: "char \<Rightarrow> char option" where
  "unescape e =
     (if e = CHR 0x22 \<or> e = CHR 0x5C \<or> e = CHR ''/'' then Some e
      else if e = CHR ''b'' then Some (CHR 0x08) else if e = CHR ''f'' then Some (CHR 0x0C)
      else if e = CHR ''n'' then Some (CHR 0x0A) else if e = CHR ''r'' then Some (CHR 0x0D)
      else if e = CHR ''t'' then Some (CHR 0x09) else None)"

abbreviation put_front :: "string \<Rightarrow> (string \<times> string) option \<Rightarrow> (string \<times> string) option" where
  "put_front xs r \<equiv> map_option (\<lambda>(s, rest). (xs @ s, rest)) r"

text \<open>The rest of a string literal after its opening quote: the string and what follows it.\<close>

fun string_body :: "string \<Rightarrow> (string \<times> string) option" where
  "string_body [] = None"
| "string_body (c # s) =
     (if c = CHR 0x22 then Some ([], s)
      else if c = CHR 0x5C then
        (case s of
           [] \<Rightarrow> None
         | e # t \<Rightarrow>
             if e = CHR ''u'' then
               (case hex4 t of
                  None \<Rightarrow> None
                | Some h \<Rightarrow>
                    if 0xD800 \<le> h \<and> h < 0xE000
                    then (case surrogate_pair h (drop 4 t) of
                            Some r \<Rightarrow> put_front (utf8_encode r) (string_body (drop 10 t))
                          | None \<Rightarrow> put_front replacement_rune (string_body (drop 4 t)))
                    else put_front (utf8_encode h) (string_body (drop 4 t)))
             else (case unescape e of
                     None \<Rightarrow> None
                   | Some d \<Rightarrow> put_front [d] (string_body t)))
      else if (of_char c :: nat) < 32 then None
      else if rune_len c s = 0 then put_front replacement_rune (string_body s)
      else put_front (c # take (rune_len c s - 1) s) (string_body (drop (rune_len c s - 1) s)))"

declare string_body.simps(2) [simp del]

section \<open>The syntax tree and its text\<close>

text \<open>A number is its literal, an object the list of its members in the order of the text.\<close>

datatype json =
    JNull
  | JBool bool
  | JNumber string
  | JString string
  | JArray "json list"
  | JObject "(string \<times> json) list"

fun print_json :: "json \<Rightarrow> string"
  and print_elems :: "json list \<Rightarrow> string"
  and print_members :: "(string \<times> json) list \<Rightarrow> string" where
  "print_json JNull = ''null''"
| "print_json (JBool b) = (if b then ''true'' else ''false'')"
| "print_json (JNumber l) = l"
| "print_json (JString s) = json_string s"
| "print_json (JArray vs) = ''['' @ print_elems vs @ '']''"
| "print_json (JObject ms) = ''{'' @ print_members ms @ ''}''"
| "print_elems [] = []"
| "print_elems [v] = print_json v"
| "print_elems (v # w # vs) = print_json v @ '','' @ print_elems (w # vs)"
| "print_members [] = []"
| "print_members [(k, v)] = json_string k @ '':'' @ print_json v"
| "print_members ((k, v) # m # ms) = json_string k @ '':'' @ print_json v @ '','' @ print_members (m # ms)"

definition skip_ws :: "string \<Rightarrow> string" where
  "skip_ws s = dropWhile (\<lambda>c. c \<in> {CHR 0x20, CHR 0x09, CHR 0x0A, CHR 0x0D}) s"

text \<open>
  Recursive descent. The first argument is fuel, of which every call takes one; the second
  is how many more arrays and objects may be opened (the scanner gives up beyond a depth of
  10000). Elements and members are parsed after the bracket or comma before them.
\<close>

definition literal :: "string \<Rightarrow> json \<Rightarrow> string \<Rightarrow> (json \<times> string) option" where
  "literal l j s = (if take (length l) s = l then Some (j, drop (length l) s) else None)"

fun parse_value :: "nat \<Rightarrow> nat \<Rightarrow> string \<Rightarrow> (json \<times> string) option"
  and parse_elems :: "nat \<Rightarrow> nat \<Rightarrow> string \<Rightarrow> (json list \<times> string) option"
  and parse_members :: "nat \<Rightarrow> nat \<Rightarrow> string \<Rightarrow> ((string \<times> json) list \<times> string) option" where
  "parse_value 0 d s = None"
| "parse_value (Suc n) d s =
     (case skip_ws s of
        [] \<Rightarrow> None
      | c # t \<Rightarrow>
          if c = CHR 0x22 then map_option (\<lambda>(x, r). (JString x, r)) (string_body t)
          else if c = CHR ''['' then
            (if d = 0 then None
             else case skip_ws t of
                    [] \<Rightarrow> None
                  | b # r \<Rightarrow>
                      if b = CHR '']'' then Some (JArray [], r)
                      else map_option (\<lambda>(vs, r). (JArray vs, r)) (parse_elems n (d - 1) t))
          else if c = CHR ''{'' then
            (if d = 0 then None
             else case skip_ws t of
                    [] \<Rightarrow> None
                  | b # r \<Rightarrow>
                      if b = CHR ''}'' then Some (JObject [], r)
                      else map_option (\<lambda>(ms, r). (JObject ms, r)) (parse_members n (d - 1) t))
          else if c = CHR ''n'' then literal ''null'' JNull (c # t)
          else if c = CHR ''t'' then literal ''true'' (JBool True) (c # t)
          else if c = CHR ''f'' then literal ''false'' (JBool False) (c # t)
          else map_option (\<lambda>(l, r). (JNumber l, r)) (scan_number (c # t)))"
| "parse_elems 0 d s = None"
| "parse_elems (Suc n) d s =
     (case parse_value n d s of
        None \<Rightarrow> None
      | Some (v, r) \<Rightarrow>
          (case skip_ws r of
             [] \<Rightarrow> None
           | c # t \<Rightarrow>
               if c = CHR '','' then map_option (\<lambda>(vs, r). (v # vs, r)) (parse_elems n d t)
               else if c = CHR '']'' then Some ([v], t)
               else None))"
| "parse_members 0 d s = None"
| "parse_members (Suc n) d s =
     (case skip_ws s of
        [] \<Rightarrow> None
      | q # s1 \<Rightarrow>
          if q \<noteq> CHR 0x22 then None
          else (case string_body s1 of
             None \<Rightarrow> None
           | Some (k, s2) \<Rightarrow>
               (case skip_ws s2 of
                  [] \<Rightarrow> None
                | c # s3 \<Rightarrow>
                    if c \<noteq> CHR '':'' then None
                    else (case parse_value n d s3 of
                       None \<Rightarrow> None
                     | Some (v, r) \<Rightarrow>
                         (case skip_ws r of
                            [] \<Rightarrow> None
                          | c # t \<Rightarrow>
                              if c = CHR '','' then map_option (\<lambda>(ms, r). ((k, v) # ms, r)) (parse_members n d t)
                              else if c = CHR ''}'' then Some ([(k, v)], t)
                              else None)))))"

declare parse_value.simps(2) [simp del] parse_elems.simps(2) [simp del] parse_members.simps(2) [simp del]

text \<open>A whole text: one value, with white space around it. Every call but one in two consumes
  a byte, so this fuel is enough.\<close>

definition parse_json :: "string \<Rightarrow> json option" where
  "parse_json s =
     (case parse_value (2 * length s + 2) 10000 s of
        Some (v, r) \<Rightarrow> if skip_ws r = [] then Some v else None
      | None \<Rightarrow> None)"

section \<open>Dynamic values\<close>

text \<open>All of a list of results, if there are all.\<close>

fun all_some :: "'a option list \<Rightarrow> 'a list option" where
  "all_some [] = Some []"
| "all_some (None # xs) = None"
| "all_some (Some x # xs) = map_option ((#) x) (all_some xs)"

text \<open>A \<open>float64\<close> in JSON: an exponent of one digit loses the zero before it.\<close>

definition json_float :: "rat \<Rightarrow> string" where
  "json_float x =
     (if x = 0 then ''0''
      else (let (ds, dp) = decimal \<bar>x\<bar>
            in (if x < 0 then ''-'' else []) @
               (if \<bar>x\<bar> < the (round64 (1 / 10 ^ 6)) \<or> \<bar>x\<bar> \<ge> 10 ^ 21
                then exp_text 1 ds dp else fixed_text ds dp)))"

text \<open>
  \<open>Marshal\<close> of a dynamic value, as a syntax tree: nil of any kind as \<open>null\<close>, maps with their
  keys in order, a handoff by
  its field tags. A value of a type the module does not name is one that JSON has no encoding
  for (a channel, a function): an error.
\<close>

primrec of_any :: "gval \<Rightarrow> json option" where
  "of_any VNil = Some JNull"
| "of_any (VBool b) = Some (JBool b)"
| "of_any (VInt i) = Some (JNumber (dec_int i))"
| "of_any (VInt64 i) = Some (JNumber (dec_int i))"
| "of_any (VFloat64 x) = Some (JNumber (json_float x))"
| "of_any (VString s) = Some (JString s)"
| "of_any VNilSlice = Some JNull"
| "of_any (VSlice vs) = map_option JArray (all_some (map of_any vs))"
| "of_any VNilMap = Some JNull"
| "of_any (VMap m) =
     (let t = (\<lambda>k. map_option of_any (m k)); ks = sorted_list_of_set (dom t)
      in map_option (\<lambda>vs. JObject (zip ks vs)) (all_some (map (\<lambda>k. the (t k)) ks)))"
| "of_any (VHandoff h) =
     Some (JObject [(''from'', JString (h_From h)), (''to'', JString (h_To h)),
       (''reason'', JString (h_Reason h)), (''task'', JString (h_Task h))])"
| "of_any (VOther t) = None"

text \<open>\<open>Unmarshal\<close> into an \<open>any\<close>. Of members with the same name the last one counts.\<close>

fun to_any :: "json \<Rightarrow> gval option"
  and to_anys :: "json list \<Rightarrow> gval list option"
  and to_map :: "(string \<times> json) list \<Rightarrow> (string \<Rightarrow> gval option) \<Rightarrow> (string \<Rightarrow> gval option) option" where
  "to_any JNull = Some VNil"
| "to_any (JBool b) = Some (VBool b)"
| "to_any (JNumber l) = map_option VFloat64 (ParseFloat l)"
| "to_any (JString s) = Some (VString s)"
| "to_any (JArray vs) = map_option VSlice (to_anys vs)"
| "to_any (JObject ms) = map_option VMap (to_map ms Map.empty)"
| "to_anys [] = Some []"
| "to_anys (v # vs) =
     (case to_any v of None \<Rightarrow> None | Some x \<Rightarrow> map_option ((#) x) (to_anys vs))"
| "to_map [] m = Some m"
| "to_map ((k, v) # ms) m = (case to_any v of None \<Rightarrow> None | Some x \<Rightarrow> to_map ms (m(k \<mapsto> x)))"

definition Marshal :: "gval \<Rightarrow> string option" where
  "Marshal v = map_option print_json (of_any v)"

definition Unmarshal :: "string \<Rightarrow> gval option" where
  "Unmarshal s = Option.bind (parse_json s) to_any"

text \<open>\<open>Unmarshal\<close> into a map: \<open>null\<close> leaves the map nil, any other value that is no object fails.\<close>

definition Unmarshal_map :: "string \<Rightarrow> (string \<Rightarrow> gval option) option" where
  "Unmarshal_map s =
     (case parse_json s of
        Some JNull \<Rightarrow> Some Map.empty
      | Some (JObject ms) \<Rightarrow> to_map ms Map.empty
      | _ \<Rightarrow> None)"

end
