(* ===== verification/Decisions.thy ===== *)
theory Decisions
  imports Handoffs Json
begin

text \<open>
  \<open>ParseDecision\<close> of \<^verbatim>\<open>orchestrator/handoff.go\<close>: a decision read from the text of a model's
  answer, which may have anything around the JSON object.
\<close>

text \<open>The part from the first opening to the last closing brace, when there is one.\<close>

definition brace_part :: "string \<Rightarrow> string" where
  "brace_part raw =
     (let i = length (takeWhile (\<lambda>c. c \<noteq> CHR ''{'') raw);
          k = length (takeWhile (\<lambda>c. c \<noteq> CHR ''}'') (rev raw)); j = length raw - 1 - k
      in if i < length raw \<and> k < length raw \<and> j > i then take (j + 1 - i) (drop i raw) else raw)"

text \<open>
  A field is found by its tag, else by its tag in any case. Beside the ASCII letters the long s
  (U+017F) and the Kelvin sign (U+212A) fold to ASCII letters.
\<close>

fun fold_name :: "string \<Rightarrow> string" where
  "fold_name (a # b # c # s) =
     (if a = CHR 0xC5 \<and> b = CHR 0xBF then CHR ''s'' # fold_name (c # s)
      else if a = CHR 0xE2 \<and> b = CHR 0x84 \<and> c = CHR 0xAA then CHR ''k'' # fold_name s
      else lower_char a # fold_name (b # c # s))"
| "fold_name [a, b] = (if a = CHR 0xC5 \<and> b = CHR 0xBF then ''s'' else [lower_char a, lower_char b])"
| "fold_name [a] = [lower_char a]"
| "fold_name [] = []"

text \<open>The members in their order; a value of the wrong type is an error, \<open>null\<close> changes nothing.\<close>

fun decode_decision :: "(string \<times> json) list \<Rightarrow> Decision \<Rightarrow> Decision option" where
  "decode_decision [] d = Some d"
| "decode_decision ((k, v) # ms) d =
     (let f = fold_name k
      in if f \<notin> {''next'', ''reason'', ''task''} then decode_decision ms d
         else (case v of
                 JString x \<Rightarrow> decode_decision ms
                   (if f = ''next'' then d\<lparr>d_Next := x\<rparr> else if f = ''reason'' then d\<lparr>d_Reason := x\<rparr> else d\<lparr>d_Task := x\<rparr>)
               | JNull \<Rightarrow> decode_decision ms d
               | _ \<Rightarrow> None))"

definition ParseDecision :: "string \<Rightarrow> gerror + Decision" where
  "ParseDecision text =
     (let raw = TrimSpace text; empty = \<lparr>d_Next = '''', d_Reason = '''', d_Task = ''''\<rparr>
      in if raw = '''' then Inl (Errorf ''orchestrator: empty supervisor decision'' [])
         else (case (case parse_json (brace_part raw) of
                       Some JNull \<Rightarrow> Some empty
                     | Some (JObject ms) \<Rightarrow> decode_decision ms empty
                     | _ \<Rightarrow> None) of
                 None \<Rightarrow> Inl (Wrapf ''orchestrator: parse decision: %w'' [] (Errorf ''json'' []))
               | Some d \<Rightarrow>
                   (let next = TrimSpace (d_Next d)
                    in if next = '''' then Inl (Errorf ''orchestrator: decision missing next'' [])
                       else Inr \<lparr>d_Next = next, d_Reason = TrimSpace (d_Reason d), d_Task = TrimSpace (d_Task d)\<rparr>)))"

end
