(* ===== verification/Agents.thy ===== *)
theory Agents
  imports Json ToolExec Builder
begin

text \<open>
  \<^verbatim>\<open>agentspec/spec.go\<close>: agents as graph nodes, with the conversation restored from the
  parent checkpoint and registered as an artifact of the step. The agent runtime (the loop that
  talks to the model and its tools, conversations, emitters, tool registries) is the module
  \<^verbatim>\<open>marspi-core\<close>: its operations are the fields of \<open>Core\<close>, the parameter of everything here.
\<close>

section \<open>What is used of the core module\<close>

text \<open>A value of one of its interface or pointer types: nil, or a reference.\<close>

type_synonym iface = "nat option"

text \<open>\<open>llm.Message\<close> is a map; \<open>agentctx.Manager\<close> is its messages and what it was made with.\<close>

type_synonym Message = "string \<Rightarrow> gval option"

record Manager =
  mg_Messages :: "Message list"
  mg_MaxContext :: int
  mg_Provider :: iface
  mg_Schemas :: "Message list"
  mg_Reporter :: iface

text \<open>\<open>agent.Event\<close>: the fields that are written here, and the rest.\<close>

record AgentEvent =
  ae_RunID :: string
  ae_NodeID :: string
  ae_AgentID :: string
  ae_Body :: gval

text \<open>\<open>tool.ExecutionMeta\<close>.\<close>

record ExecutionMeta =
  em_ThreadID :: string
  em_RunID :: string
  em_NodeID :: string
  em_ParentCheckpointID :: string
  em_LeaseEpoch :: int
  em_ToolCallID :: string
  em_IdempotencyKey :: string

text \<open>\<open>agent.Runner\<close>, with what its emitter does with an event.\<close>

record ('s, 'u) Runner =
  rn_Provider :: iface
  rn_Registry :: iface
  rn_Events :: "AgentEvent \<Rightarrow> ('s, 'u) World \<Rightarrow> ('s, 'u) World"
  rn_MaxContext :: int
  rn_MaxIter :: int
  rn_Stream :: bool
  rn_ToolMeta :: "('s, 'u) Ctx \<Rightarrow> string \<Rightarrow> string \<Rightarrow> ExecutionMeta"

record ('s, 'u) Core =
  co_LoopCtx :: "('s, 'u) Runner \<Rightarrow> ('s, 'u) Ctx \<Rightarrow> Manager \<Rightarrow> string \<Rightarrow> string \<Rightarrow> ('s, 'u) World
    \<Rightarrow> gerror option \<times> Manager \<times> ('s, 'u) World"
  co_AppendSystem :: "string \<Rightarrow> Manager \<Rightarrow> Manager"
  co_AppendUser :: "string \<Rightarrow> Manager \<Rightarrow> Manager"
  co_View :: "nat \<Rightarrow> string list \<Rightarrow> nat"
  co_Schemas :: "nat \<Rightarrow> Message list"
  co_Emit :: "nat \<Rightarrow> AgentEvent \<Rightarrow> ('s, 'u) World \<Rightarrow> ('s, 'u) World"

section \<open>Specs and instances\<close>

datatype PersistPolicy = PersistNone | PersistSession

record ('s, 'u) Spec =
  sp_ID :: string
  sp_SystemPrompt :: string
  sp_Provider :: iface
  sp_Registry :: iface
  sp_AllowTools :: "string list"
  sp_MaxContext :: int
  sp_MaxIter :: int
  sp_Stream :: bool
  sp_Reporter :: iface
  sp_Events :: iface
  sp_Persist :: PersistPolicy
  sp_Store :: "('s, 'u) DurableCheckpointer option"

record correlation =
  cr_runID :: string
  cr_nodeID :: string
  cr_agentID :: string

text \<open>
  The part of an \<open>Instance\<close> that changes: its conversation and its correlation. The rest is
  fixed by the spec (\<open>spec_of\<close> fills in the defaults, \<open>registry_of\<close> is the view of the allowed
  tools).
\<close>

record Instance =
  in_ctx :: Manager
  in_corr :: correlation

definition spec_of :: "('s, 'u) Spec \<Rightarrow> ('s, 'u) Spec" where
  "spec_of spec = spec\<lparr>
     sp_MaxContext := (if sp_MaxContext spec \<le> 0 then 1000000 else sp_MaxContext spec),
     sp_MaxIter := (if sp_MaxIter spec \<le> 0 then 100 else sp_MaxIter spec)\<rparr>"

definition registry_of :: "('s, 'u) Core \<Rightarrow> ('s, 'u) Spec \<Rightarrow> iface" where
  "registry_of core spec =
     (case sp_Registry spec of
        Some r \<Rightarrow> Some (if sp_AllowTools spec \<noteq> [] then co_View core r (sp_AllowTools spec) else r)
      | None \<Rightarrow> None)"

text \<open>The subscriber of the inner emitter: the instance's correlation goes on the event.\<close>

definition correlate :: "correlation \<Rightarrow> AgentEvent \<Rightarrow> AgentEvent" where
  "correlate c ev =
     (let ev = (if cr_runID c \<noteq> '''' then ev\<lparr>ae_RunID := cr_runID c\<rparr> else ev);
          ev = (if cr_nodeID c \<noteq> '''' then ev\<lparr>ae_NodeID := cr_nodeID c\<rparr> else ev)
      in if cr_agentID c \<noteq> '''' then ev\<lparr>ae_AgentID := cr_agentID c\<rparr> else ev)"

definition forward ::
  "('s, 'u) Core \<Rightarrow> ('s, 'u) Spec \<Rightarrow> correlation \<Rightarrow> AgentEvent \<Rightarrow> ('s, 'u) World \<Rightarrow> ('s, 'u) World" where
  "forward core spec c ev w =
     (case sp_Events spec of
        None \<Rightarrow> w
      | Some outer \<Rightarrow> co_Emit core outer (correlate c ev) w)"

definition toolMetaFromGraph :: "('s, 'u) Ctx \<Rightarrow> string \<Rightarrow> string \<Rightarrow> ExecutionMeta" where
  "toolMetaFromGraph ctx toolName toolCallID =
     (let op = (if toolCallID = '''' then toolName else toolCallID)
      in case ToolExecutionFrom ctx toolName op of
           Inl e \<Rightarrow> \<lparr>em_ThreadID = ctx_ThreadID ctx, em_RunID = ctx_RunID ctx, em_NodeID = ctx_NodeID ctx,
             em_ParentCheckpointID = ctx_ParentCheckpointID ctx, em_LeaseEpoch = LeaseEpoch ctx,
             em_ToolCallID = toolCallID, em_IdempotencyKey = ''''\<rparr>
         | Inr exec \<Rightarrow> \<lparr>em_ThreadID = te_ThreadID exec, em_RunID = te_RunID exec, em_NodeID = te_NodeID exec,
             em_ParentCheckpointID = te_ParentCheckpointID exec, em_LeaseEpoch = te_LeaseEpoch exec,
             em_ToolCallID = toolCallID, em_IdempotencyKey = IdempotencyKey exec\<rparr>)"

definition runner_of :: "('s, 'u) Core \<Rightarrow> ('s, 'u) Spec \<Rightarrow> correlation \<Rightarrow> ('s, 'u) Runner" where
  "runner_of core spec c =
     \<lparr>rn_Provider = sp_Provider spec, rn_Registry = registry_of core spec,
      rn_Events = forward core spec c, rn_MaxContext = sp_MaxContext spec, rn_MaxIter = sp_MaxIter spec,
      rn_Stream = sp_Stream spec, rn_ToolMeta = toolMetaFromGraph\<rparr>"

text \<open>\<open>New\<close>, for a spec with its defaults filled in.\<close>

definition NewInstance :: "('s, 'u) Core \<Rightarrow> ('s, 'u) Spec \<Rightarrow> Instance" where
  "NewInstance core spec =
     (let mgr = \<lparr>mg_Messages = [], mg_MaxContext = sp_MaxContext spec, mg_Provider = sp_Provider spec,
            mg_Schemas = (case registry_of core spec of None \<Rightarrow> [] | Some r \<Rightarrow> co_Schemas core r),
            mg_Reporter = sp_Reporter spec\<rparr>;
          mgr = (if sp_Persist spec \<noteq> PersistSession \<and> sp_SystemPrompt spec \<noteq> ''''
                 then co_AppendSystem core (sp_SystemPrompt spec) mgr else mgr)
      in \<lparr>in_ctx = mgr, in_corr = \<lparr>cr_runID = '''', cr_nodeID = '''', cr_agentID = sp_ID spec\<rparr>\<rparr>)"

section \<open>Running\<close>

definition setCorrelation :: "('s, 'u) Spec \<Rightarrow> ('s, 'u) Ctx \<Rightarrow> Instance \<Rightarrow> Instance" where
  "setCorrelation spec ctx a =
     a\<lparr>in_corr := \<lparr>cr_runID = ctx_RunID ctx, cr_nodeID = ctx_NodeID ctx,
       cr_agentID = (if cr_agentID (in_corr a) = '''' then sp_ID spec else cr_agentID (in_corr a))\<rparr>\<rparr>"

text \<open>The text of a JSON error is not kept.\<close>

definition json_error :: gerror where
  "json_error = Errorf ''json'' []"

text \<open>
  A conversation that is saved has the user's message at least, so it is no nil slice; a nil one
  would be written as \<open>null\<close>, which is read as no messages like \<open>[]\<close>.
\<close>

definition encode_messages :: "Message list \<Rightarrow> string option" where
  "encode_messages msgs = Marshal (VSlice (map VMap msgs))"

text \<open>\<open>json.Unmarshal\<close> into a slice of maps; \<open>null\<close> is the nil slice or map.\<close>

definition decode_messages :: "string \<Rightarrow> Message list option" where
  "decode_messages raw =
     (case parse_json raw of
        Some JNull \<Rightarrow> Some []
      | Some (JArray vs) \<Rightarrow>
          all_some (map (\<lambda>v. case v of JNull \<Rightarrow> Some Map.empty | JObject ms \<Rightarrow> to_map ms Map.empty | _ \<Rightarrow> None) vs)
      | _ \<Rightarrow> None)"

definition ensureSession ::
  "('s, 'u) Core \<Rightarrow> ('s, 'u) Spec \<Rightarrow> ('s, 'u) Ctx \<Rightarrow> Instance \<Rightarrow> ('s, 'u) World
   \<Rightarrow> gerror option \<times> Instance" where
  "ensureSession core spec ctx a w =
     (let start = a\<lparr>in_ctx := (if sp_SystemPrompt spec \<noteq> ''''
            then co_AppendSystem core (sp_SystemPrompt spec) (in_ctx a) else in_ctx a)\<rparr>;
          parent = ctx_ParentCheckpointID ctx; thread = ctx_ThreadID ctx
      in if sp_Persist spec \<noteq> PersistSession \<or> mg_Messages (in_ctx a) \<noteq> [] then (None, a)
         else if parent = '''' \<or> thread = '''' then (None, start)
         else (case sp_Store spec of
                 None \<Rightarrow> (None, start)
               | Some store \<Rightarrow>
                   (case dc_GetAgentSession store thread parent (sp_ID spec) w of
                      Inl e \<Rightarrow> (Some (Wrapf ''agentspec %q: load session: %w'' [AStr (sp_ID spec)] e), a)
                    | Inr None \<Rightarrow> (None, start)
                    | Inr (Some raw) \<Rightarrow>
                        if raw = [] then (None, start)
                        else (case decode_messages raw of
                                None \<Rightarrow> (Some (Wrapf ''agentspec %q: decode session: %w'' [AStr (sp_ID spec)] json_error), a)
                              | Some msgs \<Rightarrow> (None, a\<lparr>in_ctx := (in_ctx a)\<lparr>mg_Messages := msgs\<rparr>\<rparr>)))))"

definition registerSessionArtifact ::
  "('s, 'u) Spec \<Rightarrow> ('s, 'u) Ctx \<Rightarrow> Instance \<Rightarrow> ('s, 'u) World \<Rightarrow> gerror option \<times> ('s, 'u) World" where
  "registerSessionArtifact spec ctx a w =
     (if sp_Persist spec \<noteq> PersistSession then (None, w)
      else (case encode_messages (mg_Messages (in_ctx a)) of
              None \<Rightarrow> (Some (Wrapf ''agentspec %q: encode session: %w'' [AStr (sp_ID spec)] json_error), w)
            | Some payload \<Rightarrow>
                (case RegisterStepArtifact ctx
                        \<lparr>art_Kind = ArtifactAgentSession, art_Key = sp_ID spec, art_Payload = payload\<rparr> w of
                   (Some e, w1) \<Rightarrow> (Some (Wrapf ''agentspec %q: register session: %w'' [AStr (sp_ID spec)] e), w1)
                 | (None, w1) \<Rightarrow> (None, w1))))"

definition lastCompletion :: "Manager \<Rightarrow> string" where
  "lastCompletion m =
     (case List.find (\<lambda>msg. as_string (at_key msg ''role'') \<in> {''assistant'', ''tool''}
                        \<and> as_string (at_key msg ''content'') \<noteq> '''') (rev (mg_Messages m)) of
        Some msg \<Rightarrow> as_string (at_key msg ''content'')
      | None \<Rightarrow> '''')"

text \<open>\<open>RunOnce\<close> answers the last completion, also when it fails later than loading.\<close>

definition RunOnce ::
  "('s, 'u) Core \<Rightarrow> ('s, 'u) Spec \<Rightarrow> ('s, 'u) Ctx \<Rightarrow> string \<Rightarrow> Instance \<Rightarrow> ('s, 'u) World
   \<Rightarrow> (string \<times> gerror option) \<times> Instance \<times> ('s, 'u) World" where
  "RunOnce core spec ctx userInput a0 w0 =
     (let a1 = setCorrelation spec ctx a0
      in case ensureSession core spec ctx a1 w0 of
           (Some e, a2) \<Rightarrow> (('''', Some e), a2, w0)
         | (None, a2) \<Rightarrow>
             (case co_LoopCtx core (runner_of core spec (in_corr a2)) ctx (in_ctx a2) '''' userInput w0 of
                (Some e, m, w1) \<Rightarrow> ((lastCompletion m, Some e), a2\<lparr>in_ctx := m\<rparr>, w1)
              | (None, m, w1) \<Rightarrow>
                  (case registerSessionArtifact spec ctx (a2\<lparr>in_ctx := m\<rparr>) w1 of
                     (e, w2) \<Rightarrow> ((lastCompletion m, e), a2\<lparr>in_ctx := m\<rparr>, w2))))"

text \<open>
  \<open>AsNode\<close>. The instance is shared by all calls of the node: it is kept at the place of the
  world that \<open>get\<close> reads and \<open>put\<close> writes.
\<close>

definition AsNode ::
  "('s, 'u) Core \<Rightarrow> ('s, 'u) Spec \<Rightarrow> ('u \<Rightarrow> Instance) \<Rightarrow> (Instance \<Rightarrow> 'u \<Rightarrow> 'u) \<Rightarrow> string \<Rightarrow> string
   \<Rightarrow> ('s, 'u) NodeFunc" where
  "AsNode core spec get put inputKey0 outputKey0 ctx s w =
     (let inputKey = (if inputKey0 = '''' then ''input'' else inputKey0);
          outputKey = (if outputKey0 = '''' then ''output'' else outputKey0);
          ((out, err), a, w1) = RunOnce core spec ctx (GetString s inputKey) (get (w_user w)) w;
          w2 = w1\<lparr>w_user := put a (w_user w1)\<rparr>
      in case err of
           Some e \<Rightarrow> (\<lparr>nr_Update = [], nr_Err = Some (Wrapf ''agentspec %q: %w'' [AStr (sp_ID spec)] e), nr_State = s\<rparr>, w2)
         | None \<Rightarrow>
             (\<lparr>nr_Update = (if outputKey = ''last_agent'' then [(''last_agent'', VString (sp_ID spec))]
                 else [(outputKey, VString out), (''last_agent'', VString (sp_ID spec))]),
               nr_Err = None, nr_State = s\<rparr>, w2))"

end
