(* ===== verification/Presets.thy ===== *)
theory Presets
  imports Agents Handoffs Legacy Engine
begin

text \<open>
  What the presets of \<^verbatim>\<open>orchestrator/\<close> share: typed reads of the state, texts for prompts
  and summaries, the compile options for stores and leases, and the environment a preset runs
  in (the core module, and where the checkpointer it makes itself lives).
\<close>

section \<open>Reading the state\<close>

text \<open>
  \<open>int(v)\<close> of a \<open>float64\<close> truncates; out of range it is the value amd64 gives.
\<close>

definition float_int :: "rat \<Rightarrow> int" where
  "float_int x = (let t = (if x \<ge> 0 then \<lfloor>x\<rfloor> else \<lceil>x\<rceil>) in if in_int64 t then t else - (2 ^ 63))"

definition stateInt :: "State \<Rightarrow> string \<Rightarrow> int" where
  "stateInt s key =
     (case at_key s key of VInt v \<Rightarrow> v | VInt64 v \<Rightarrow> v | VFloat64 v \<Rightarrow> float_int v | _ \<Rightarrow> 0)"

section \<open>Texts\<close>

definition truncate_str :: "string \<Rightarrow> int \<Rightarrow> string" where
  "truncate_str s0 n =
     (let s = TrimSpace s0
      in if n \<le> 0 \<or> int (length s) \<le> n then s
         else take (nat n) s @ [CHR 0xE2, CHR 0x80, CHR 0xA6])"

text \<open>
  \<open>%q\<close>: \<open>strconv.Quote\<close>. Which runes outside ASCII are printable is a table of the Unicode
  package, the argument \<open>printable\<close>.
\<close>

definition rune_value :: "string \<Rightarrow> nat" where
  "rune_value r =
     (case map of_char r of
        [a] \<Rightarrow> a
      | [a, b] \<Rightarrow> (a - 0xC0) * 0x40 + (b - 0x80)
      | [a, b, c] \<Rightarrow> (a - 0xE0) * 0x1000 + (b - 0x80) * 0x40 + (c - 0x80)
      | [a, b, c, d] \<Rightarrow> (a - 0xF0) * 0x40000 + (b - 0x80) * 0x1000 + (c - 0x80) * 0x40 + (d - 0x80)
      | _ \<Rightarrow> 0)"

definition hex_text :: "nat \<Rightarrow> nat \<Rightarrow> string" where
  "hex_text width n = map (\<lambda>i. hex_digit (n div 16 ^ i mod 16)) (rev [0..<width])"

definition quote_rune :: "(string \<Rightarrow> bool) \<Rightarrow> string \<Rightarrow> string" where
  "quote_rune printable r =
     (let n = rune_value r
      in if r = [CHR 0x22] \<or> r = [CHR 0x5C] then CHR 0x5C # r
         else if length r = 1 then
           (if 32 \<le> n \<and> n < 127 then r
            else if n = 7 then CHR 0x5C # ''a'' else if n = 8 then CHR 0x5C # ''b''
            else if n = 12 then CHR 0x5C # ''f'' else if n = 10 then CHR 0x5C # ''n''
            else if n = 13 then CHR 0x5C # ''r'' else if n = 9 then CHR 0x5C # ''t''
            else if n = 11 then CHR 0x5C # ''v'' else CHR 0x5C # ''x'' @ hex_text 2 n)
         else if printable r then r
         else if n < 0x10000 then CHR 0x5C # ''u'' @ hex_text 4 n
         else CHR 0x5C # ''U'' @ hex_text 8 n)"

definition Quote :: "(string \<Rightarrow> bool) \<Rightarrow> string \<Rightarrow> string" where
  "Quote printable s = CHR 0x22 # concat (map (quote_rune printable) (runes s)) @ [CHR 0x22]"

definition formatMessages :: "(string \<Rightarrow> string) \<Rightarrow> gval \<Rightarrow> string" where
  "formatMessages other v =
     (case v of
        VSlice x \<Rightarrow> if x = [] then ''(none)'' else Join (map (Sprint other) x) [CHR 0x0A]
      | VNilSlice \<Rightarrow> ''(none)''
      | VNil \<Rightarrow> ''(none)''
      | _ \<Rightarrow> Sprint other v)"

definition newline :: string where
  "newline = [CHR 0x0A]"

text \<open>What a node answers that writes its state map at most in place.\<close>

abbreviation failed :: "gerror \<Rightarrow> State \<Rightarrow> node_result" where
  "failed e s \<equiv> \<lparr>nr_Update = [], nr_Err = Some e, nr_State = s\<rparr>"

abbreviation computed :: "Update \<Rightarrow> State \<Rightarrow> node_result" where
  "computed u s \<equiv> \<lparr>nr_Update = u, nr_Err = None, nr_State = s\<rparr>"

section \<open>The environment of a preset\<close>

text \<open>
  \<open>env_core\<close> is the core module with its default reporter and emitter; \<open>env_other\<close> and
  \<open>env_printable\<close> are the two parameters of Go's formatting; \<open>env_get\<close> and \<open>env_put\<close> are the
  place of the \<open>checkpoint.Memory\<close> that a preset makes when it is given no store.
\<close>

record ('s, 'u) Env =
  env_core :: "('s, 'u) Core"
  env_Nop :: nat
  env_NewEmitter :: nat
  env_other :: "string \<Rightarrow> string"
  env_printable :: "string \<Rightarrow> bool"
  env_get :: "'s \<Rightarrow> Memory"
  env_put :: "Memory \<Rightarrow> 's \<Rightarrow> 's"

definition leaseCompileOpts ::
  "('s, 'u) ExecutionLease option \<Rightarrow> duration \<Rightarrow> ('s, 'u) CompileOption list" where
  "leaseCompileOpts lease ttl =
     (case lease of
        None \<Rightarrow> []
      | Some l \<Rightarrow> WithExecutionLease l # (if ttl > 0 then [WithLeaseTTL ttl] else []))"

text \<open>
  The store of a run (\<open>supervisorStore\<close>, and the same choice in \<open>RunCodingLoop\<close>): the compile
  options, the lookup of the latest snapshot, and the world in which a new \<open>checkpoint.Memory\<close>
  has been made if one is needed.
\<close>

definition supervisorStore ::
  "('s, 'u) Env \<Rightarrow> ('s, 'u) Checkpointer option \<Rightarrow> ('s, 'u) DurableCheckpointer option
   \<Rightarrow> ('s, 'u) ExecutionLease option \<Rightarrow> duration \<Rightarrow> ('s, 'u) World
   \<Rightarrow> gerror + ('s, 'u) CompileOption list \<times> (string \<Rightarrow> ('s, 'u) World \<Rightarrow> gerror + Snapshot option) \<times> ('s, 'u) World" where
  "supervisorStore env cp0 durable lease ttl w =
     (case durable of
        Some d \<Rightarrow> Inr (WithDurableCheckpointer d # leaseCompileOpts lease ttl, dc_GetLatest d, w)
      | None \<Rightarrow>
          if lease \<noteq> None
          then Inl (Errorf ''orchestrator: Lease requires Durable checkpointer with fenced commit'' [])
          else (case cp0 of
                  Some cp \<Rightarrow> Inr ([WithCheckpointer cp], cp_Get cp, w)
                | None \<Rightarrow>
                    (let cp = Memory_at (env_get env) (env_put env)
                     in Inr ([WithCheckpointer cp], cp_Get cp,
                          w\<lparr>w_store := env_put env NewMemory (w_store w)\<rparr>))))"

text \<open>A statement that may panic, in sequence.\<close>

definition and_then :: "'p + 'a \<Rightarrow> ('a \<Rightarrow> 'p + 'b) \<Rightarrow> 'p + 'b" where
  "and_then r f = (case r of Inl p \<Rightarrow> Inl p | Inr x \<Rightarrow> f x)"

lemma and_then_simps [simp]: "and_then (Inl p) f = Inl p" "and_then (Inr x) f = f x"
  by (simp_all add: and_then_def)

end
