(* ===== verification/Supervisor.thy ===== *)
theory Supervisor
  imports Presets BuilderProps
begin

text \<open>
  \<^verbatim>\<open>orchestrator/supervisor.go\<close>: a supervisor node that decides, worker nodes that work (some
  after an approval), and \<open>RunSupervisor\<close>, which builds the star graph, invokes or resumes it
  and answers interrupts with the caller's hook.
\<close>

section \<open>Configuration\<close>

definition supervisorNode :: string where
  "supervisorNode = ''supervisor''"

type_synonym ('s, 'u) DecideFunc =
  "('s, 'u) Ctx \<Rightarrow> State \<Rightarrow> ('s, 'u) World \<Rightarrow> ((gerror + Decision) \<times> State) \<times> ('s, 'u) World"

record InterruptInfo =
  ii_ThreadID :: string
  ii_Node :: string
  ii_Value :: gval

type_synonym ('s, 'u) OnInterruptFunc =
  "('s, 'u) Ctx \<Rightarrow> InterruptInfo \<Rightarrow> ('s, 'u) World \<Rightarrow> (gerror + bool) \<times> ('s, 'u) World"

record ('s, 'u) SupervisorConfig =
  sc_Goal :: string
  sc_Workers :: "('s, 'u) WorkerSpec list"
  sc_MaxSteps :: int
  sc_SystemPrompt :: string
  sc_Provider :: iface
  sc_Registry :: iface
  sc_Reporter :: iface
  sc_Events :: iface
  sc_MaxContext :: int
  sc_MaxIterAgent :: int
  sc_Stream :: bool
  sc_ThreadID :: string
  sc_Decide :: "('s, 'u) DecideFunc option"
  sc_RequireApprovalFor :: "string list"
  sc_OnInterrupt :: "('s, 'u) OnInterruptFunc option"
  sc_Checkpointer :: "('s, 'u) Checkpointer option"
  sc_Durable :: "('s, 'u) DurableCheckpointer option"
  sc_Lease :: "('s, 'u) ExecutionLease option"
  sc_LeaseTTL :: duration
  sc_EventHandler :: "('s, 'u) EventHandler option"
  sc_ResumeFromCheckpoint :: bool

record SupervisorResult =
  sr_Message :: string
  sr_State :: State

text \<open>
  \<open>llm\<close>, the model interface of the core module: \<open>RequestContext\<close> and a provider's methods.
\<close>

record ('s, 'u) LLM =
  lm_RequestContext :: "('s, 'u) Ctx \<Rightarrow> string \<Rightarrow> gval \<Rightarrow> gval \<Rightarrow> duration \<Rightarrow> int \<Rightarrow> ('s, 'u) World
    \<Rightarrow> (gerror + gval) \<times> ('s, 'u) World"
  lm_APIURL :: "nat \<Rightarrow> string"
  lm_BuildBody :: "nat \<Rightarrow> Message list \<Rightarrow> Message list \<Rightarrow> gval"
  lm_Headers :: "nat \<Rightarrow> gval"
  lm_ParseResponse :: "nat \<Rightarrow> gval \<Rightarrow> Response"

section \<open>Deciding\<close>

definition approvalTruthy :: "gval \<Rightarrow> bool" where
  "approvalTruthy v =
     (case v of
        VBool x \<Rightarrow> x
      | VString x \<Rightarrow> ToLower (TrimSpace x) \<in> {''true'', ''yes'', ''y'', ''approve'', ''1''}
      | _ \<Rightarrow> False)"

definition buildSupervisorPrompt ::
  "('s, 'u) Env \<Rightarrow> ('s, 'u) SupervisorConfig \<Rightarrow> State \<Rightarrow> string" where
  "buildSupervisorPrompt env cfg s =
     ''You are a Supervisor agent. Route work to specialist workers or finish.'' @ newline
     @ ''You MUST call the handoff tool to choose the next worker (or END).'' @ newline
     @ ''Do not write JSON or routing decisions in the message content.'' @ newline @ newline
     @ ''Workers:'' @ newline
     @ concat (map (\<lambda>w. ''- '' @ ws_ID w @ '': ''
         @ (if ws_Description w = '''' then ws_ID w else ws_Description w) @ newline) (sc_Workers cfg))
     @ newline @ ''Goal:'' @ newline @ GetString s ''goal''
     @ newline @ newline @ ''History:'' @ newline @ formatMessages (env_other env) (at_key s ''messages'')
     @ (let out = GetString s ''last_output''
        in if out = '''' then []
           else newline @ newline @ ''Last worker output:'' @ newline @ truncate_str out 1200)
     @ newline @ newline @ ''When the goal is satisfied, call handoff with to=END.''"

definition formatWorkerPrompt ::
  "('s, 'u) Env \<Rightarrow> ('s, 'u) WorkerSpec \<Rightarrow> string \<Rightarrow> string \<Rightarrow> State \<Rightarrow> string" where
  "formatWorkerPrompt env w goal task s =
     ''You are worker '' @ Quote (env_printable env) (ws_ID w) @ ''.'' @ newline
     @ ''Overall goal:'' @ newline @ goal
     @ newline @ newline @ ''Your assigned task:'' @ newline @ task
     @ (let hist = formatMessages (env_other env) (at_key s ''messages'')
        in if hist = ''(none)'' then []
           else newline @ newline @ ''Prior handoffs:'' @ newline @ hist)
     @ newline @ newline @ ''Complete the task. Be concise in your final answer.''"

definition callLLMWithTools ::
  "('s, 'u) LLM \<Rightarrow> ('s, 'u) Ctx \<Rightarrow> nat \<Rightarrow> string \<Rightarrow> Message list \<Rightarrow> ('s, 'u) World
   \<Rightarrow> (gerror + Response) \<times> ('s, 'u) World" where
  "callLLMWithTools llm ctx p userText tools w =
     (let msgs = [[''role'' \<mapsto> VString ''user'', ''content'' \<mapsto> VString userText]]
      in case lm_RequestContext llm ctx (lm_APIURL llm p) (lm_BuildBody llm p msgs tools)
                (lm_Headers llm p) (120 * second) 2 w of
           (Inl e, w1) \<Rightarrow> (Inl e, w1)
         | (Inr raw, w1) \<Rightarrow> (Inr (lm_ParseResponse llm p raw), w1))"

text \<open>
  \<open>decideNext\<close>. The prompt is asked a second time when the first answer is no valid handoff. A
  nil provider would panic, which the checks of \<open>RunSupervisor\<close> exclude.
\<close>

definition decideNext ::
  "('s, 'u) Env \<Rightarrow> ('s, 'u) LLM \<Rightarrow> ('s, 'u) SupervisorConfig \<Rightarrow> ('s, 'u) DecideFunc" where
  "decideNext env llm cfg ctx s w =
     (case sc_Decide cfg of
        Some f \<Rightarrow> f ctx s w
      | None \<Rightarrow>
          (let p = the (sc_Provider cfg); allowed = workerAllowSet (sc_Workers cfg);
               tools = handoffToolSchema (sc_Workers cfg); prompt = buildSupervisorPrompt env cfg s
           in case callLLMWithTools llm ctx p prompt tools w of
                (Inl e, w1) \<Rightarrow> ((Inl e, s), w1)
              | (Inr resp, w1) \<Rightarrow>
                  (case DecisionFromToolCalls resp allowed of
                     Inr d \<Rightarrow> ((Inr d, s), w1)
                   | Inl e \<Rightarrow>
                       (let retry = prompt @ newline @ newline
                          @ ''Previous response was invalid. You MUST call the handoff tool (do not write JSON in the message body).''
                        in case callLLMWithTools llm ctx p retry tools w1 of
                             (Inl e2, w2) \<Rightarrow> ((Inl e, s), w2)
                           | (Inr resp2, w2) \<Rightarrow> ((DecisionFromToolCalls resp2 allowed, s), w2)))))"

section \<open>The nodes\<close>

definition handoff_summary :: "string \<Rightarrow> string \<Rightarrow> string" where
  "handoff_summary next reason =
     ''[supervisor '' @ [CHR 0xE2, CHR 0x86, CHR 0x92] @ '' '' @ next @ ''] '' @ reason"

definition supervisor_node ::
  "('s, 'u) Env \<Rightarrow> ('s, 'u) LLM \<Rightarrow> ('s, 'u) SupervisorConfig \<Rightarrow> ('s, 'u) NodeFunc" where
  "supervisor_node env llm cfg ctx s0 w0 =
     (let step = stateInt s0 ''step''; maxSteps = stateInt s0 ''max_steps''
      in if maxSteps > 0 \<and> step \<ge> maxSteps
         then (computed [(''next'', VString END), (''last_agent'', VString supervisorNode)] s0, w0)
         else
           (case decideNext env llm cfg ctx s0 w0 of
              ((Inl e, s), w) \<Rightarrow> (failed (Wrapf ''supervisor decide: %w'' [] e) s, w)
            | ((Inr decision, s), w) \<Rightarrow>
                (let next = NormalizeNext (d_Next decision)
                 in if next \<noteq> END \<and> next \<notin> workerAllowSet (sc_Workers cfg)
                    then (failed (Errorf ''orchestrator: unknown worker %q'' [AStr (d_Next decision)]) s, w)
                    else
                      (let task = (if d_Task decision = '''' then GetString s ''goal'' else d_Task decision);
                           h = \<lparr>h_From = supervisorNode, h_To = next, h_Reason = d_Reason decision, h_Task = task\<rparr>;
                           w1 = EmitCustom ctx ((new_event EventCustom)
                             \<lparr>ev_Metadata := [''kind'' \<mapsto> AStr ''handoff'', ''from'' \<mapsto> AStr supervisorNode,
                                ''to'' \<mapsto> AStr next, ''reason'' \<mapsto> AStr (d_Reason decision)]\<rparr>) w
                       in (computed [(''next'', VString next), (''handoff'', VMap (handoffToMap h)),
                             (''messages'', VString (handoff_summary next (d_Reason decision))),
                             (''last_agent'', VString supervisorNode), (''step'', VInt (wrap64 (step + 1)))] s, w1)))))"

text \<open>The agent of a worker without its own \<open>Run\<close>.\<close>

definition worker_agent ::
  "('s, 'u) SupervisorConfig \<Rightarrow> ('s, 'u) WorkerSpec \<Rightarrow> ('s, 'u) Spec" where
  "worker_agent cfg w = spec_of
     \<lparr>sp_ID = ws_ID w,
      sp_SystemPrompt = (if ws_SystemPrompt w = '''' then sc_SystemPrompt cfg else ws_SystemPrompt w),
      sp_Provider = sc_Provider cfg, sp_Registry = sc_Registry cfg, sp_AllowTools = ws_AllowTools w,
      sp_MaxContext = sc_MaxContext cfg, sp_MaxIter = sc_MaxIterAgent cfg, sp_Stream = sc_Stream cfg,
      sp_Reporter = sc_Reporter cfg, sp_Events = sc_Events cfg,
      sp_Persist = (if sc_Durable cfg \<noteq> None then PersistSession else PersistNone),
      sp_Store = sc_Durable cfg\<rparr>"

definition worker_output ::
  "('s, 'u) Env \<Rightarrow> ('s, 'u) SupervisorConfig \<Rightarrow> ('s, 'u) WorkerSpec \<Rightarrow> ('s, 'u) RunFunc" where
  "worker_output env cfg wk ctx s task w =
     (case ws_Run wk of
        Some f \<Rightarrow> f ctx s task w
      | None \<Rightarrow>
          if sc_Provider cfg = None
          then ((Inl (Errorf ''orchestrator: worker %q needs Provider or Run'' [AStr (ws_ID wk)]), s), w)
          else
            (let spec = worker_agent cfg wk
             in case RunOnce (env_core env) spec ctx (formatWorkerPrompt env wk (GetString s ''goal'') task s)
                       (NewInstance (env_core env) spec) w of
                  ((text, Some e), a, w1) \<Rightarrow> ((Inl (Wrapf ''worker %q: %w'' [AStr (ws_ID wk)] e), s), w1)
                | ((text, None), a, w1) \<Rightarrow> ((Inr text, s), w1)))"

text \<open>The approval of a gated worker: nothing when the worker may run.\<close>

definition approval ::
  "('s, 'u) SupervisorConfig \<Rightarrow> ('s, 'u) WorkerSpec \<Rightarrow> ('s, 'u) Ctx \<Rightarrow> State \<Rightarrow> gerror option" where
  "approval cfg wk ctx s =
     (let h = HandoffFromMap (at_key s ''handoff'');
          task = (if h_Task h = '''' then GetString s ''goal'' else h_Task h)
      in if ws_ID wk \<notin> set (sc_RequireApprovalFor cfg) then None
         else (case InterruptOrResume ctx (VMap [''worker'' \<mapsto> VString (ws_ID wk), ''task'' \<mapsto> VString task,
                        ''reason'' \<mapsto> VString (h_Reason h), ''goal'' \<mapsto> VString (GetString s ''goal'')]) of
                 Inl e \<Rightarrow> Some e
               | Inr v \<Rightarrow> if approvalTruthy v then None else Some ErrApprovalDenied))"

definition worker_node ::
  "('s, 'u) Env \<Rightarrow> ('s, 'u) SupervisorConfig \<Rightarrow> ('s, 'u) WorkerSpec \<Rightarrow> ('s, 'u) NodeFunc" where
  "worker_node env cfg wk ctx s0 w0 =
     (let h = HandoffFromMap (at_key s0 ''handoff'');
          task = (if h_Task h = '''' then GetString s0 ''goal'' else h_Task h)
      in case approval cfg wk ctx s0 of
           Some e \<Rightarrow> (failed e s0, w0)
         | None \<Rightarrow>
             (case worker_output env cfg wk ctx s0 task w0 of
                ((Inl e, s), w) \<Rightarrow> (failed e s, w)
              | ((Inr out, s), w) \<Rightarrow>
                  (computed [(''last_agent'', VString (ws_ID wk)), (''last_output'', VString out),
                     (''messages'', VString (''['' @ ws_ID wk @ ''] '' @ truncate_str out 400))] s, w)))"

definition route_supervisor :: "('s, 'u) RouteFunc" where
  "route_supervisor ctx s =
     (let next = GetString s ''next'' in if next = '''' \<or> next = END then END else next)"

section \<open>The graph\<close>

fun add_workers ::
  "('s, 'u) Env \<Rightarrow> ('s, 'u) SupervisorConfig \<Rightarrow> ('s, 'u) WorkerSpec list \<Rightarrow> ('s, 'u) Builder
   \<Rightarrow> string + ('s, 'u) Builder" where
  "add_workers env cfg [] b = Inr b"
| "add_workers env cfg (wk # wks) b =
     and_then (AddNode (ws_ID wk) (Some (worker_node env cfg wk)) b)
       (\<lambda>b1. and_then (AddEdge (ws_ID wk) supervisorNode b1) (add_workers env cfg wks))"

definition supervisor_builder ::
  "('s, 'u) Env \<Rightarrow> ('s, 'u) LLM \<Rightarrow> ('s, 'u) SupervisorConfig \<Rightarrow> string + ('s, 'u) Builder" where
  "supervisor_builder env llm cfg =
     and_then (AddReducer ''messages'' (Some AppendSlice) NewBuilder)
       (\<lambda>b. and_then (AddNode supervisorNode (Some (supervisor_node env llm cfg)) b)
       (\<lambda>b. and_then (add_workers env cfg (sc_Workers cfg) b)
       (\<lambda>b. and_then (SetEntry supervisorNode b)
       (AddConditionalEdges supervisorNode (Some route_supervisor)))))"

text \<open>The ids of the workers: the first that is invalid or repeated.\<close>

fun check_workers :: "('s, 'u) WorkerSpec list \<Rightarrow> string set \<Rightarrow> gerror option" where
  "check_workers [] seen = None"
| "check_workers (w # ws) seen =
     (if ws_ID w = '''' \<or> ws_ID w = supervisorNode \<or> ws_ID w = END \<or> ws_ID w = START
      then Some (Errorf ''orchestrator: invalid worker id %q'' [AStr (ws_ID w)])
      else if ws_ID w \<in> seen
      then Some (Errorf ''orchestrator: duplicate worker id %q'' [AStr (ws_ID w)])
      else check_workers ws (insert (ws_ID w) seen))"

section \<open>RunSupervisor\<close>

definition supervisor_defaults ::
  "('s, 'u) Env \<Rightarrow> ('s, 'u) World \<Rightarrow> ('s, 'u) SupervisorConfig \<Rightarrow> ('s, 'u) SupervisorConfig" where
  "supervisor_defaults env w cfg = cfg\<lparr>
     sc_MaxSteps := (if sc_MaxSteps cfg \<le> 0 then 12 else sc_MaxSteps cfg),
     sc_MaxContext := (if sc_MaxContext cfg \<le> 0 then 1000000 else sc_MaxContext cfg),
     sc_MaxIterAgent := (if sc_MaxIterAgent cfg \<le> 0 then 100 else sc_MaxIterAgent cfg),
     sc_Reporter := (if sc_Reporter cfg = None then Some (env_Nop env) else sc_Reporter cfg),
     sc_Events := (if sc_Events cfg = None then Some (env_NewEmitter env) else sc_Events cfg),
     sc_ThreadID := (if sc_ThreadID cfg = '''' then ''supervisor-'' @ dec_int (UnixNano (w_clock w))
                     else sc_ThreadID cfg)\<rparr>"

type_synonym ('s, 'u) supervisor_outcome = "SupervisorResult \<times> gerror option \<times> ('s, 'u) World"

abbreviation result :: "string \<Rightarrow> State \<Rightarrow> SupervisorResult" where
  "result msg s \<equiv> \<lparr>sr_Message = msg, sr_State = s\<rparr>"

definition approve_command :: Command where
  "approve_command = \<lparr>cmd_Resume = VBool True, cmd_Update = None, cmd_Goto = ''''\<rparr>"

definition run_options :: "('s, 'u) SupervisorConfig \<Rightarrow> ('s, 'u) RunOption list" where
  "run_options cfg =
     [WithThreadID (sc_ThreadID cfg), WithMaxSteps (wrap64 (wrap64 (sc_MaxSteps cfg * 2) + 2))]
     @ (case sc_EventHandler cfg of None \<Rightarrow> [] | Some h \<Rightarrow> [WithEventHandler (Some h)])"

text \<open>
  One round of the loop that answers interrupts: the run's outcome, or the outcome of the
  resumed run. The result \<open>None\<close> is a resume that does not return; \<open>Inl\<close> is a panic: an
  error that is the bare sentinel \<open>ErrInterrupted\<close> has no interrupt to read the node from.
\<close>

definition interrupt_round ::
  "('s, 'u) Compiled \<Rightarrow> ('s, 'u) Ctx \<Rightarrow> ('s, 'u) SupervisorConfig \<Rightarrow> ('s, 'u) outcome
   \<Rightarrow> (string + ('s, 'u) supervisor_outcome) option + ('s, 'u) outcome" where
  "interrupt_round g ctx cfg st =
     (let (out, err, w) = st
      in if \<not> IsInterrupted err then
           Inl (Some (Inr (case err of
             Some e \<Rightarrow> (result '''' out, Some e, w)
           | None \<Rightarrow>
               (result (if GetString out ''last_output'' = '''' then ''Supervisor finished''
                        else GetString out ''last_output'') out, None, w))))
         else (case sc_OnInterrupt cfg of
           None \<Rightarrow> Inl (Some (Inr (result '''' out, err, w)))
         | Some ask \<Rightarrow>
             (case ctx_Err w of
                Some c \<Rightarrow> Inl (Some (Inr (result '''' out, Some c, w)))
              | None \<Rightarrow>
                  (case Option.bind err AsInterrupt of
                     None \<Rightarrow> Inl (Some (Inl ''nil pointer dereference''))
                   | Some ie \<Rightarrow>
                       (case ask ctx \<lparr>ii_ThreadID = sc_ThreadID cfg, ii_Node = ie_Node ie, ii_Value = ie_Value ie\<rparr> w of
                          (Inl e, w1) \<Rightarrow> Inl (Some (Inr (result '''' out, Some e, w1)))
                        | (Inr approve, w1) \<Rightarrow>
                            if \<not> approve
                            then Inl (Some (Inr (result ''Approval denied'' out, Some ErrApprovalDenied, w1)))
                            else (case ctx_Err w1 of
                                    Some c \<Rightarrow> Inl (Some (Inr (result '''' out, Some c, w1)))
                                  | None \<Rightarrow>
                                      (case Resume g ctx (sc_ThreadID cfg)
                                              (run_options cfg @ [WithCommand approve_command]) w1 of
                                         None \<Rightarrow> Inl None
                                       | Some st' \<Rightarrow> Inr st')))))))"

text \<open>The first run: a new one, or the continuation of the latest checkpoint.\<close>

definition first_run ::
  "('s, 'u) Compiled \<Rightarrow> (string \<Rightarrow> ('s, 'u) World \<Rightarrow> gerror + Snapshot option) \<Rightarrow> ('s, 'u) Ctx
   \<Rightarrow> ('s, 'u) SupervisorConfig \<Rightarrow> ('s, 'u) World
   \<Rightarrow> ('s, 'u) supervisor_outcome + ('s, 'u) outcome option" where
  "first_run g latest ctx cfg w =
     (if \<not> sc_ResumeFromCheckpoint cfg
      then Inr (Invoke g ctx [''goal'' \<mapsto> VString (sc_Goal cfg), ''max_steps'' \<mapsto> VInt (sc_MaxSteps cfg),
                  ''step'' \<mapsto> VInt 0, ''messages'' \<mapsto> VSlice []] (run_options cfg) w)
      else if sc_Checkpointer cfg = None \<and> sc_Durable cfg = None
      then Inl (result '''' Map.empty, Some (Errorf ''orchestrator: ResumeFromCheckpoint requires Checkpointer or Durable'' []), w)
      else (case latest (sc_ThreadID cfg) w of
         Inl e \<Rightarrow> Inl (result '''' Map.empty, Some e, w)
       | Inr None \<Rightarrow>
           Inl (result '''' Map.empty, Some (Errorf ''orchestrator: no checkpoint for thread %q'' [AStr (sc_ThreadID cfg)]), w)
       | Inr (Some snap) \<Rightarrow>
           if \<not> sn_Interrupt snap
           then Inr (Resume g ctx (sc_ThreadID cfg) (run_options cfg) w)
           else (case sc_OnInterrupt cfg of
              None \<Rightarrow> Inl (result '''' (sn_State snap),
                Some (Interrupted \<lparr>ie_Value = sn_InterruptValue snap, ie_Node = sn_Node snap\<rparr>), w)
            | Some ask \<Rightarrow>
                (case ask ctx \<lparr>ii_ThreadID = sc_ThreadID cfg, ii_Node = sn_Node snap, ii_Value = sn_InterruptValue snap\<rparr> w of
                   (Inl e, w1) \<Rightarrow> Inl (result '''' (sn_State snap), Some e, w1)
                 | (Inr approve, w1) \<Rightarrow>
                     if \<not> approve
                     then Inl (result ''Approval denied'' (sn_State snap), Some ErrApprovalDenied, w1)
                     else Inr (Resume g ctx (sc_ThreadID cfg) (run_options cfg @ [WithCommand approve_command]) w1)))))"

text \<open>
  \<open>RunSupervisor\<close>. \<open>Inl\<close> is a panic, \<open>None\<close> that it does not return. \<open>es\<close> and \<open>rs\<close> are the
  orders in which \<open>Compile\<close> ranges over the edges and routes.
\<close>

definition RunSupervisor ::
  "('s, 'u) Env \<Rightarrow> ('s, 'u) LLM \<Rightarrow> (string \<times> string) list \<Rightarrow> string list \<Rightarrow> ('s, 'u) Ctx
   \<Rightarrow> ('s, 'u) SupervisorConfig \<Rightarrow> ('s, 'u) World \<Rightarrow> (string + ('s, 'u) supervisor_outcome) option" where
  "RunSupervisor env llm es rs ctx cfg0 w0 =
     (let none = (\<lambda>e. Some (Inr (result '''' Map.empty, Some e, w0)))
      in if sc_Decide cfg0 = None \<and> sc_Provider cfg0 = None
         then none (Errorf ''orchestrator: supervisor requires Provider or Decide'' [])
         else if sc_Workers cfg0 = []
         then none (Errorf ''orchestrator: supervisor requires at least one worker'' [])
         else
           (let cfg = supervisor_defaults env w0 cfg0
            in case check_workers (sc_Workers cfg) {} of
                 Some e \<Rightarrow> none e
               | None \<Rightarrow>
                   (case supervisor_builder env llm cfg of
                      Inl p \<Rightarrow> Some (Inl p)
                    | Inr b \<Rightarrow>
                        (case supervisorStore env (sc_Checkpointer cfg) (sc_Durable cfg) (sc_Lease cfg) (sc_LeaseTTL cfg) w0 of
                           Inl e \<Rightarrow> none e
                         | Inr (opts, latest, w1) \<Rightarrow>
                             (case Compile opts es rs b of
                                Inl e \<Rightarrow> Some (Inr (result '''' Map.empty, Some e, w1))
                              | Inr g \<Rightarrow>
                                  (case first_run g latest ctx cfg w1 of
                                     Inl r \<Rightarrow> Some (Inr r)
                                   | Inr None \<Rightarrow> None
                                   | Inr (Some st) \<Rightarrow>
                                       Option.bind (go_loop (interrupt_round g ctx cfg) st) (\<lambda>r. r)))))))"

end
