(* ===== verification/Rounds.thy ===== *)
theory Rounds
  imports EngineFacts BuilderProps
begin

text \<open>
  Graphs whose rounds are counted by their state: an invariant over the state, the node and the
  step that every round keeps and that bounds the step. Such a graph returns from every run, and
  a step bound that is large enough never stops it. The presets of \<^verbatim>\<open>orchestrator/\<close> choose their
  bounds this way.
\<close>

section \<open>The step bound is only read by its check\<close>

abbreviation unbounded :: "('s, 'u) runConfig \<Rightarrow> ('s, 'u) runConfig" where
  "unbounded cfg \<equiv> cfg\<lparr>rc_maxSteps := 0\<rparr>"

lemma unbounded_fields:
  "rc_threadID (unbounded cfg) = rc_threadID cfg" "rc_runID (unbounded cfg) = rc_runID cfg"
  "rc_events (unbounded cfg) = rc_events cfg" "rc_leaseTTL (unbounded cfg) = rc_leaseTTL cfg"
  by simp_all

lemma unbounded_simps [simp]:
  "emit c (unbounded cfg) = emit c cfg"
  "enrichCtx c (unbounded cfg) = enrichCtx c cfg"
  "persist g (unbounded cfg) = persist g cfg"
  "new_snapshot (unbounded cfg) = new_snapshot cfg"
  unfolding fun_eq_iff emit_def enrichCtx_def persist_def new_snapshot_def unbounded_fields
  by simp_all

lemma unbounded_calls [simp]:
  "call_node (unbounded cfg) = call_node cfg"
  "on_interrupt g (unbounded cfg) = on_interrupt g cfg"
  "write_checkpoint g (unbounded cfg) = write_checkpoint g cfg"
  "emitRunEnd c (unbounded cfg) = emitRunEnd c cfg"
  unfolding fun_eq_iff call_node_def on_interrupt_def write_checkpoint_def emitRunEnd_def unbounded_simps
  by simp_all

text \<open>What the check makes of the round that would come next.\<close>

definition check_bound :: "('s, 'u) runConfig \<Rightarrow> ('s, 'u) run_state \<Rightarrow> ('s, 'u) outcome + ('s, 'u) run_state" where
  "check_bound cfg rs =
     (if rc_maxSteps cfg > 0 \<and> rs_step rs \<ge> rc_maxSteps cfg
      then Inl (rs_state rs, Some (Errorf ''graph: max steps %d exceeded'' [AInt (rc_maxSteps cfg)]), rs_world rs)
      else Inr rs)"

definition checked ::
  "('s, 'u) runConfig \<Rightarrow> ('s, 'u) outcome + ('s, 'u) run_state \<Rightarrow> ('s, 'u) outcome + ('s, 'u) run_state" where
  "checked cfg r = (case r of Inl x \<Rightarrow> Inl x | Inr rs \<Rightarrow> check_bound cfg rs)"

lemma checked_simps [simp]:
  "checked cfg (Inl x) = Inl x"
  "checked cfg (case z of None \<Rightarrow> a | Some y \<Rightarrow> f y) = (case z of None \<Rightarrow> checked cfg a | Some y \<Rightarrow> checked cfg (f y))"
  "checked cfg (if b then r1 else r2) = (if b then checked cfg r1 else checked cfg r2)"
  by (simp_all add: checked_def split: option.split)

lemma after_node_checked:
  "after_node g cfg c nc col upd n k p s w = checked cfg (after_node g (unbounded cfg) c nc col upd n k p s w)"
  unfolding after_node_def unbounded_simps unbounded_calls Let_def
  by (cases "next_node g (c\<lparr>ctx_Resume := VNil\<rparr>) n (Apply s upd (g_reducers g))")
    (auto simp: checked_def check_bound_def split: sum.split)

lemma run_body_checked: "run_body g cfg rs = checked cfg (run_body g (unbounded cfg) rs)"
  unfolding run_body_def handle_result_def unbounded_simps unbounded_calls Let_def
  by (simp add: after_node_checked [of g cfg] split: prod.split option.split)

lemma unbounded_body_Inl: "run_body g (unbounded cfg) rs = Inl x \<Longrightarrow> run_body g cfg rs = Inl x"
  by (simp add: run_body_checked [of g cfg])

lemma unbounded_body_Inr:
  "run_body g (unbounded cfg) rs = Inr rs' \<Longrightarrow> rs_step rs' < rc_maxSteps cfg \<Longrightarrow> run_body g cfg rs = Inr rs'"
  by (simp add: run_body_checked [of g cfg] checked_def check_bound_def)

section \<open>How a run ends\<close>

text \<open>Only a node of the end, or none, lets the loop return without an error.\<close>

lemma after_node_err: "after_node g cfg c nc col upd n k p s w = Inl (t, e, v) \<Longrightarrow> e \<noteq> None"
  by (auto simp: after_node_def write_checkpoint_def Let_def
      split: sum.splits prod.splits option.splits if_splits)

lemma on_interrupt_err: "on_interrupt g cfg nc col ie n k p s w = (t, e, v) \<Longrightarrow> e \<noteq> None"
  by (auto simp: on_interrupt_def Let_def split: prod.splits option.splits if_splits)

lemma run_body_end:
  assumes "run_body g cfg rs = Inl (t, None, v)"
  shows "rs_node rs \<in> {'''', END} \<and> t = rs_state rs \<and> v = rs_world rs"
  using assms
  by (auto simp: run_body_def handle_result_def Let_def dest!: after_node_err on_interrupt_err
      split: if_splits option.splits prod.splits)

section \<open>Counted rounds\<close>

locale counted_rounds =
  fixes g :: "('s, 'u) Compiled"
    and J :: "State \<Rightarrow> string \<Rightarrow> int \<Rightarrow> bool"
    and bound :: int
  assumes counted: "J s n k \<Longrightarrow> 0 \<le> k \<and> k < bound \<and> bound \<le> max_int64"
    and round: "J s n k \<Longrightarrow> n \<notin> {'''', END} \<Longrightarrow> g_nodes g n = Some fn \<Longrightarrow>
      fn c s w = (res, w') \<Longrightarrow> nr_Err res = None \<Longrightarrow>
      next_node g c' n (Apply (nr_State res) (nr_Update res) (g_reducers g)) = Inr n' \<Longrightarrow>
      J (Apply (nr_State res) (nr_Update res) (g_reducers g)) n' (k + 1)"
begin

abbreviation "counts rs \<equiv> J (rs_state rs) (rs_node rs) (rs_step rs)"

lemma body_keeps:
  assumes "counts rs" "run_body g cfg rs = Inr rs'"
  shows "counts rs' \<and> rs_step rs' = rs_step rs + 1"
  using assms(2)
proof (rule run_body_Inr)
  fix fn nodeCtx col res w1
  assume n: "rs_node rs \<noteq> ''''" "rs_node rs \<noteq> END" "g_nodes g (rs_node rs) = Some fn" "nr_Err res = None"
    and call: "call_node cfg fn (rs_ctx rs) (rs_state rs) (rs_node rs) (rs_step rs) (rs_parent rs)
       (rs_world rs) = (nodeCtx, col, res, w1)"
    and "after_node g cfg (rs_ctx rs) nodeCtx col (nr_Update res) (rs_node rs) (rs_step rs)
       (rs_parent rs) (nr_State res) w1 = Inr rs'"
  then obtain c' where a: "next_node g c' (rs_node rs)
        (Apply (nr_State res) (nr_Update res) (g_reducers g)) = Inr (rs_node rs')"
      "rs_state rs' = Apply (nr_State res) (nr_Update res) (g_reducers g)"
      "rs_step rs' = wrap64 (rs_step rs + 1)"
    by (auto elim!: after_node_Inr)
  obtain c w where "fn c (rs_state rs) w = (res, w1)"
    using call by (auto simp: call_node_def split: prod.splits)
  from round [OF assms(1) _ n(3) this n(4) a(1)] n(1,2)
  have "J (rs_state rs') (rs_node rs') (rs_step rs + 1)" unfolding a(2) by simp
  moreover have "rs_step rs' = rs_step rs + 1"
    using counted [OF assms(1)] a(3) by (simp add: wrap64_succ)
  ultimately show ?thesis by simp
qed

lemma run_halts:
  assumes "J s n k"
  shows "\<exists>out. run g c s n k p cfg w = Some out"
  unfolding run_def
proof (rule go_loop_returns [where I = counts and m = "\<lambda>rs. nat (bound - rs_step rs)"])
  fix rs rs'
  assume "counts rs" "run_body g cfg rs = Inr rs'"
  with body_keeps [OF this] counted
  have "counts rs'" "rs_step rs' = rs_step rs + 1" "rs_step rs' < bound" by blast+
  then show "counts rs' \<and> nat (bound - rs_step rs') < nat (bound - rs_step rs)" by simp
qed (use assms in simp)

lemma run_ends:
  assumes "J s n k" "run g c s n k p cfg w = Some (t, None, v)"
  shows "\<exists>m l. m \<in> {'''', END} \<and> J t m l"
proof -
  have "case (t, None :: gerror option, v) of (t, e, v) \<Rightarrow> e = None \<longrightarrow> (\<exists>m l. m \<in> {'''', END} \<and> J t m l)"
  proof (rule go_loop_invariant [OF assms(2) [unfolded run_def], where I = counts])
    fix rs r'
    assume I: "counts rs" and leave: "run_body g cfg rs = Inl r'"
    show "case r' of (t, e, v) \<Rightarrow> e = None \<longrightarrow> (\<exists>m l. m \<in> {'''', END} \<and> J t m l)"
      using I leave by (auto split: prod.splits dest!: run_body_end)
  next
    fix rs rs'
    assume "counts rs" "run_body g cfg rs = Inr rs'"
    then show "counts rs'" by (blast dest: body_keeps)
  qed (use assms(1) in simp)
  then show ?thesis by simp
qed

lemma run_unbounded:
  assumes "J s n k" "bound \<le> rc_maxSteps cfg"
  shows "run g c s n k p cfg w = run g c s n k p (unbounded cfg) w"
proof -
  let ?start = "\<lparr>rs_ctx = c, rs_state = s, rs_node = n, rs_step = k, rs_parent = p, rs_world = w\<rparr>"
  obtain out where out: "go_loop (run_body g (unbounded cfg)) ?start = Some out"
    using run_halts [OF assms(1), unfolded run_def] by blast
  have "\<exists>q. go_loop (run_body g cfg) ?start = Some q \<and> out = q"
  proof (rule go_loop_simulation [OF out, where R = "\<lambda>u v. u = v \<and> counts u"])
    fix u v u'
    assume R: "u = v \<and> counts u" and b: "run_body g (unbounded cfg) u = Inr u'"
    from body_keeps [OF conjunct2 [OF R] b] have "counts u'" by blast
    with counted assms(2) have "rs_step u' < rc_maxSteps cfg" by fastforce
    with unbounded_body_Inr [OF b] R \<open>counts u'\<close> show "\<exists>v'. run_body g cfg v = Inr v' \<and> u' = v' \<and> counts u'"
      by simp
  qed (use assms(1) unbounded_body_Inl in auto)
  then have "go_loop (run_body g cfg) ?start = Some out" by blast
  with out show ?thesis unfolding run_def by (rule trans [OF _ sym, rotated])
qed

section \<open>Invoke\<close>

lemma Invoke_returns:
  assumes "J input (g_entry g) 0"
  shows "\<exists>out. Invoke g c input opts w = Some out"
proof -
  have r: "\<exists>out. run g c input (g_entry g) 0 '''' cfg v = Some out" for c cfg v
    by (rule run_halts) (rule assms)
  obtain cfg v where p: "prepareRun g opts (w\<lparr>w_sess := None\<rparr>) = (cfg, v)" by fastforce
  show ?thesis
    unfolding Invoke_def p Let_def prod.case
    by (rule withLease_returns, rule outcome_returns, rule r)
qed

end

text \<open>A run that ends without error ended its body without error.\<close>

lemma withLease_Some:
  assumes "withLease g c cfg body w = Some (t, None, v)"
  shows "\<exists>c' w' v'. body c' w' = Some (t, None, v')"
  using assms
  by (auto simp: withLease_def Let_def split: option.splits sum.splits prod.splits)

lemma withLease_cong:
  assumes "\<And>c w. body c w = body' c w"
  shows "withLease g c cfg body w = withLease g c cfg body' w"
proof -
  have "body = body'" using assms by (simp add: fun_eq_iff)
  then show ?thesis by simp
qed

lemma withLease_unbounded: "withLease g c (unbounded cfg) body w = withLease g c cfg body w"
  unfolding withLease_def lease_ttl_def release_lease_def unbounded_simps unbounded_fields ..

text \<open>Dropping the step bound of a list of options, as the option \<open>WithMaxSteps 0\<close> at its end does.\<close>

lemma prepareRun_unbounded:
  "prepareRun g (opts @ [WithMaxSteps 0]) w = (case prepareRun g opts w of (cfg, v) \<Rightarrow> (unbounded cfg, v))"
  unfolding prepareRun_def fold_append comp_def fold.simps id_apply WithMaxSteps_def Let_def
  by (auto split: prod.split)

context counted_rounds
begin

lemma Invoke_ends:
  assumes "J input (g_entry g) 0" "Invoke g c input opts w = Some (t, None, v)"
  shows "\<exists>m l. m \<in> {'''', END} \<and> J t m l"
proof -
  obtain cfg u where p: "prepareRun g opts (w\<lparr>w_sess := None\<rparr>) = (cfg, u)" by fastforce
  obtain c' w' v' where "run g c' input (g_entry g) 0 '''' cfg w' = Some (t, None, v')"
    using assms(2) unfolding Invoke_def p Let_def prod.case
    by (auto dest!: withLease_Some split: option.splits)
  then show ?thesis by (rule run_ends [OF assms(1)])
qed

lemma Invoke_unbounded:
  assumes "J input (g_entry g) 0" "\<And>v. bound \<le> rc_maxSteps (fst (prepareRun g opts v))"
  shows "Invoke g c input opts w = Invoke g c input (opts @ [WithMaxSteps 0]) w"
proof -
  obtain cfg u where p: "prepareRun g opts (w\<lparr>w_sess := None\<rparr>) = (cfg, u)" by fastforce
  with assms(2) [of "w\<lparr>w_sess := None\<rparr>"] have b: "bound \<le> rc_maxSteps cfg" by simp
  show ?thesis
    unfolding Invoke_def prepareRun_unbounded p Let_def prod.case withLease_unbounded
    by (rule withLease_cong) (simp only: run_unbounded [OF assms(1) b] unbounded_simps unbounded_calls)
qed

end

section \<open>The graph a builder compiles to\<close>

lemma Compile_Inr: "Compile opts es rs b = Inr g \<Longrightarrow> g = graph_of opts b"
  by (auto simp: Compile_def graph_of_def options_of_def Let_def split: option.splits if_splits)

end
