(* ===== verification/PresetSamples.thy ===== *)
theory PresetSamples
  imports Presets Samples
begin

text \<open>
  A core module and an environment for the instances of the presets' properties: an agent that
  answers by calling \<open>attempt_completion\<close> with a verdict. Nothing here models code of the
  repository.
\<close>

definition sample_answer :: Message where
  "sample_answer = [''role'' \<mapsto> VString ''tool'', ''tool_name'' \<mapsto> VString ''attempt_completion'',
     ''content'' \<mapsto> VString ''VERIFY: PASS'']"

definition sample_core :: "('s, 'u) Core" where
  "sample_core = \<lparr>co_LoopCtx = (\<lambda>rn ctx m sys user w. (None, m\<lparr>mg_Messages := mg_Messages m @ [sample_answer]\<rparr>, w)),
     co_AppendSystem = (\<lambda>t m. m), co_AppendUser = (\<lambda>t m. m), co_View = (\<lambda>r ts. r), co_Schemas = (\<lambda>r. []),
     co_Emit = (\<lambda>e ev w. w)\<rparr>"

definition sample_env :: "(Memory, 'u) Env" where
  "sample_env = \<lparr>env_core = sample_core, env_Nop = 0, env_NewEmitter = 1, env_other = (\<lambda>v. ''?''),
     env_printable = (\<lambda>r. True), env_get = (\<lambda>s. s), env_put = (\<lambda>m s. m)\<rparr>"

definition preset_world :: "'u \<Rightarrow> (Memory, 'u) World" where
  "preset_world u = \<lparr>w_store = NewMemory, w_user = u, w_clock = 1000, w_rng = sample_rng,
     w_caller = None, w_cancel = None, w_sess = None, w_collectors = [], w_trace = []\<rparr>"

end
