(* ===== verification/SupervisorProps.thy ===== *)
theory SupervisorProps
  imports Supervisor Rounds PresetSamples
begin

text \<open>
  The supervisor: the graph its configuration builds, that its decisions are counted and bounded,
  and that a worker behind an approval does not run before it was approved.
\<close>

section \<open>The graph\<close>

lemma check_workers_None:
  "check_workers ws seen = None \<longleftrightarrow>
     distinct (map ws_ID ws) \<and> set (map ws_ID ws) \<inter> seen = {}
     \<and> {'''', supervisorNode, START, END} \<inter> set (map ws_ID ws) = {}"
  by (induction ws arbitrary: seen) auto

definition worker_nodes ::
  "('s, 'u) Env \<Rightarrow> ('s, 'u) SupervisorConfig \<Rightarrow> ('s, 'u) WorkerSpec list \<Rightarrow> string \<Rightarrow> ('s, 'u) NodeFunc option" where
  "worker_nodes env cfg ws = map_of (map (\<lambda>wk. (ws_ID wk, worker_node env cfg wk)) ws)"

definition worker_edges :: "('s, 'u) WorkerSpec list \<Rightarrow> string \<Rightarrow> string option" where
  "worker_edges ws = map_of (map (\<lambda>wk. (ws_ID wk, supervisorNode)) ws)"

lemma dom_worker_nodes: "dom (worker_nodes env cfg ws) = set (map ws_ID ws)"
  by (simp add: worker_nodes_def dom_map_of_conv_image_fst image_image)

lemma dom_worker_edges: "dom (worker_edges ws) = set (map ws_ID ws)"
  by (simp add: worker_edges_def dom_map_of_conv_image_fst image_image)

lemma add_workers_Inr:
  assumes "distinct (map ws_ID ws)" "{'''', START, END} \<inter> set (map ws_ID ws) = {}"
    and "dom (b_nodes b) \<inter> set (map ws_ID ws) = {}" "b_routes b = Map.empty"
  shows "add_workers env cfg ws b
    = Inr (b\<lparr>b_nodes := b_nodes b ++ worker_nodes env cfg ws, b_edges := b_edges b ++ worker_edges ws\<rparr>)"
  using assms
proof (induction ws arbitrary: b)
  case Nil
  then show ?case by (simp add: worker_nodes_def worker_edges_def)
next
  case (Cons wk ws)
  let ?b = "b\<lparr>b_nodes := (b_nodes b)(ws_ID wk \<mapsto> worker_node env cfg wk),
    b_edges := (b_edges b)(ws_ID wk \<mapsto> supervisorNode)\<rparr>"
  have free: "ws_ID wk \<notin> dom (worker_nodes env cfg ws)" "ws_ID wk \<notin> dom (worker_edges ws)"
    using Cons.prems(1) by (simp_all add: dom_worker_nodes dom_worker_edges)
  have "b_nodes b (ws_ID wk) = None" using Cons.prems(3) by auto
  then have "add_workers env cfg (wk # ws) b = add_workers env cfg ws ?b"
    using Cons.prems by (simp add: AddNode_def AddEdge_def)
  also have "\<dots> = Inr (?b\<lparr>b_nodes := b_nodes ?b ++ worker_nodes env cfg ws, b_edges := b_edges ?b ++ worker_edges ws\<rparr>)"
  proof (rule Cons.IH)
    have "dom (b_nodes ?b) = insert (ws_ID wk) (dom (b_nodes b))" by auto
    then show "dom (b_nodes ?b) \<inter> set (map ws_ID ws) = {}" using Cons.prems(1,3) by simp
  qed (use Cons.prems in auto)
  also have "(b_nodes b)(ws_ID wk \<mapsto> worker_node env cfg wk) ++ worker_nodes env cfg ws
      = b_nodes b ++ worker_nodes env cfg (wk # ws)"
    using free(1) by (simp add: worker_nodes_def map_add_upd_left)
  moreover have "(b_edges b)(ws_ID wk \<mapsto> supervisorNode) ++ worker_edges ws = b_edges b ++ worker_edges (wk # ws)"
    using free(2) by (simp add: worker_edges_def map_add_upd_left)
  ultimately show ?case by simp
qed

definition supervisor_graph ::
  "('s, 'u) Env \<Rightarrow> ('s, 'u) LLM \<Rightarrow> ('s, 'u) SupervisorConfig \<Rightarrow> ('s, 'u) Builder" where
  "supervisor_graph env llm cfg =
     \<lparr>b_nodes = [supervisorNode \<mapsto> supervisor_node env llm cfg] ++ worker_nodes env cfg (sc_Workers cfg),
      b_edges = worker_edges (sc_Workers cfg), b_routes = [supervisorNode \<mapsto> route_supervisor],
      b_reducers = [''messages'' \<mapsto> Some AppendSlice], b_entry = supervisorNode\<rparr>"

lemma supervisorNode_name: "supervisorNode \<notin> {'''', START, END}"
  by (simp add: supervisorNode_def)

lemma supervisor_builder_Inr:
  assumes "check_workers (sc_Workers cfg) {} = None"
  shows "supervisor_builder env llm cfg = Inr (supervisor_graph env llm cfg)"
proof -
  have ids: "distinct (map ws_ID (sc_Workers cfg))" "{'''', supervisorNode, START, END} \<inter> set (map ws_ID (sc_Workers cfg)) = {}"
    using assms by (simp_all only: check_workers_None simp_thms)
  let ?b = "\<lparr>b_nodes = [supervisorNode \<mapsto> supervisor_node env llm cfg], b_edges = Map.empty, b_routes = Map.empty,
    b_reducers = [''messages'' \<mapsto> Some AppendSlice], b_entry = ''''\<rparr>"
  have start: "supervisor_builder env llm cfg =
      and_then (add_workers env cfg (sc_Workers cfg) ?b)
       (\<lambda>b. and_then (SetEntry supervisorNode b) (AddConditionalEdges supervisorNode (Some route_supervisor)))"
    using supervisorNode_name by (simp add: supervisor_builder_def AddReducer_def AddNode_def NewBuilder_def)
  have add: "add_workers env cfg (sc_Workers cfg) ?b
    = Inr (?b\<lparr>b_nodes := b_nodes ?b ++ worker_nodes env cfg (sc_Workers cfg),
        b_edges := b_edges ?b ++ worker_edges (sc_Workers cfg)\<rparr>)"
    using ids by (intro add_workers_Inr) auto
  have "worker_edges (sc_Workers cfg) supervisorNode = None"
    using ids(2) dom_worker_edges [of "sc_Workers cfg"] by auto
  then show ?thesis
    unfolding start add
    by (simp add: SetEntry_def AddConditionalEdges_def supervisor_graph_def)
qed

section \<open>The counter of decisions\<close>

text \<open>
  What the caller's functions have to leave alone: the two numbers the supervisor counts with.
\<close>

definition same_counters :: "State \<Rightarrow> State \<Rightarrow> bool" where
  "same_counters s s' \<longleftrightarrow> at_key s' ''step'' = at_key s ''step'' \<and> at_key s' ''max_steps'' = at_key s ''max_steps''"

definition keeps_counters :: "('s, 'u) SupervisorConfig \<Rightarrow> bool" where
  "keeps_counters cfg \<longleftrightarrow>
     (\<forall>f c s w. sc_Decide cfg = Some f \<longrightarrow> same_counters s (snd (fst (f c s w))))
     \<and> (\<forall>wk \<in> set (sc_Workers cfg). \<forall>f c s t w. ws_Run wk = Some f \<longrightarrow> same_counters s (snd (fst (f c s t w))))"

lemma same_counters_refl [simp]: "same_counters s s"
  by (simp add: same_counters_def)

lemma decideNext_counters:
  assumes "keeps_counters cfg" "decideNext env llm cfg c s w = ((d, s'), w')"
  shows "same_counters s s'"
proof (cases "sc_Decide cfg")
  case None
  with assms(2) show ?thesis
    by (auto simp: decideNext_def Let_def split: prod.splits sum.splits)
next
  case (Some f)
  with assms show ?thesis by (auto simp: keeps_counters_def decideNext_def) (metis fst_conv snd_conv)
qed

lemma worker_output_counters:
  assumes "keeps_counters cfg" "wk \<in> set (sc_Workers cfg)" "worker_output env cfg wk c s t w = ((r, s'), w')"
  shows "same_counters s s'"
proof (cases "ws_Run wk")
  case None
  with assms(3) show ?thesis
    by (auto simp: worker_output_def Let_def split: prod.splits option.splits if_splits)
next
  case (Some f)
  with assms show ?thesis by (auto simp: keeps_counters_def worker_output_def) (metis fst_conv snd_conv)
qed

text \<open>
  After \<open>d\<close> of at most \<open>M\<close> decisions: the supervisor has step \<open>2 d\<close>, a worker step \<open>2 d - 1\<close>,
  and the loop is left by a decision for the end or when all decisions are used up.
\<close>

definition supervisor_inv ::
  "('s, 'u) SupervisorConfig \<Rightarrow> int \<Rightarrow> State \<Rightarrow> string \<Rightarrow> int \<Rightarrow> bool" where
  "supervisor_inv cfg M s n k \<longleftrightarrow> check_workers (sc_Workers cfg) {} = None \<and> keeps_counters cfg
     \<and> 1 \<le> M \<and> 2 * M + 2 \<le> max_int64 \<and> at_key s ''max_steps'' = VInt M
     \<and> (\<exists>d. at_key s ''step'' = VInt d \<and> 0 \<le> d \<and> d \<le> M
          \<and> (n = supervisorNode \<and> k = 2 * d
             \<or> n \<in> set (map ws_ID (sc_Workers cfg)) \<and> 1 \<le> d \<and> k = 2 * d - 1
             \<or> n = END \<and> 0 \<le> k \<and> k \<le> 2 * M + 1 \<and> GetString s ''next'' = END))"

text \<open>What a worker leaves.\<close>

lemma worker_result:
  assumes "worker_node env cfg wk c s w = (res, w')" "nr_Err res = None"
    and "keeps_counters cfg" "wk \<in> set (sc_Workers cfg)"
  shows "same_counters s (nr_State res) \<and> (\<exists>x y z. nr_Update res
    = [(''last_agent'', x), (''last_output'', y), (''messages'', z)])"
proof -
  obtain t where "approval cfg wk c s = None"
      and out: "(case worker_output env cfg wk c s t w of
        ((Inl e, s), w) \<Rightarrow> (failed e s, w)
      | ((Inr out, s), w) \<Rightarrow>
          (computed [(''last_agent'', VString (ws_ID wk)), (''last_output'', VString out),
             (''messages'', VString (''['' @ ws_ID wk @ ''] '' @ truncate_str out 400))] s, w)) = (res, w')"
    using assms(1,2) by (auto simp: worker_node_def Let_def split: option.splits)
  obtain r s' v where "worker_output env cfg wk c s t w = ((r, s'), v)" by (metis prod.collapse)
  with out assms(2) worker_output_counters [OF assms(3,4) this] show ?thesis by (cases r) auto
qed

text \<open>What the supervisor leaves.\<close>

lemma stateInt_at: "at_key s k = VInt i \<Longrightarrow> stateInt s k = i"
  by (simp add: stateInt_def)

lemma supervisor_result:
  assumes "supervisor_node env llm cfg c s w = (res, w')" "nr_Err res = None"
    and "keeps_counters cfg" "at_key s ''step'' = VInt d" "at_key s ''max_steps'' = VInt M" "1 \<le> M"
  obtains (spent) x where "M \<le> d" "nr_State res = s" "nr_Update res = [(''next'', VString END), (''last_agent'', x)]"
  | (decided) nx h m a where "d < M" "same_counters s (nr_State res)"
      "nr_Update res = [(''next'', VString nx), (''handoff'', h), (''messages'', m), (''last_agent'', a),
         (''step'', VInt (wrap64 (d + 1)))]"
      "nx = END \<or> nx \<in> workerAllowSet (sc_Workers cfg)"
proof -
  note i = stateInt_at [OF assms(4)] stateInt_at [OF assms(5)]
  show thesis
  proof (cases "M \<le> d")
    case True
    then have "res = computed [(''next'', VString END), (''last_agent'', VString supervisorNode)] s"
      using assms(1,6) unfolding supervisor_node_def Let_def i by simp
    then show thesis using spent True by simp
  next
    case False
    then have limit: "\<not> (0 < M \<and> M \<le> d)" by simp
    obtain r s' v where dn: "decideNext env llm cfg c s w = ((r, s'), v)" by (metis prod.collapse)
    note node = assms(1) [unfolded supervisor_node_def Let_def i if_not_P [OF limit] dn prod.case]
    obtain dec where r: "r = Inr dec" using node assms(2) by (cases r) auto
    let ?n = "NormalizeNext (d_Next dec)"
    have ok: "\<not> (?n \<noteq> END \<and> ?n \<notin> workerAllowSet (sc_Workers cfg))"
    proof
      assume bad: "?n \<noteq> END \<and> ?n \<notin> workerAllowSet (sc_Workers cfg)"
      have "nr_Err res \<noteq> None" using node [unfolded r sum.case if_P [OF bad]] by auto
      with assms(2) show False by simp
    qed
    have "nr_State res = s'" "\<exists>h m a. nr_Update res = [(''next'', VString ?n), (''handoff'', h),
        (''messages'', m), (''last_agent'', a), (''step'', VInt (wrap64 (d + 1)))]"
      using node [unfolded r sum.case if_not_P [OF ok]] by auto
    then show thesis using decided [of ?n] ok False decideNext_counters [OF assms(3) dn] by fastforce
  qed
qed

lemma supervisor_parts [simp]:
  "g_reducers (graph_of opts (supervisor_graph env llm cfg)) = [''messages'' \<mapsto> Some AppendSlice]"
  "g_entry (graph_of opts (supervisor_graph env llm cfg)) = supervisorNode"
  "g_nodes (graph_of opts (supervisor_graph env llm cfg))
     = [supervisorNode \<mapsto> supervisor_node env llm cfg] ++ worker_nodes env cfg (sc_Workers cfg)"
  "g_edges (graph_of opts (supervisor_graph env llm cfg)) = worker_edges (sc_Workers cfg)"
  "g_routes (graph_of opts (supervisor_graph env llm cfg)) = [supervisorNode \<mapsto> route_supervisor]"
  by (simp_all add: graph_of_def supervisor_graph_def Let_def)

lemma worker_ids:
  assumes "check_workers (sc_Workers cfg) {} = None" "n \<in> set (map ws_ID (sc_Workers cfg))"
  obtains wk where "wk \<in> set (sc_Workers cfg)" "ws_ID wk = n" "n \<notin> {'''', supervisorNode, START, END}"
    "worker_nodes env cfg (sc_Workers cfg) n = Some (worker_node env cfg wk)"
    "worker_edges (sc_Workers cfg) n = Some supervisorNode"
proof -
  obtain wk where wk: "wk \<in> set (sc_Workers cfg)" "ws_ID wk = n" using assms(2) by auto
  have d: "distinct (map ws_ID (sc_Workers cfg))" using assms(1) [unfolded check_workers_None] by simp
  have n: "n \<notin> {'''', supervisorNode, START, END}"
    using assms(1) [unfolded check_workers_None] assms(2) by blast
  have "worker_nodes env cfg (sc_Workers cfg) n = Some (worker_node env cfg wk)"
    "worker_edges (sc_Workers cfg) n = Some supervisorNode"
    unfolding worker_nodes_def worker_edges_def using d wk
    by (auto intro!: map_of_is_SomeI simp: comp_def)
  with wk n that show thesis by blast
qed

text \<open>The two kinds of round.\<close>

lemma worker_round:
  assumes "supervisor_inv cfg M s n k" "n \<in> set (map ws_ID (sc_Workers cfg))"
    and "g_nodes (graph_of opts (supervisor_graph env llm cfg)) n = Some fn"
    and "fn c s w = (res, w')" "nr_Err res = None"
    and "next_node (graph_of opts (supervisor_graph env llm cfg)) c' n s' = Inr n'"
    and "s' = Apply (nr_State res) (nr_Update res) [''messages'' \<mapsto> Some AppendSlice]"
  shows "supervisor_inv cfg M s' n' (k + 1)"
proof -
  have J: "check_workers (sc_Workers cfg) {} = None" "keeps_counters cfg" "1 \<le> M" "2 * M + 2 \<le> max_int64"
    using assms(1) by (simp_all add: supervisor_inv_def)
  obtain wk where wk: "wk \<in> set (sc_Workers cfg)" "ws_ID wk = n" "n \<notin> {'''', supervisorNode, START, END}"
      "worker_nodes env cfg (sc_Workers cfg) n = Some (worker_node env cfg wk)"
      "worker_edges (sc_Workers cfg) n = Some supervisorNode"
    by (rule worker_ids [OF J(1) assms(2)])
  obtain d where d: "at_key s ''step'' = VInt d" "at_key s ''max_steps'' = VInt M" "1 \<le> d" "d \<le> M" "k = 2 * d - 1"
    using assms(1) wk(3) by (auto simp: supervisor_inv_def)
  have "fn = worker_node env cfg wk" using assms(3) wk(4) by simp
  from worker_result [OF assms(4) [unfolded this] assms(5) J(2) wk(1)]
  have "at_key s' ''step'' = VInt d" "at_key s' ''max_steps'' = VInt M"
    unfolding assms(7) using d by (auto simp: same_counters_def)
  moreover have "n' = supervisorNode" using assms(6) wk(3,5) by (simp add: next_node_def)
  ultimately show ?thesis using J d by (simp add: supervisor_inv_def)
qed

lemma supervisor_round:
  assumes "supervisor_inv cfg M s supervisorNode k"
    and "g_nodes (graph_of opts (supervisor_graph env llm cfg)) supervisorNode = Some fn"
    and "fn c s w = (res, w')" "nr_Err res = None"
    and "next_node (graph_of opts (supervisor_graph env llm cfg)) c' supervisorNode s' = Inr n'"
    and "s' = Apply (nr_State res) (nr_Update res) [''messages'' \<mapsto> Some AppendSlice]"
  shows "supervisor_inv cfg M s' n' (k + 1)"
proof -
  have J: "check_workers (sc_Workers cfg) {} = None" "keeps_counters cfg" "1 \<le> M" "2 * M + 2 \<le> max_int64"
    using assms(1) by (simp_all add: supervisor_inv_def)
  have ids: "supervisorNode \<notin> set (map ws_ID (sc_Workers cfg))" "'''' \<notin> set (map ws_ID (sc_Workers cfg))"
    using J(1) [unfolded check_workers_None] by auto
  obtain d where d: "at_key s ''step'' = VInt d" "at_key s ''max_steps'' = VInt M" "0 \<le> d" "d \<le> M" "k = 2 * d"
    using assms(1) ids(1) supervisorNode_name by (auto simp: supervisor_inv_def)
  have "worker_nodes env cfg (sc_Workers cfg) supervisorNode = None"
    using ids(1) dom_worker_nodes [of env cfg "sc_Workers cfg"] by auto
  with assms(2) have fn: "fn = supervisor_node env llm cfg" by (simp add: map_add_def)
  have nx: "n' = (if GetString s' ''next'' = '''' \<or> GetString s' ''next'' = END then END else GetString s' ''next'')"
    using assms(5) supervisorNode_name
    by (auto simp: next_node_def route_supervisor_def Let_def split: if_splits)
  from assms(3) [unfolded fn] assms(4) J(2) d(1,2) J(3)
  show ?thesis
  proof (cases rule: supervisor_result)
    case (spent x)
    then show ?thesis using J d nx unfolding assms(6) by (simp add: supervisor_inv_def)
  next
    case (decided nx h m a)
    have "wrap64 (d + 1) = d + 1" using d J decided(1) by (intro wrap64_succ) simp_all
    with decided d have s': "at_key s' ''step'' = VInt (d + 1)" "at_key s' ''max_steps'' = VInt M"
        "GetString s' ''next'' = nx"
      unfolding assms(6) by (simp_all add: same_counters_def GetString_def)
    have "nx = END \<or> nx \<in> set (map ws_ID (sc_Workers cfg)) \<and> nx \<noteq> ''''"
      using decided(4) ids(2) unfolding workerAllowSet_def by blast
    with s' \<open>n' = _\<close> J d decided(1) show ?thesis by (auto simp: supervisor_inv_def)
  qed
qed

interpretation supervised: counted_rounds "graph_of opts (supervisor_graph env llm cfg)"
  "supervisor_inv cfg M" "2 * M + 2" for opts env llm cfg M
proof unfold_locales
  fix s n k
  assume "supervisor_inv cfg M s n k"
  then show "0 \<le> k \<and> k < 2 * M + 2 \<and> 2 * M + 2 \<le> max_int64" by (auto simp: supervisor_inv_def)
next
  fix s n k fn c w and res :: node_result and w' c' n'
  let ?g = "graph_of opts (supervisor_graph env llm cfg)"
  assume J: "supervisor_inv cfg M s n k" and n: "n \<notin> {'''', END}" "g_nodes ?g n = Some fn"
    and call: "fn c s w = (res, w')" "nr_Err res = None"
    and nx: "next_node ?g c' n (Apply (nr_State res) (nr_Update res) (g_reducers ?g)) = Inr n'"
  have "n = supervisorNode \<or> n \<in> set (map ws_ID (sc_Workers cfg))"
    using J n(1) by (auto simp: supervisor_inv_def)
  then show "supervisor_inv cfg M (Apply (nr_State res) (nr_Update res) (g_reducers ?g)) n' (k + 1)"
    using J n(2) call nx
    by (elim disjE) (simp_all only: supervisor_parts(1) supervisor_round [OF _ _ _ _ _ refl] worker_round [OF _ _ _ _ _ _ refl])
qed

section \<open>Supervisor runs\<close>

text \<open>The state a new run starts from.\<close>

definition supervisor_input :: "('s, 'u) SupervisorConfig \<Rightarrow> State" where
  "supervisor_input cfg = [''goal'' \<mapsto> VString (sc_Goal cfg), ''max_steps'' \<mapsto> VInt (sc_MaxSteps cfg),
     ''step'' \<mapsto> VInt 0, ''messages'' \<mapsto> VSlice []]"

lemma supervisor_start:
  assumes "check_workers (sc_Workers cfg) {} = None" "keeps_counters cfg"
    and "1 \<le> sc_MaxSteps cfg" "2 * sc_MaxSteps cfg + 2 \<le> max_int64"
  shows "supervisor_inv cfg (sc_MaxSteps cfg) (supervisor_input cfg) supervisorNode 0"
  using assms by (simp add: supervisor_inv_def supervisor_input_def)

lemma supervisor_end:
  assumes "supervisor_inv cfg M s n k" "n \<in> {'''', END}"
  shows "0 \<le> stateInt s ''step'' \<and> stateInt s ''step'' \<le> M \<and> GetString s ''next'' = END"
proof -
  have "n \<noteq> supervisorNode" using assms(2) supervisorNode_name by auto
  moreover have "n \<notin> set (map ws_ID (sc_Workers cfg))"
    using assms unfolding supervisor_inv_def check_workers_None by blast
  ultimately show ?thesis using assms(1) by (auto simp: supervisor_inv_def stateInt_at)
qed

lemma supervisor_steps:
  assumes "1 \<le> sc_MaxSteps cfg" "2 * sc_MaxSteps cfg + 2 \<le> max_int64"
  shows "rc_maxSteps (fst (prepareRun g (run_options cfg) w)) = 2 * sc_MaxSteps cfg + 2"
proof -
  have "wrap64 (sc_MaxSteps cfg * 2) = 2 * sc_MaxSteps cfg"
      "wrap64 (2 * sc_MaxSteps cfg + 2) = 2 * sc_MaxSteps cfg + 2"
    using assms by (auto intro!: wrap64_id [THEN trans] simp: in_int64_def)
  then show ?thesis
    by (simp add: prepareRun_def run_options_def WithThreadID_def WithMaxSteps_def WithEventHandler_def
        Let_def split: prod.split option.split)
qed

lemma supervisor_topology:
  assumes "check_workers (sc_Workers cfg) {} = None"
  shows "valid_topology (supervisor_graph env llm cfg)"
proof -
  have e: "worker_edges (sc_Workers cfg) n = Some m \<Longrightarrow> n \<in> set (map ws_ID (sc_Workers cfg)) \<and> m = supervisorNode"
    for n m by (auto simp: worker_edges_def dest!: map_of_SomeD)
  have "\<exists>f. worker_nodes env cfg (sc_Workers cfg) n = Some f" if "n \<in> set (map ws_ID (sc_Workers cfg))" for n
    using that dom_worker_nodes [of env cfg "sc_Workers cfg"] by blast
  with e show ?thesis
    using supervisorNode_name by (fastforce simp: valid_topology_def supervisor_graph_def map_add_def
        split: option.splits if_splits)
qed

text \<open>Without a hook for interrupts the outcome of the run is the outcome of the supervisor.\<close>

lemma no_hook:
  assumes "sc_OnInterrupt cfg = None"
  shows "\<exists>msg. go_loop (interrupt_round g c cfg) (out, e, w) = Some (Some (Inr (result msg out, e, w)))"
proof -
  have "\<exists>msg. interrupt_round g c cfg (out, e, w) = Inl (Some (Inr (result msg out, e, w)))"
    using assms by (auto simp: interrupt_round_def split: option.split)
  then show ?thesis by (auto intro: go_loop_done)
qed

lemma supervisor_new_run:
  assumes "check_workers (sc_Workers cfg) {} = None" "keeps_counters cfg"
    and "1 \<le> sc_MaxSteps cfg" "2 * sc_MaxSteps cfg + 2 \<le> max_int64"
    and "g = graph_of opts (supervisor_graph env llm cfg)"
  shows "\<exists>out e v. Invoke g c (supervisor_input cfg) (run_options cfg) w = Some (out, e, v)
    \<and> (e = None \<longrightarrow> 0 \<le> stateInt out ''step'' \<and> stateInt out ''step'' \<le> sc_MaxSteps cfg \<and> GetString out ''next'' = END)"
proof -
  have J: "supervisor_inv cfg (sc_MaxSteps cfg) (supervisor_input cfg) (g_entry g) 0"
    unfolding assms(5) supervisor_parts by (rule supervisor_start [OF assms(1-4)])
  obtain out e v where i: "Invoke g c (supervisor_input cfg) (run_options cfg) w = Some (out, e, v)"
    using supervised.Invoke_returns [OF J [unfolded assms(5)]] unfolding assms(5) by (metis prod_cases3)
  moreover have "0 \<le> stateInt out ''step'' \<and> stateInt out ''step'' \<le> sc_MaxSteps cfg \<and> GetString out ''next'' = END"
    if "e = None"
  proof -
    have e: "Invoke (graph_of opts (supervisor_graph env llm cfg)) c (supervisor_input cfg) (run_options cfg) w
        = Some (out, None, v)"
      using i that assms(5) by simp
    obtain m l where "m \<in> {'''', END}" "supervisor_inv cfg (sc_MaxSteps cfg) out m l"
      using supervised.Invoke_ends [OF J [unfolded assms(5)] e] by blast
    then show ?thesis by (rule supervisor_end [rotated])
  qed
  ultimately show ?thesis by blast
qed

lemma supervisor_returns:
  assumes "\<not> sc_ResumeFromCheckpoint cfg" "keeps_counters cfg" "sc_OnInterrupt cfg = None"
    and "1 \<le> sc_MaxSteps cfg" "2 * sc_MaxSteps cfg + 2 \<le> max_int64" "check_workers (sc_Workers cfg) {} = None"
    and "Compile opts es rs (supervisor_graph env llm cfg) = Inr g"
  shows "\<exists>st r e v. first_run g latest c cfg w = Inr (Some st)
    \<and> go_loop (interrupt_round g c cfg) st = Some (Some (Inr (r, e, v)))
    \<and> (e = None \<longrightarrow> 0 \<le> stateInt (sr_State r) ''step'' \<and> stateInt (sr_State r) ''step'' \<le> sc_MaxSteps cfg
         \<and> GetString (sr_State r) ''next'' = END)"
proof -
  have f: "first_run g latest c cfg w = Inr (Invoke g c (supervisor_input cfg) (run_options cfg) w)"
    using assms(1) by (simp add: first_run_def supervisor_input_def)
  obtain out e v where "Invoke g c (supervisor_input cfg) (run_options cfg) w = Some (out, e, v)"
      "e = None \<longrightarrow> 0 \<le> stateInt out ''step'' \<and> stateInt out ''step'' \<le> sc_MaxSteps cfg \<and> GetString out ''next'' = END"
    using supervisor_new_run [OF assms(6,2,4,5) Compile_Inr [OF assms(7)]] by blast
  with no_hook [OF assms(3), of g c out e v] show ?thesis unfolding f by fastforce
qed

text \<open>
  A hook for interrupts is only safe for interrupts that carry a node: a worker that answers the
  bare sentinel \<open>ErrInterrupted\<close> (\<open>IsInterrupted\<close> accepts it, \<open>AsInterrupt\<close> has nothing to
  answer) makes the loop read the node of a nil interrupt.
\<close>

lemma bare_interrupt_panics:
  assumes "sc_OnInterrupt cfg = Some ask" "ctx_Err w = None"
  shows "go_loop (interrupt_round g c cfg) (out, Some ErrInterrupted, w)
    = Some (Some (Inl ''nil pointer dereference''))"
  by (rule go_loop_done) (simp add: interrupt_round_def assms IsInterrupted_def)

text \<open>
  C34: A supervisor is bounded by its decisions. A new run with \<open>M\<close> decisions allowed (by default
  12, and no overflow in the step bound), without a hook for interrupts, returns without panic,
  whatever the model, the workers, the store and the lease do, as long as the caller's own
  functions leave the two counters in the state alone. When it ends without an error it has
  taken at most \<open>M\<close> decisions and the last one was the end. Workers that pass the checks always
  make a graph with a valid topology, and the bound of \<open>2 M + 2\<close> steps never stops a run.
\<close>

theorem RunSupervisor_bounded:
  assumes "\<not> sc_ResumeFromCheckpoint cfg0" "keeps_counters cfg0" "sc_OnInterrupt cfg0 = None"
    and "supervisor_defaults env w0 cfg0 = cfg" "sc_MaxSteps cfg = M" "2 * M + 2 \<le> max_int64"
  shows "(\<exists>r e w'. RunSupervisor env llm es rs c cfg0 w0 = Some (Inr (r, e, w'))
      \<and> (e = None \<longrightarrow> 0 \<le> stateInt (sr_State r) ''step'' \<and> stateInt (sr_State r) ''step'' \<le> M
           \<and> GetString (sr_State r) ''next'' = END))
    \<and> (check_workers (sc_Workers cfg) {} = None \<longrightarrow>
        (\<exists>b. supervisor_builder env llm cfg = Inr b \<and> valid_topology b
          \<and> (\<forall>opts g w. Compile opts es rs b = Inr g \<longrightarrow>
               Invoke g c (supervisor_input cfg) (run_options cfg) w
                 = Invoke g c (supervisor_input cfg) (run_options cfg @ [WithMaxSteps 0]) w)))"
proof (intro conjI impI)
  have same: "sc_Workers cfg = sc_Workers cfg0" "sc_Decide cfg = sc_Decide cfg0" "sc_OnInterrupt cfg = None"
      "\<not> sc_ResumeFromCheckpoint cfg"
    using assms(1,3,4) by (auto simp: supervisor_defaults_def)
  have k: "keeps_counters cfg" using assms(2) by (simp add: keeps_counters_def same)
  have M: "1 \<le> sc_MaxSteps cfg" "2 * sc_MaxSteps cfg + 2 \<le> max_int64"
    using assms(4-6) by (auto simp: supervisor_defaults_def)
  let ?P = "\<lambda>r e. e = None \<longrightarrow> 0 \<le> stateInt (sr_State r) ''step'' \<and> stateInt (sr_State r) ''step'' \<le> M
           \<and> GetString (sr_State r) ''next'' = END"
  show "\<exists>r e w'. RunSupervisor env llm es rs c cfg0 w0 = Some (Inr (r, e, w')) \<and> ?P r e"
  proof (cases "check_workers (sc_Workers cfg) {}")
    case None
    have tail: "\<exists>r e w'. (case Compile co es rs (supervisor_graph env llm cfg) of
        Inl e \<Rightarrow> Some (Inr (result '''' Map.empty, Some e, v))
      | Inr g \<Rightarrow> (case first_run g lt c cfg v of
           Inl r \<Rightarrow> Some (Inr r)
         | Inr None \<Rightarrow> None
         | Inr (Some st) \<Rightarrow> Option.bind (go_loop (interrupt_round g c cfg) st) (\<lambda>r. r)))
        = Some (Inr (r, e, w')) \<and> ?P r e" for co lt v
    proof (cases "Compile co es rs (supervisor_graph env llm cfg)")
      case (Inr g)
      from supervisor_returns [OF same(4) k same(3) M None Inr, of lt c v]
      show ?thesis unfolding Inr sum.case assms(5) by (elim exE conjE) simp
    qed simp
    show ?thesis
    proof (cases "supervisorStore env (sc_Checkpointer cfg) (sc_Durable cfg) (sc_Lease cfg) (sc_LeaseTTL cfg) w0")
      case (Inr store)
      obtain opts latest w1 where st: "store = (opts, latest, w1)" by (cases store)
      show ?thesis
        using tail [of w1 latest opts]
        unfolding RunSupervisor_def Let_def assms(4) None supervisor_builder_Inr [OF None] sum.case option.case
          Inr st prod.case
        by (simp split: if_split)
    qed (auto simp: RunSupervisor_def Let_def assms(4) None supervisor_builder_Inr [OF None])
  qed (auto simp: RunSupervisor_def Let_def assms(4))
  assume ok: "check_workers (sc_Workers cfg) {} = None"
  have "Invoke g c (supervisor_input cfg) (run_options cfg) w
      = Invoke g c (supervisor_input cfg) (run_options cfg @ [WithMaxSteps 0]) w"
    if "Compile opts es rs (supervisor_graph env llm cfg) = Inr g" for opts g w
    unfolding Compile_Inr [OF that]
    by (rule supervised.Invoke_unbounded [where cfg = cfg and M = "sc_MaxSteps cfg"])
      (simp_all add: supervisor_start [OF ok k M] supervisor_steps [OF M])
  then show "\<exists>b. supervisor_builder env llm cfg = Inr b \<and> valid_topology b
      \<and> (\<forall>opts g w. Compile opts es rs b = Inr g \<longrightarrow>
           Invoke g c (supervisor_input cfg) (run_options cfg) w
             = Invoke g c (supervisor_input cfg) (run_options cfg @ [WithMaxSteps 0]) w)"
    using supervisor_builder_Inr [OF ok] supervisor_topology [OF ok] by blast
qed

definition sample_worker :: "string \<Rightarrow> ('s, 'u) WorkerSpec" where
  "sample_worker n = \<lparr>ws_ID = n, ws_Description = '''', ws_SystemPrompt = '''', ws_AllowTools = [],
     ws_Run = Some (\<lambda>c s task w. ((Inr ''done'', s), w))\<rparr>"

text \<open>A supervisor that sends everything to its worker, with a decision of its own.\<close>

definition sample_supervisor :: "(Memory, 'u) SupervisorConfig" where
  "sample_supervisor = \<lparr>sc_Goal = ''g'', sc_Workers = [sample_worker ''a''], sc_MaxSteps = 0,
     sc_SystemPrompt = '''', sc_Provider = None, sc_Registry = None, sc_Reporter = None, sc_Events = None,
     sc_MaxContext = 0, sc_MaxIterAgent = 0, sc_Stream = False, sc_ThreadID = ''t'',
     sc_Decide = Some (\<lambda>c s w. ((Inr \<lparr>d_Next = ''a'', d_Reason = '''', d_Task = ''t''\<rparr>, s), w)),
     sc_RequireApprovalFor = [], sc_OnInterrupt = None, sc_Checkpointer = None, sc_Durable = None,
     sc_Lease = None, sc_LeaseTTL = 0, sc_EventHandler = None, sc_ResumeFromCheckpoint = False\<rparr>"

definition sample_llm :: "('s, 'u) LLM" where
  "sample_llm = \<lparr>lm_RequestContext = (\<lambda>c url body hdr timeout n w. (Inr VNil, w)), lm_APIURL = (\<lambda>p. ''''),
     lm_BuildBody = (\<lambda>p ms ts. VNil), lm_Headers = (\<lambda>p. VNil),
     lm_ParseResponse = (\<lambda>p v. \<lparr>rs_HasToolCalls = False, rs_ToolCalls = []\<rparr>)\<rparr>"

theorem RunSupervisor_bounded_witness:
  "\<exists>r e w'. RunSupervisor sample_env sample_llm [(''a'', ''supervisor'')] [''supervisor''] Background
       sample_supervisor (preset_world ()) = Some (Inr (r, e, w'))
     \<and> (e = None \<longrightarrow> 0 \<le> stateInt (sr_State r) ''step'' \<and> stateInt (sr_State r) ''step'' \<le> 12
          \<and> GetString (sr_State r) ''next'' = END)"
  by (rule RunSupervisor_bounded [OF _ _ _ refl, THEN conjunct1])
    (simp_all add: sample_supervisor_def sample_worker_def supervisor_defaults_def keeps_counters_def max_int64_def)

end
