(* ===== verification/Approvals.thy ===== *)
theory Approvals
  imports SupervisorProps
begin

text \<open>
  The approval gate: as long as no answer approves, a worker that requires approval does not run.
  It is stated by exchange: whatever is put in its place, nothing changes.
\<close>

section \<open>Graphs that differ in guarded nodes\<close>

text \<open>
  A graph, and other functions for its nodes that do the same when the resume value of their
  context does not satisfy \<open>key\<close>.
\<close>

locale guarded_nodes =
  fixes g :: "('s, 'u) Compiled"
    and N :: "string \<Rightarrow> ('s, 'u) NodeFunc option"
    and key :: "gval \<Rightarrow> bool"
  assumes names: "N n = None \<longleftrightarrow> g_nodes g n = None"
    and agree: "g_nodes g n = Some f \<Longrightarrow> N n = Some f' \<Longrightarrow> \<not> key (ctx_Resume c) \<Longrightarrow> f' c s w = f c s w"
    and nil: "\<not> key VNil"
begin

abbreviation "g' \<equiv> g\<lparr>g_nodes := N\<rparr>"

lemma fields:
  "g_edges g' = g_edges g" "g_routes g' = g_routes g" "g_reducers g' = g_reducers g" "g_entry g' = g_entry g"
  "g_checkpointer g' = g_checkpointer g" "g_durable g' = g_durable g" "g_lease g' = g_lease g"
  "g_leaseTTL g' = g_leaseTTL g" "g_leaseReleaseTimeout g' = g_leaseReleaseTimeout g" "g_nodes g' = N"
  by simp_all

lemma next_same: "next_node g' = next_node g"
  unfolding fun_eq_iff next_node_def fields names by simp

lemma store_same:
  "persist g' = persist g" "hasStore g' = hasStore g" "loadLatest g' = loadLatest g"
  unfolding fun_eq_iff persist_def hasStore_def loadLatest_def fields by simp_all

lemma round_same:
  "on_interrupt g' = on_interrupt g" "write_checkpoint g' = write_checkpoint g" "after_node g' = after_node g"
  unfolding fun_eq_iff on_interrupt_def write_checkpoint_def after_node_def store_same next_same fields
  by simp_all

lemma result_same: "handle_result g' = handle_result g"
  unfolding fun_eq_iff handle_result_def round_same by simp

lemma node_resume: "node_context c n p w = (nc, col, v) \<Longrightarrow> ctx_Resume nc = ctx_Resume c"
  by (auto simp: node_context_def WithStepArtifacts_def Let_def split: option.splits)

lemma call_same:
  assumes "g_nodes g n = Some f" "N n = Some f'" "\<not> key (ctx_Resume c)"
  shows "call_node cfg f' c s n k p w = call_node cfg f c s n k p w"
proof -
  obtain nc col v where nc: "node_context c n p w = (nc, col, v)" by (metis prod_cases3)
  have "\<not> key (ctx_Resume nc)" using node_resume [OF nc] assms(3) by simp
  then have "f' nc s u = f nc s u" for u by (rule agree [OF assms(1,2)])
  then show ?thesis by (simp add: call_node_def nc)
qed

lemma body_same:
  assumes "\<not> key (ctx_Resume (rs_ctx rs))"
  shows "run_body g' cfg rs = run_body g cfg rs"
proof (cases "g_nodes g (rs_node rs)")
  case None
  then have N0: "N (rs_node rs) = None" by (simp only: names)
  show ?thesis unfolding run_body_def fields Let_def None N0 option.case ..
next
  case (Some f)
  then obtain f' where f': "N (rs_node rs) = Some f'" using names by (metis not_Some_eq)
  show ?thesis
    unfolding run_body_def fields result_same Let_def Some f' option.case call_same [OF Some f' assms] ..
qed

lemma run_same:
  assumes "\<not> key (ctx_Resume c)"
  shows "run g' c s n k p cfg w = run g c s n k p cfg w"
  unfolding run_def
proof (rule go_loop_cong [where I = "\<lambda>rs. \<not> key (ctx_Resume (rs_ctx rs))"])
  fix rs rs'
  assume "run_body g cfg rs = Inr rs'"
  then have "ctx_Resume (rs_ctx rs') = VNil" by (rule next_round_ctx)
  then show "\<not> key (ctx_Resume (rs_ctx rs'))" using nil by simp
qed (use assms body_same in simp_all)

lemma enrich_resume: "ctx_Resume (enrichCtx c cfg p w) = ctx_Resume c"
  by (simp add: enrichCtx_def withEventHandler_def Let_def split: option.split)

text \<open>A body that does the same in every context with the caller's answer.\<close>

lemma lease_same:
  assumes "\<And>c' w. ctx_Resume c' = ctx_Resume c \<Longrightarrow> body' c' w = body c' w"
  shows "withLease g' c cfg body' w = withLease g c cfg body w"
proof -
  have "ctx_Resume ((withEventHandler (c\<lparr>ctx_ThreadID := t, ctx_RunID := r\<rparr>) h)\<lparr>ctx_LeaseGrant := l\<rparr>) = ctx_Resume c"
    for t r h l by (simp add: withEventHandler_def split: option.split)
  note same = assms [OF this] assms [OF refl]
  show ?thesis unfolding withLease_def lease_ttl_def release_lease_def fields Let_def same ..
qed

lemma prepare_same: "prepareRun g' opts w = prepareRun g opts w"
  unfolding prepareRun_def fields ..

lemma Invoke_same:
  assumes "\<not> key (ctx_Resume c)"
  shows "Invoke g' c input opts w = Invoke g c input opts w"
proof -
  obtain cfg v where p: "prepareRun g opts (w\<lparr>w_sess := None\<rparr>) = (cfg, v)" by fastforce
  show ?thesis
    unfolding Invoke_def prepare_same p Let_def prod.case fields
    by (rule lease_same) (simp add: run_same enrich_resume assms)
qed

lemma Resume_same:
  assumes "\<not> key (ctx_Resume c)" "\<And>v. rc_command (fst (prepareRun g opts v)) = None"
  shows "Resume g' c thread opts w = Resume g c thread opts w"
proof -
  obtain cfg v where p: "prepareRun g opts (w\<lparr>w_sess := None\<rparr>) = (cfg, v)" by fastforce
  then have n: "rc_command cfg = None" using assms(2) [of "w\<lparr>w_sess := None\<rparr>"] by simp
  define cfg' where "cfg' = (if thread \<noteq> '''' then cfg\<lparr>rc_threadID := thread\<rparr> else cfg)"
  have n': "rc_command cfg' = None" using n by (simp add: cfg'_def)
  have body: "resume_body g' cfg' c' w = resume_body g cfg' c' w" if "ctx_Resume c' = ctx_Resume c" for c' w
    unfolding resume_body_def store_same fields Let_def n' option.case
    using that assms(1) by (auto simp: run_same enrich_resume split: sum.split option.split)
  show ?thesis
    unfolding Resume_def prepare_same p Let_def prod.case fields cfg'_def [symmetric]
    by (auto intro!: lease_same body)
qed

end

section \<open>Workers behind an approval\<close>

text \<open>The configuration with other work for every worker that requires approval.\<close>

definition exchanged ::
  "(string \<Rightarrow> ('s, 'u) RunFunc option) \<Rightarrow> ('s, 'u) SupervisorConfig \<Rightarrow> ('s, 'u) WorkerSpec \<Rightarrow> ('s, 'u) WorkerSpec" where
  "exchanged h cfg wk = (if ws_ID wk \<in> set (sc_RequireApprovalFor cfg) then wk\<lparr>ws_Run := h (ws_ID wk)\<rparr> else wk)"

definition exchange_gated ::
  "(string \<Rightarrow> ('s, 'u) RunFunc option) \<Rightarrow> ('s, 'u) SupervisorConfig \<Rightarrow> ('s, 'u) SupervisorConfig" where
  "exchange_gated h cfg = cfg\<lparr>sc_Workers := map (exchanged h cfg) (sc_Workers cfg)\<rparr>"

lemma exchanged_simps [simp]:
  "ws_ID (exchanged h cfg wk) = ws_ID wk" "ws_Description (exchanged h cfg wk) = ws_Description wk"
  "ws_SystemPrompt (exchanged h cfg wk) = ws_SystemPrompt wk" "ws_AllowTools (exchanged h cfg wk) = ws_AllowTools wk"
  by (simp_all add: exchanged_def)

lemma exchange_fields:
  "sc_Goal (exchange_gated h cfg) = sc_Goal cfg" "sc_MaxSteps (exchange_gated h cfg) = sc_MaxSteps cfg"
  "sc_SystemPrompt (exchange_gated h cfg) = sc_SystemPrompt cfg" "sc_Provider (exchange_gated h cfg) = sc_Provider cfg"
  "sc_Registry (exchange_gated h cfg) = sc_Registry cfg" "sc_Reporter (exchange_gated h cfg) = sc_Reporter cfg"
  "sc_Events (exchange_gated h cfg) = sc_Events cfg" "sc_MaxContext (exchange_gated h cfg) = sc_MaxContext cfg"
  "sc_MaxIterAgent (exchange_gated h cfg) = sc_MaxIterAgent cfg" "sc_Stream (exchange_gated h cfg) = sc_Stream cfg"
  "sc_ThreadID (exchange_gated h cfg) = sc_ThreadID cfg" "sc_Decide (exchange_gated h cfg) = sc_Decide cfg"
  "sc_RequireApprovalFor (exchange_gated h cfg) = sc_RequireApprovalFor cfg"
  "sc_OnInterrupt (exchange_gated h cfg) = sc_OnInterrupt cfg" "sc_Checkpointer (exchange_gated h cfg) = sc_Checkpointer cfg"
  "sc_Durable (exchange_gated h cfg) = sc_Durable cfg" "sc_Lease (exchange_gated h cfg) = sc_Lease cfg"
  "sc_LeaseTTL (exchange_gated h cfg) = sc_LeaseTTL cfg" "sc_EventHandler (exchange_gated h cfg) = sc_EventHandler cfg"
  "sc_ResumeFromCheckpoint (exchange_gated h cfg) = sc_ResumeFromCheckpoint cfg"
  "sc_Workers (exchange_gated h cfg) = map (exchanged h cfg) (sc_Workers cfg)"
  by (simp_all add: exchange_gated_def)

lemma exchange_ids:
  "map ws_ID (map (exchanged h cfg) ws) = map ws_ID ws" "workerAllowSet (map (exchanged h cfg) ws) = workerAllowSet ws"
  "handoffToolSchema (map (exchanged h cfg) ws) = handoffToolSchema ws"
  "check_workers (map (exchanged h cfg) ws) {} = None \<longleftrightarrow> check_workers ws {} = None"
  by (simp_all add: comp_def workerAllowSet_def handoffToolSchema_def check_workers_None)

lemma exchange_check: "check_workers (map (exchanged h cfg) ws) seen = check_workers ws seen"
  by (induction ws arbitrary: seen) auto

lemma exchange_prompt: "buildSupervisorPrompt env (exchange_gated h cfg) s = buildSupervisorPrompt env cfg s"
  unfolding buildSupervisorPrompt_def exchange_fields map_map comp_def exchanged_simps ..

lemma exchange_supervisor: "supervisor_node env llm (exchange_gated h cfg) = supervisor_node env llm cfg"
  unfolding fun_eq_iff supervisor_node_def decideNext_def exchange_prompt exchange_fields exchange_ids by simp

lemma exchange_worker:
  assumes "\<not> approvalTruthy (ctx_Resume c)"
  shows "worker_node env (exchange_gated h cfg) (exchanged h cfg wk) c s w = worker_node env cfg wk c s w"
proof (cases "ws_ID wk \<in> set (sc_RequireApprovalFor cfg)")
  case True
  have "approval cfg wk c s \<noteq> None"
    using assms True by (auto simp: approval_def InterruptOrResume_def ResumeValue_def Let_def)
  moreover have "approval (exchange_gated h cfg) (exchanged h cfg wk) c s = approval cfg wk c s"
    unfolding approval_def exchange_fields exchanged_simps ..
  ultimately show ?thesis by (auto simp: worker_node_def Let_def)
next
  case False
  then have wk: "exchanged h cfg wk = wk" by (simp add: exchanged_def)
  show ?thesis
    unfolding wk worker_node_def approval_def worker_output_def worker_agent_def exchange_fields ..
qed

lemma worker_nodes_exchanged:
  "worker_nodes env cfg' (map (exchanged h cfg) ws) = map_of (map (\<lambda>wk. (ws_ID wk, worker_node env cfg' (exchanged h cfg wk))) ws)"
  by (simp add: worker_nodes_def comp_def)

lemma exchanged_nodes:
  assumes "worker_nodes env cfg ws n = Some f"
    and "worker_nodes env (exchange_gated h cfg) (map (exchanged h cfg) ws) n = Some f'"
    and "\<not> approvalTruthy (ctx_Resume c)"
  shows "f' c s w = f c s w"
  using assms(1,2) unfolding worker_nodes_exchanged
proof (induction ws)
  case (Cons wk ws)
  then show ?case
    by (cases "n = ws_ID wk") (auto simp: worker_nodes_def exchange_worker [OF assms(3)])
qed (simp add: worker_nodes_def)

abbreviation supervisor_nodes ::
  "('s, 'u) Env \<Rightarrow> ('s, 'u) LLM \<Rightarrow> ('s, 'u) SupervisorConfig \<Rightarrow> string \<Rightarrow> ('s, 'u) NodeFunc option" where
  "supervisor_nodes env llm cfg \<equiv> b_nodes (supervisor_graph env llm cfg)"

lemma dom_exchanged:
  "supervisor_nodes env llm (exchange_gated h cfg) n = None \<longleftrightarrow> supervisor_nodes env llm cfg n = None"
proof -
  have "dom (supervisor_nodes env llm (exchange_gated h cfg)) = dom (supervisor_nodes env llm cfg)"
    by (simp add: supervisor_graph_def dom_worker_nodes exchange_fields exchange_ids [simplified])
  then show ?thesis by blast
qed

interpretation gated: guarded_nodes "graph_of opts (supervisor_graph env llm cfg)"
  "supervisor_nodes env llm (exchange_gated h cfg)" approvalTruthy for opts env llm cfg h
proof unfold_locales
  fix n
  show "supervisor_nodes env llm (exchange_gated h cfg) n = None \<longleftrightarrow>
      g_nodes (graph_of opts (supervisor_graph env llm cfg)) n = None"
    using dom_exchanged [of env llm h cfg n] by (simp add: graph_of_def Let_def)
next
  show "f' c s w = f c s w"
    if "g_nodes (graph_of opts (supervisor_graph env llm cfg)) n = Some f"
      "supervisor_nodes env llm (exchange_gated h cfg) n = Some f'" "\<not> approvalTruthy (ctx_Resume c)"
    for n f f' c s w
  proof (cases "worker_nodes env cfg (sc_Workers cfg) n")
    case None
    then have "n \<notin> set (map ws_ID (sc_Workers cfg))"
      unfolding dom_worker_nodes [of env cfg "sc_Workers cfg", symmetric] by blast
    then have "n \<notin> dom (worker_nodes env (exchange_gated h cfg) (sc_Workers (exchange_gated h cfg)))"
      unfolding dom_worker_nodes exchange_fields exchange_ids .
    then have "supervisor_nodes env llm (exchange_gated h cfg) n = supervisor_nodes env llm cfg n"
      using None by (simp add: supervisor_graph_def map_add_def exchange_supervisor domIff)
    moreover have "g_nodes (graph_of opts (supervisor_graph env llm cfg)) n = supervisor_nodes env llm cfg n"
      by (simp add: graph_of_def Let_def)
    ultimately show ?thesis using that(1,2) by simp
  next
    case (Some f0)
    then have "n \<in> set (map ws_ID (sc_Workers cfg))"
      unfolding dom_worker_nodes [of env cfg "sc_Workers cfg", symmetric] by blast
    then have "n \<in> dom (worker_nodes env (exchange_gated h cfg) (sc_Workers (exchange_gated h cfg)))"
      unfolding dom_worker_nodes exchange_fields exchange_ids .
    then have "worker_nodes env (exchange_gated h cfg) (map (exchanged h cfg) (sc_Workers cfg)) n = Some f'"
      using that(2) by (auto simp: supervisor_graph_def exchange_fields)
    moreover have "f = f0" using that(1) Some by simp
    ultimately show ?thesis using exchanged_nodes [OF Some _ that(3)] by simp
  qed
qed (simp add: approvalTruthy_def)

lemma exchange_graph:
  "graph_of opts (supervisor_graph env llm (exchange_gated h cfg))
    = (graph_of opts (supervisor_graph env llm cfg))\<lparr>g_nodes := supervisor_nodes env llm (exchange_gated h cfg)\<rparr>"
proof -
  have "worker_edges (map (exchanged h cfg) ws) = worker_edges ws" for ws
    by (simp add: worker_edges_def comp_def)
  then show ?thesis by (simp add: graph_of_def supervisor_graph_def exchange_fields Let_def)
qed

section \<open>Supervisors that are not answered\<close>

lemma check_edges_names:
  assumes "\<And>n. b_nodes b' n = None \<longleftrightarrow> b_nodes b n = None"
  shows "check_edges b' es = check_edges b es"
proof (induction es)
  case (Cons e es)
  then show ?case by (cases e) (simp only: check_edges.simps assms)
qed simp

lemma check_routes_names:
  assumes "\<And>n. b_nodes b' n = None \<longleftrightarrow> b_nodes b n = None"
  shows "check_routes b' rs = check_routes b rs"
  by (induction rs) (simp_all only: check_routes.simps assms)

lemma Compile_names:
  assumes "\<And>n. N n = None \<longleftrightarrow> b_nodes b n = None"
  shows "Compile opts es rs (b\<lparr>b_nodes := N\<rparr>)
    = (case Compile opts es rs b of Inl e \<Rightarrow> Inl e | Inr g \<Rightarrow> Inr (g\<lparr>g_nodes := N\<rparr>))"
proof -
  have "check_edges (b\<lparr>b_nodes := N\<rparr>) es = check_edges b es" "check_routes (b\<lparr>b_nodes := N\<rparr>) rs = check_routes b rs"
    by (rule check_edges_names check_routes_names, simp add: assms)+
  then show ?thesis using assms by (auto simp: Compile_def Let_def split: option.split)
qed

lemma exchange_builder:
  "supervisor_graph env llm (exchange_gated h cfg)
    = (supervisor_graph env llm cfg)\<lparr>b_nodes := supervisor_nodes env llm (exchange_gated h cfg)\<rparr>"
proof -
  have "worker_edges (map (exchanged h cfg) ws) = worker_edges ws" for ws
    by (simp add: worker_edges_def comp_def)
  then show ?thesis by (simp add: supervisor_graph_def exchange_fields)
qed

lemma Compile_exchanged:
  "Compile opts es rs (supervisor_graph env llm (exchange_gated h cfg))
    = (case Compile opts es rs (supervisor_graph env llm cfg) of
         Inl e \<Rightarrow> Inl e | Inr g \<Rightarrow> Inr (g\<lparr>g_nodes := supervisor_nodes env llm (exchange_gated h cfg)\<rparr>))"
  by (subst exchange_builder, rule Compile_names, rule dom_exchanged)

text \<open>The hook for interrupts never approves; there may be none.\<close>

definition never_approves :: "('s, 'u) Ctx \<Rightarrow> ('s, 'u) SupervisorConfig \<Rightarrow> bool" where
  "never_approves c cfg \<longleftrightarrow> (\<forall>ask i w. sc_OnInterrupt cfg = Some ask \<longrightarrow> fst (ask c i w) \<noteq> Inr True)"

lemma never_approvesD:
  assumes "never_approves c cfg" "sc_OnInterrupt cfg = Some ask" "ask c i w = (Inr a, v)"
  shows "\<not> a"
  using assms(1) [unfolded never_approves_def, rule_format, OF assms(2), of i w] assms(3) by simp

lemma exchange_options: "run_options (exchange_gated h cfg) = run_options cfg"
  unfolding run_options_def exchange_fields ..

lemma no_command: "rc_command (fst (prepareRun g (run_options cfg) w)) = None"
  by (simp add: prepareRun_def run_options_def WithThreadID_def WithMaxSteps_def WithEventHandler_def
      Let_def split: prod.split option.split)

lemma round_exchanged:
  assumes "never_approves c cfg"
  shows "interrupt_round g' c (exchange_gated h cfg) st = interrupt_round g c cfg st"
  unfolding interrupt_round_def exchange_fields exchange_options
  by (auto split: option.split prod.split sum.split dest: never_approvesD [OF assms])

lemma first_exchanged:
  assumes "never_approves c cfg" "\<not> approvalTruthy (ctx_Resume c)"
    and "g = graph_of opts (supervisor_graph env llm cfg)"
    and "g' = g\<lparr>g_nodes := supervisor_nodes env llm (exchange_gated h cfg)\<rparr>"
  shows "first_run g' latest c (exchange_gated h cfg) w = first_run g latest c cfg w"
proof -
  have inv: "Invoke g' c input o1 w = Invoke g c input o1 w" for input o1 w
    unfolding assms(3,4) by (rule gated.Invoke_same [OF assms(2)])
  have res: "Resume g' c t (run_options cfg) w = Resume g c t (run_options cfg) w" for t w
    unfolding assms(3,4) by (rule gated.Resume_same [OF assms(2) no_command])
  show ?thesis
    unfolding first_run_def exchange_fields exchange_options inv res
    by (auto split: option.split prod.split sum.split dest: never_approvesD [OF assms(1)])
qed

lemma defaults_exchanged:
  "supervisor_defaults env w (exchange_gated h cfg) = exchange_gated h (supervisor_defaults env w cfg)"
  by (simp add: supervisor_defaults_def exchange_gated_def exchanged_def fun_eq_iff)

text \<open>The part of \<open>RunSupervisor\<close> after its checks.\<close>

definition supervise ::
  "('s, 'u) Env \<Rightarrow> ('s, 'u) LLM \<Rightarrow> (string \<times> string) list \<Rightarrow> string list \<Rightarrow> ('s, 'u) Ctx
   \<Rightarrow> ('s, 'u) SupervisorConfig \<Rightarrow> ('s, 'u) CompileOption list
   \<Rightarrow> (string \<Rightarrow> ('s, 'u) World \<Rightarrow> gerror + Snapshot option) \<Rightarrow> ('s, 'u) World
   \<Rightarrow> (string + ('s, 'u) supervisor_outcome) option" where
  "supervise env llm es rs c cfg opts latest v =
     (case Compile opts es rs (supervisor_graph env llm cfg) of
        Inl e \<Rightarrow> Some (Inr (result '''' Map.empty, Some e, v))
      | Inr g \<Rightarrow> (case first_run g latest c cfg v of
           Inl r \<Rightarrow> Some (Inr r)
         | Inr None \<Rightarrow> None
         | Inr (Some st) \<Rightarrow> Option.bind (go_loop (interrupt_round g c cfg) st) (\<lambda>r. r)))"

lemma RunSupervisor_checked:
  assumes "supervisor_defaults env w cfg0 = cfg" "check_workers (sc_Workers cfg) {} = None"
  shows "RunSupervisor env llm es rs c cfg0 w =
    (if sc_Decide cfg0 = None \<and> sc_Provider cfg0 = None
     then Some (Inr (result '''' Map.empty, Some (Errorf ''orchestrator: supervisor requires Provider or Decide'' []), w))
     else if sc_Workers cfg0 = []
     then Some (Inr (result '''' Map.empty, Some (Errorf ''orchestrator: supervisor requires at least one worker'' []), w))
     else (case supervisorStore env (sc_Checkpointer cfg) (sc_Durable cfg) (sc_Lease cfg) (sc_LeaseTTL cfg) w of
         Inl e \<Rightarrow> Some (Inr (result '''' Map.empty, Some e, w))
       | Inr (opts, latest, v) \<Rightarrow> supervise env llm es rs c cfg opts latest v))"
  unfolding RunSupervisor_def Let_def assms supervisor_builder_Inr [OF assms(2)] option.case sum.case supervise_def ..

lemma supervise_exchanged:
  assumes "never_approves c cfg" "\<not> approvalTruthy (ctx_Resume c)"
  shows "supervise env llm es rs c (exchange_gated h cfg) opts latest v = supervise env llm es rs c cfg opts latest v"
proof (cases "Compile opts es rs (supervisor_graph env llm cfg)")
  case (Inl e)
  then show ?thesis
    by (simp add: supervise_def Compile_exchanged)
next
  case (Inr g)
  have g': "Compile opts es rs (supervisor_graph env llm (exchange_gated h cfg))
      = Inr (g\<lparr>g_nodes := supervisor_nodes env llm (exchange_gated h cfg)\<rparr>)" (is "_ = Inr ?g'")
    using Inr by (simp add: Compile_exchanged)
  have round: "interrupt_round ?g' c (exchange_gated h cfg) = interrupt_round g c cfg"
    by (rule ext) (rule round_exchanged [OF assms(1)])
  show ?thesis
    unfolding supervise_def g' Inr sum.case first_exchanged [OF assms Compile_Inr [OF Inr] refl] round ..
qed

section \<open>Refusals\<close>

text \<open>
  A supervisor that continues a thread: its configuration is accepted, and the latest checkpoint
  it finds in its store (\<open>v\<close> is the world after the store was chosen) is the pause \<open>snap\<close>.
\<close>

definition continues_pause ::
  "('s, 'u) Env \<Rightarrow> ('s, 'u) LLM \<Rightarrow> (string \<times> string) list \<Rightarrow> string list \<Rightarrow> ('s, 'u) SupervisorConfig
   \<Rightarrow> Snapshot \<Rightarrow> ('s, 'u) World \<Rightarrow> ('s, 'u) World \<Rightarrow> bool" where
  "continues_pause env llm es rs cfg snap w v \<longleftrightarrow>
     (sc_Decide cfg \<noteq> None \<or> sc_Provider cfg \<noteq> None) \<and> sc_Workers cfg \<noteq> []
     \<and> check_workers (sc_Workers cfg) {} = None \<and> sc_ThreadID cfg \<noteq> ''''
     \<and> sc_ResumeFromCheckpoint cfg \<and> (sc_Checkpointer cfg \<noteq> None \<or> sc_Durable cfg \<noteq> None)
     \<and> range_orders (supervisor_graph env llm (supervisor_defaults env w cfg)) es rs
     \<and> (\<exists>opts latest.
          supervisorStore env (sc_Checkpointer cfg) (sc_Durable cfg) (sc_Lease cfg) (sc_LeaseTTL cfg) w
            = Inr (opts, latest, v)
          \<and> check_options (options_of opts) = None
          \<and> latest (sc_ThreadID cfg) v = Inr (Some snap))
     \<and> sn_Interrupt snap"

lemma defaults_fields:
  "sc_Workers (supervisor_defaults env w cfg) = sc_Workers cfg" "sc_Checkpointer (supervisor_defaults env w cfg) = sc_Checkpointer cfg"
  "sc_Durable (supervisor_defaults env w cfg) = sc_Durable cfg" "sc_Lease (supervisor_defaults env w cfg) = sc_Lease cfg"
  "sc_LeaseTTL (supervisor_defaults env w cfg) = sc_LeaseTTL cfg" "sc_OnInterrupt (supervisor_defaults env w cfg) = sc_OnInterrupt cfg"
  "sc_ResumeFromCheckpoint (supervisor_defaults env w cfg) = sc_ResumeFromCheckpoint cfg"
  "sc_ThreadID cfg \<noteq> '''' \<Longrightarrow> sc_ThreadID (supervisor_defaults env w cfg) = sc_ThreadID cfg"
  by (simp_all add: supervisor_defaults_def)

lemma pause_first:
  assumes "continues_pause env llm es rs cfg snap w v"
    and "\<And>g latest. latest (sc_ThreadID cfg) v = Inr (Some snap)
      \<Longrightarrow> first_run g latest c (supervisor_defaults env w cfg) v = Inl out"
  shows "RunSupervisor env llm es rs c cfg w = Some (Inr out)"
proof -
  note p = assms(1) [unfolded continues_pause_def]
  let ?d = "supervisor_defaults env w cfg"
  from p obtain opts latest where
    st: "supervisorStore env (sc_Checkpointer cfg) (sc_Durable cfg) (sc_Lease cfg) (sc_LeaseTTL cfg) w = Inr (opts, latest, v)"
    and o: "check_options (options_of opts) = None" and l: "latest (sc_ThreadID cfg) v = Inr (Some snap)" by blast
  have ids: "check_workers (sc_Workers ?d) {} = None" using p by (simp add: defaults_fields)
  have g: "Compile opts es rs (supervisor_graph env llm ?d) = Inr (graph_of opts (supervisor_graph env llm ?d))"
    using p o supervisor_topology [OF ids] by (simp add: Compile_graph)
  have first: "first_run g latest c ?d v = Inl out" for g by (rule assms(2)) (rule l)
  have "\<not> (sc_Decide cfg = None \<and> sc_Provider cfg = None)" "sc_Workers cfg \<noteq> []" using p by blast+
  then show ?thesis
    unfolding RunSupervisor_checked [OF refl ids] defaults_fields st sum.case prod.case supervise_def g
      first by (simp only: if_False sum.case)
qed

lemma pause_refused:
  assumes "continues_pause env llm es rs cfg snap w v" "sc_OnInterrupt cfg = Some ask"
    and "ask c \<lparr>ii_ThreadID = sc_ThreadID cfg, ii_Node = sn_Node snap, ii_Value = sn_InterruptValue snap\<rparr> v = (Inr False, v')"
  shows "RunSupervisor env llm es rs c cfg w
    = Some (Inr (result ''Approval denied'' (sn_State snap), Some ErrApprovalDenied, v'))"
  by (rule pause_first [OF assms(1)])
    (use assms in \<open>auto simp: continues_pause_def first_run_def defaults_fields\<close>)

lemma pause_unanswered:
  assumes "continues_pause env llm es rs cfg snap w v" "sc_OnInterrupt cfg = None"
  shows "RunSupervisor env llm es rs c cfg w
    = Some (Inr (result '''' (sn_State snap),
        Some (Interrupted \<lparr>ie_Value = sn_InterruptValue snap, ie_Node = sn_Node snap\<rparr>), v))"
  by (rule pause_first [OF assms(1)])
    (use assms in \<open>auto simp: continues_pause_def first_run_def defaults_fields\<close>)

text \<open>What the answer is asked for: the worker, its task, the reason and the goal.\<close>

definition approval_request :: "('s, 'u) WorkerSpec \<Rightarrow> State \<Rightarrow> gval" where
  "approval_request wk s =
     (let h = HandoffFromMap (at_key s ''handoff'')
      in VMap [''worker'' \<mapsto> VString (ws_ID wk),
               ''task'' \<mapsto> VString (if h_Task h = '''' then GetString s ''goal'' else h_Task h),
               ''reason'' \<mapsto> VString (h_Reason h), ''goal'' \<mapsto> VString (GetString s ''goal'')])"

lemma ungated_output: "worker_output env (cfg\<lparr>sc_RequireApprovalFor := a\<rparr>) wk = worker_output env cfg wk"
proof -
  have agent: "worker_agent (cfg\<lparr>sc_RequireApprovalFor := a\<rparr>) wk = worker_agent cfg wk"
    unfolding worker_agent_def by simp
  show ?thesis unfolding fun_eq_iff worker_output_def agent by (cases "sc_Provider cfg") simp_all
qed

lemma gated_worker_node:
  assumes "ws_ID wk \<in> set (sc_RequireApprovalFor cfg)"
  shows "worker_node env cfg wk c s w =
    (if ctx_Resume c = VNil then (failed (Interrupt (approval_request wk s)) s, w)
     else if \<not> approvalTruthy (ctx_Resume c) then (failed ErrApprovalDenied s, w)
     else worker_node env (cfg\<lparr>sc_RequireApprovalFor := []\<rparr>) wk c s w)"
  using assms
  by (simp add: worker_node_def ungated_output approval_def approval_request_def InterruptOrResume_def
      ResumeValue_def Let_def)

lemma approvalTruthy_iff:
  "approvalTruthy v \<longleftrightarrow> v = VBool True
     \<or> (\<exists>x. v = VString x \<and> ToLower (TrimSpace x) \<in> {''true'', ''yes'', ''y'', ''approve'', ''1''})"
  by (cases v) (auto simp: approvalTruthy_def)

text \<open>
  C35: A worker that requires approval does not run before it was approved.

  (1) As long as the hook never approves and the caller's context carries no approval either,
  the functions and agents of the workers in \<open>RequireApprovalFor\<close> make no difference:
  exchanged for any others, a supervisor has the same result, error and effects, whether it
  starts anew or continues from a checkpoint, a paused one included.

  (2) The node of such a worker, called without an answer, interrupts the run with the worker,
  its task, the reason and the goal, and changes nothing; an answer that is neither \<open>true\<close> nor
  one of the five approving words makes it fail with \<open>ErrApprovalDenied\<close>, and again nothing is
  changed; an approving answer lets it do what it does ungated.

  (3) A hook that refuses ends the supervisor with \<open>ErrApprovalDenied\<close>: with the interrupted
  run's state in the loop that answers interrupts, with the stored state when the supervisor
  continues a paused thread. Without a hook a paused thread is answered with the stored interrupt.
\<close>

theorem gated_workers_wait:
  assumes "never_approves c cfg" "\<not> approvalTruthy (ctx_Resume c)"
  shows "RunSupervisor env llm es rs c (exchange_gated h cfg) w = RunSupervisor env llm es rs c cfg w
    \<and> (\<forall>wk c' s u. ws_ID wk \<in> set (sc_RequireApprovalFor cfg) \<longrightarrow>
        worker_node env cfg wk c' s u =
          (if ctx_Resume c' = VNil then (failed (Interrupt (approval_request wk s)) s, u)
           else if ctx_Resume c' = VBool True
             \<or> (\<exists>x. ctx_Resume c' = VString x \<and> ToLower (TrimSpace x) \<in> {''true'', ''yes'', ''y'', ''approve'', ''1''})
           then worker_node env (cfg\<lparr>sc_RequireApprovalFor := []\<rparr>) wk c' s u
           else (failed ErrApprovalDenied s, u)))
    \<and> (\<forall>g out ie v ask v'. sc_OnInterrupt cfg = Some ask \<and> ctx_Err v = None
        \<and> ask c \<lparr>ii_ThreadID = sc_ThreadID cfg, ii_Node = ie_Node ie, ii_Value = ie_Value ie\<rparr> v = (Inr False, v')
        \<longrightarrow> go_loop (interrupt_round g c cfg) (out, Some (Interrupted ie), v)
          = Some (Some (Inr (result ''Approval denied'' out, Some ErrApprovalDenied, v'))))
    \<and> (\<forall>snap v ask v'. continues_pause env llm es rs cfg snap w v \<and> sc_OnInterrupt cfg = Some ask
        \<and> ask c \<lparr>ii_ThreadID = sc_ThreadID cfg, ii_Node = sn_Node snap, ii_Value = sn_InterruptValue snap\<rparr> v = (Inr False, v')
        \<longrightarrow> RunSupervisor env llm es rs c cfg w
          = Some (Inr (result ''Approval denied'' (sn_State snap), Some ErrApprovalDenied, v')))
    \<and> (\<forall>snap v. continues_pause env llm es rs cfg snap w v \<and> sc_OnInterrupt cfg = None
        \<longrightarrow> RunSupervisor env llm es rs c cfg w
          = Some (Inr (result '''' (sn_State snap),
              Some (Interrupted \<lparr>ie_Value = sn_InterruptValue snap, ie_Node = sn_Node snap\<rparr>), v)))"
proof (intro conjI allI impI)
  let ?d = "supervisor_defaults env w cfg"
  have d: "never_approves c ?d" using assms(1) by (simp add: never_approves_def supervisor_defaults_def)
  show "RunSupervisor env llm es rs c (exchange_gated h cfg) w = RunSupervisor env llm es rs c cfg w"
  proof (cases "check_workers (sc_Workers ?d) {}")
    case (Some e)
    then show ?thesis
      unfolding RunSupervisor_def Let_def defaults_exchanged exchange_fields exchange_check by simp
  next
    case None
    then have None': "check_workers (sc_Workers (exchange_gated h ?d)) {} = None"
      unfolding exchange_fields exchange_check .
    show ?thesis
      unfolding RunSupervisor_checked [OF refl None] RunSupervisor_checked [OF defaults_exchanged None']
        supervise_exchanged [OF d assms(2)] exchange_fields by simp
  qed
next
  fix s u c' and wk :: "('a, 'b) WorkerSpec"
  assume "ws_ID wk \<in> set (sc_RequireApprovalFor cfg)"
  then show "worker_node env cfg wk c' s u =
          (if ctx_Resume c' = VNil then (failed (Interrupt (approval_request wk s)) s, u)
           else if ctx_Resume c' = VBool True
             \<or> (\<exists>x. ctx_Resume c' = VString x \<and> ToLower (TrimSpace x) \<in> {''true'', ''yes'', ''y'', ''approve'', ''1''})
           then worker_node env (cfg\<lparr>sc_RequireApprovalFor := []\<rparr>) wk c' s u
           else (failed ErrApprovalDenied s, u))"
    by (auto simp: gated_worker_node approvalTruthy_iff)
next
  fix g out v ask v' and ie :: InterruptError
  assume a: "sc_OnInterrupt cfg = Some ask \<and> ctx_Err v = None
      \<and> ask c \<lparr>ii_ThreadID = sc_ThreadID cfg, ii_Node = ie_Node ie, ii_Value = ie_Value ie\<rparr> v = (Inr False, v')"
  show "go_loop (interrupt_round g c cfg) (out, Some (Interrupted ie), v)
      = Some (Some (Inr (result ''Approval denied'' out, Some ErrApprovalDenied, v')))"
    by (rule go_loop_done) (use a in \<open>simp add: interrupt_round_def\<close>)
qed (use pause_refused pause_unanswered in blast)+

definition gated_supervisor :: "(Memory, 'u) SupervisorConfig" where
  "gated_supervisor = sample_supervisor\<lparr>sc_RequireApprovalFor := [''a''],
     sc_OnInterrupt := Some (\<lambda>c i w. (Inr False, w))\<rparr>"

text \<open>
  The gated supervisor continues a thread that is paused in front of its worker, in a store of
  the caller's; whatever the worker would do, its hook refuses.
\<close>

definition paused_at_a :: Snapshot where
  "paused_at_a = \<lparr>sn_CheckpointID = ''c1'', sn_ParentCheckpointID = '''', sn_Revision = 1,
     sn_CreatedAt = 7, sn_ThreadID = ''t'', sn_Node = ''a'', sn_State = [''goal'' \<mapsto> VString ''g''], sn_Step = 1,
     sn_Interrupt = True, sn_InterruptValue = VString ''a?''\<rparr>"

definition paused_store :: "(Memory, 'u) Checkpointer" where
  "paused_store = \<lparr>cp_Put = (\<lambda>t sn w. (None, w)), cp_Get = (\<lambda>t w. Inr (if t = ''t'' then Some paused_at_a else None))\<rparr>"

definition continued_supervisor :: "(Memory, 'u) SupervisorConfig" where
  "continued_supervisor = gated_supervisor\<lparr>sc_ResumeFromCheckpoint := True, sc_Checkpointer := Some paused_store\<rparr>"

lemma continued_paused:
  "continues_pause sample_env sample_llm [(''a'', ''supervisor'')] [''supervisor''] continued_supervisor
     paused_at_a w w"
proof -
  have o: "check_options (options_of [WithCheckpointer paused_store]) = None"
    by (simp add: check_options_def options_of_def WithCheckpointer_def)
  have r: "range_orders (supervisor_graph sample_env sample_llm (supervisor_defaults sample_env w continued_supervisor))
      [(''a'', ''supervisor'')] [''supervisor'']"
    by (simp add: range_orders_def is_range_def supervisor_graph_def worker_edges_def defaults_fields
        continued_supervisor_def gated_supervisor_def sample_supervisor_def sample_worker_def supervisorNode_def)
  show ?thesis
    using o r
    by (simp add: continues_pause_def continued_supervisor_def gated_supervisor_def sample_supervisor_def
        sample_worker_def supervisorStore_def paused_store_def paused_at_a_def supervisorNode_def)
qed

theorem gated_workers_wait_witness:
  "RunSupervisor sample_env sample_llm [(''a'', ''supervisor'')] [''supervisor''] Background
     (exchange_gated (\<lambda>n. Some (\<lambda>c s task w. ((Inr ''deployed'', s), w\<lparr>w_user := True\<rparr>))) continued_supervisor)
     (preset_world False)
   = Some (Inr (result ''Approval denied'' [''goal'' \<mapsto> VString ''g''], Some ErrApprovalDenied, preset_world False))"
proof -
  have h: "never_approves Background (continued_supervisor :: (Memory, bool) SupervisorConfig)"
      "\<not> approvalTruthy (ctx_Resume (Background :: (Memory, bool) Ctx))"
    by (simp_all add: continued_supervisor_def gated_supervisor_def never_approves_def approvalTruthy_def Background_def)
  note gate = gated_workers_wait [OF h, of sample_env sample_llm "[(''a'', ''supervisor'')]" "[''supervisor'']"
      "\<lambda>n. Some (\<lambda>c s task w. ((Inr ''deployed'', s), w\<lparr>w_user := True\<rparr>))" "preset_world False"]
  have "sc_OnInterrupt (continued_supervisor :: (Memory, bool) SupervisorConfig) = Some (\<lambda>c i w. (Inr False, w))"
    by (simp add: continued_supervisor_def gated_supervisor_def)
  with gate continued_paused [where w = "preset_world False"] show ?thesis
    by (auto simp: paused_at_a_def)
qed

end
