(* ===== verification/CodingLoop.thy ===== *)
theory CodingLoop
  imports Presets BuilderProps
begin

text \<open>
  \<^verbatim>\<open>orchestrator/coding_loop.go\<close>: the loop of implementer, verifier and updater. The
  implementer keeps its conversation over the iterations of a run, the other two start afresh
  every time.
\<close>

section \<open>Reading conversations\<close>

definition pathFromToolArgs :: "gval \<Rightarrow> string" where
  "pathFromToolArgs args =
     (case args of
        VString a \<Rightarrow> (case Unmarshal_map a of None \<Rightarrow> '''' | Some m \<Rightarrow> as_string (at_key m ''path''))
      | VMap a \<Rightarrow> as_string (at_key a ''path'')
      | _ \<Rightarrow> '''')"

text \<open>The path that one entry of \<open>tool_calls\<close> edits or writes; empty for any other entry.\<close>

definition edited_path :: "gval \<Rightarrow> string" where
  "edited_path raw =
     (case raw of
        VMap tc \<Rightarrow>
          (case at_key tc ''function'' of
             VMap fn \<Rightarrow> if as_string (at_key fn ''name'') \<in> {''edit'', ''write''}
                        then pathFromToolArgs (at_key fn ''arguments'') else ''''
           | _ \<Rightarrow> '''')
      | _ \<Rightarrow> '''')"

definition add_path :: "string \<Rightarrow> string list \<Rightarrow> string list" where
  "add_path path files = (if path = '''' \<or> path \<in> set files then files else files @ [path])"

definition message_paths :: "Message \<Rightarrow> string list \<Rightarrow> string list" where
  "message_paths m files =
     (if as_string (at_key m ''role'') \<noteq> ''assistant'' then files
      else (case at_key m ''tool_calls'' of
              VSlice tcs \<Rightarrow> fold (\<lambda>raw. add_path (edited_path raw)) tcs files
            | _ \<Rightarrow> files))"

definition changedFiles :: "Manager \<Rightarrow> string" where
  "changedFiles ctx =
     (let files = fold message_paths (mg_Messages ctx) []
      in if files = [] then ''(unknown '' @ [CHR 0xE2, CHR 0x80, CHR 0x94] @ '' Verifier inspect project to find)''
         else Join files ('','' @ [CHR 0x0A] @ '' ''))"

definition contentStr :: "(string \<Rightarrow> string) \<Rightarrow> gval \<Rightarrow> string" where
  "contentStr other v = (case v of VString x \<Rightarrow> x | VNil \<Rightarrow> '''' | _ \<Rightarrow> Sprint other v)"

definition completionResult :: "(string \<Rightarrow> string) \<Rightarrow> Manager \<Rightarrow> string" where
  "completionResult other ctx =
     (case List.find (\<lambda>m. as_string (at_key m ''role'') = ''tool''
                        \<and> as_string (at_key m ''tool_name'') = ''attempt_completion'') (rev (mg_Messages ctx)) of
        Some m \<Rightarrow> contentStr other (at_key m ''content'')
      | None \<Rightarrow> '''')"

section \<open>Configuration\<close>

record ('s, 'u) CodingLoopConfig =
  cl_Goal :: string
  cl_MaxIter :: int
  cl_SystemPrompt :: string
  cl_Provider :: iface
  cl_Registry :: iface
  cl_Reporter :: iface
  cl_Events :: iface
  cl_MaxContext :: int
  cl_MaxIterAgent :: int
  cl_Stream :: bool
  cl_ThreadID :: string
  cl_Checkpointer :: "('s, 'u) Checkpointer option"
  cl_Durable :: "('s, 'u) DurableCheckpointer option"
  cl_Lease :: "('s, 'u) ExecutionLease option"
  cl_LeaseTTL :: duration
  cl_EventHandler :: "('s, 'u) EventHandler option"
  cl_ResumeFromCheckpoint :: bool

record CodingLoopResult =
  cl_Success :: bool
  cl_Iterations :: int
  cl_Message :: string
  cl_State :: State

text \<open>The place of the implementer's instance, which \<open>RunCodingLoop\<close> makes and its nodes share.\<close>

record 'u Cell =
  cell_get :: "'u \<Rightarrow> Instance"
  cell_put :: "Instance \<Rightarrow> 'u \<Rightarrow> 'u"

definition read_cell :: "'u Cell \<Rightarrow> ('s, 'u) World \<Rightarrow> Instance" where
  "read_cell c w = cell_get c (w_user w)"

definition write_cell :: "'u Cell \<Rightarrow> Instance \<Rightarrow> ('s, 'u) World \<Rightarrow> ('s, 'u) World" where
  "write_cell c a w = w\<lparr>w_user := cell_put c a (w_user w)\<rparr>"

section \<open>The agents\<close>

definition role_spec :: "('s, 'u) CodingLoopConfig \<Rightarrow> string \<Rightarrow> string list \<Rightarrow> ('s, 'u) Spec" where
  "role_spec cfg name allow = spec_of
     \<lparr>sp_ID = name, sp_SystemPrompt = cl_SystemPrompt cfg, sp_Provider = cl_Provider cfg,
      sp_Registry = cl_Registry cfg, sp_AllowTools = allow, sp_MaxContext = cl_MaxContext cfg,
      sp_MaxIter = cl_MaxIterAgent cfg, sp_Stream = cl_Stream cfg, sp_Reporter = cl_Reporter cfg,
      sp_Events = cl_Events cfg, sp_Persist = PersistNone, sp_Store = None\<rparr>"

definition implementer_spec :: "('s, 'u) CodingLoopConfig \<Rightarrow> ('s, 'u) Spec" where
  "implementer_spec cfg =
     (case cl_Durable cfg of
        None \<Rightarrow> role_spec cfg ''implementer'' []
      | Some d \<Rightarrow> (role_spec cfg ''implementer'' [])\<lparr>sp_Persist := PersistSession, sp_Store := Some d\<rparr>)"

definition updater_tools :: "string list" where
  "updater_tools = [''read'', ''grep'', ''search'', ''use_skill'', ''search_memory'', ''attempt_completion'']"

definition apostrophe :: string where
  "apostrophe = [CHR 0x27]"

definition implementer_prompt :: "int \<Rightarrow> int \<Rightarrow> string \<Rightarrow> string" where
  "implementer_prompt iter maxIter goal =
     ''[Loop iter '' @ dec_int iter @ ''/'' @ dec_int maxIter @ '']'' @ newline @ ''GOAL: '' @ goal
     @ newline @ newline @ ''You are the IMPLEMENTER. Design + write code.'' @ newline
     @ ''1. Read relevant code (read/grep).'' @ newline @ ''2. Plan your design.'' @ newline
     @ ''3. Implement progressively: smallest working change first.'' @ newline
     @ ''4. Self-review: read back your changes, verify no logic errors.'' @ newline
     @ ''5. Design for extensibility: clear abstractions, hooks, avoid hard-coding.'' @ newline
     @ ''6. When calling edit/write, briefly explain WHY in your thinking.'' @ newline
     @ ''7. Call `attempt_completion` tool when done.'' @ newline @ newline
     @ ''DO NOT run tests or verify your own code. That'' @ apostrophe @ ''s the Verifier''
     @ apostrophe @ ''s job.''"

definition verifier_prompt :: "int \<Rightarrow> string \<Rightarrow> string \<Rightarrow> string" where
  "verifier_prompt iter goal files =
     ''[Verify iter '' @ dec_int iter @ '']'' @ newline @ ''GOAL: '' @ goal @ newline
     @ ''Files changed by implementer: '' @ newline @ files @ newline @ newline
     @ ''You are an OBJECTIVE Verifier. Independent judgment required.'' @ newline
     @ ''1. Inspect the changed files (read tool).'' @ newline
     @ ''2. Determine the right test command(inspect project:package.json/pyproject.toml/go.mod).''
     @ newline @ ''3. Run tests with bash tool.'' @ newline
     @ ''4. Judge PASS/FAIL based on exit code AND tests actually verify the goal.'' @ newline
     @ ''5. If FAIL: explain which test, why, and suggested fix.'' @ newline
     @ ''6. Call `attempt_completion` tool with one line:'' @ newline @ ''   - '' @ apostrophe
     @ ''VERIFY: PASS'' @ apostrophe @ newline @ ''   - '' @ apostrophe @ ''VERIFY: FAIL: <reason>''
     @ apostrophe @ newline @ ''   - '' @ apostrophe @ ''VERIFY: PASS, NO_ISSUES'' @ apostrophe
     @ newline @ ''   - '' @ apostrophe @ ''VERIFY: PASS, ISSUES: <list>'' @ apostrophe @ newline
     @ newline @ ''Explain at architecture-level (module/flow), not function-level.''"

definition updater_prompt :: "int \<Rightarrow> string \<Rightarrow> string \<Rightarrow> string" where
  "updater_prompt iter goal verifyResult =
     ''[Updater iter '' @ dec_int iter @ '']'' @ newline @ ''GOAL: '' @ goal @ newline
     @ ''Verifier FAILED: '' @ verifyResult @ newline @ newline @ ''You are an UPDATER.'' @ newline
     @ ''Refine the user'' @ apostrophe @ ''s prompt for the next implementer iteration.'' @ newline
     @ ''You MUST NOT write code or call write/edit/bash. Only read/grep for context.'' @ newline
     @ newline @ ''Read the verifier'' @ apostrophe @ ''s failure analysis above.'' @ newline
     @ ''Identify what'' @ apostrophe @ ''s missing or unclear in the original goal.'' @ newline
     @ newline @ ''Output: a single prompt, 50-200 words, specific constraints.'' @ newline
     @ ''Call `attempt_completion` tool to return the refined prompt.''"

section \<open>The nodes\<close>

definition implementer_node ::
  "('s, 'u) Env \<Rightarrow> 'u Cell \<Rightarrow> ('s, 'u) CodingLoopConfig \<Rightarrow> ('s, 'u) NodeFunc" where
  "implementer_node env cell cfg ctx s w =
     (let iter = (if stateInt s ''iteration'' = 0 then 1 else stateInt s ''iteration'');
          prompt = implementer_prompt iter (stateInt s ''max_iter'') (GetString s ''goal'');
          ((text, err), a, w1) = RunOnce (env_core env) (implementer_spec cfg) ctx prompt (read_cell cell w) w;
          w2 = write_cell cell a w1
      in case err of
           Some e \<Rightarrow> (failed (Wrapf ''implementer: %w'' [] e) s, w2)
         | None \<Rightarrow>
             (computed [(''changed_files'', VString (changedFiles (in_ctx a))), (''iteration'', VInt iter),
                (''last_agent'', VString ''implementer'')] s, w2))"

definition verifier_node ::
  "('s, 'u) Env \<Rightarrow> ('s, 'u) CodingLoopConfig \<Rightarrow> ('s, 'u) NodeFunc" where
  "verifier_node env cfg ctx s w =
     (let spec = role_spec cfg ''verifier'' [];
          prompt = verifier_prompt (stateInt s ''iteration'') (GetString s ''goal'') (GetString s ''changed_files'');
          ((text, err), a, w1) = RunOnce (env_core env) spec ctx prompt (NewInstance (env_core env) spec) w
      in case err of
           Some e \<Rightarrow> (failed (Wrapf ''verifier: %w'' [] e) s, w1)
         | None \<Rightarrow>
             (let verdict = completionResult (env_other env) (in_ctx a);
                  passed = (verdict \<noteq> '''' \<and> Contains verdict ''VERIFY: PASS'')
              in (computed [(''verify_result'', VString verdict),
                    (''status'', VString (if passed then ''success'' else ''failed'')),
                    (''last_agent'', VString ''verifier'')] s, w1)))"

definition updater_node ::
  "('s, 'u) Env \<Rightarrow> 'u Cell \<Rightarrow> ('s, 'u) CodingLoopConfig \<Rightarrow> ('s, 'u) NodeFunc" where
  "updater_node env cell cfg ctx s w =
     (let spec = role_spec cfg ''updater'' updater_tools; iter = stateInt s ''iteration'';
          prompt = updater_prompt iter (GetString s ''goal'') (GetString s ''verify_result'');
          ((text, err), a, w1) = RunOnce (env_core env) spec ctx prompt (NewInstance (env_core env) spec) w
      in case err of
           Some e \<Rightarrow> (failed (Wrapf ''updater: %w'' [] e) s, w1)
         | None \<Rightarrow>
             (let refined = completionResult (env_other env) (in_ctx a);
                  impl = read_cell cell w1;
                  w2 = (if refined = '''' then w1
                        else write_cell cell (impl\<lparr>in_ctx := co_AppendUser (env_core env)
                          (''[Refined prompt from updater iter '' @ dec_int iter @ '']'' @ newline @ refined)
                          (in_ctx impl)\<rparr>) w1)
              in (computed [(''refined_prompt'', VString refined), (''iteration'', VInt (wrap64 (iter + 1))),
                    (''last_agent'', VString ''updater'')] s, w2)))"

definition route_verifier :: "('s, 'u) RouteFunc" where
  "route_verifier ctx s =
     (if GetString s ''status'' = ''success'' then END
      else if stateInt s ''iteration'' \<ge> stateInt s ''max_iter'' then END
      else ''updater'')"

section \<open>RunCodingLoop\<close>

definition coding_builder ::
  "('s, 'u) Env \<Rightarrow> 'u Cell \<Rightarrow> ('s, 'u) CodingLoopConfig \<Rightarrow> string + ('s, 'u) Builder" where
  "coding_builder env cell cfg =
     and_then (AddNode ''implementer'' (Some (implementer_node env cell cfg)) NewBuilder)
       (\<lambda>b. and_then (AddNode ''verifier'' (Some (verifier_node env cfg)) b)
       (\<lambda>b. and_then (AddNode ''updater'' (Some (updater_node env cell cfg)) b)
       (\<lambda>b. and_then (SetEntry ''implementer'' b)
       (\<lambda>b. and_then (AddEdge ''implementer'' ''verifier'' b)
       (\<lambda>b. and_then (AddConditionalEdges ''verifier'' (Some route_verifier) b)
       (AddEdge ''updater'' ''implementer''))))))"

definition coding_defaults ::
  "('s, 'u) Env \<Rightarrow> ('s, 'u) World \<Rightarrow> ('s, 'u) CodingLoopConfig \<Rightarrow> ('s, 'u) CodingLoopConfig" where
  "coding_defaults env w cfg = cfg\<lparr>
     cl_MaxIter := (if cl_MaxIter cfg \<le> 0 then 5 else cl_MaxIter cfg),
     cl_MaxContext := (if cl_MaxContext cfg \<le> 0 then 1000000 else cl_MaxContext cfg),
     cl_MaxIterAgent := (if cl_MaxIterAgent cfg \<le> 0 then 100 else cl_MaxIterAgent cfg),
     cl_Reporter := (if cl_Reporter cfg = None then Some (env_Nop env) else cl_Reporter cfg),
     cl_Events := (if cl_Events cfg = None then Some (env_NewEmitter env) else cl_Events cfg),
     cl_ThreadID := (if cl_ThreadID cfg = '''' then ''coding-loop-'' @ dec_int (UnixNano (w_clock w))
                     else cl_ThreadID cfg)\<rparr>"

definition coding_options :: "('s, 'u) CodingLoopConfig \<Rightarrow> ('s, 'u) RunOption list" where
  "coding_options cfg =
     [WithThreadID (cl_ThreadID cfg), WithMaxSteps (wrap64 (wrap64 (cl_MaxIter cfg * 4) + 2))]
     @ (case cl_EventHandler cfg of None \<Rightarrow> [] | Some h \<Rightarrow> [WithEventHandler (Some h)])"

definition coding_input :: "('s, 'u) CodingLoopConfig \<Rightarrow> State" where
  "coding_input cfg = [''goal'' \<mapsto> VString (cl_Goal cfg), ''max_iter'' \<mapsto> VInt (cl_MaxIter cfg),
     ''iteration'' \<mapsto> VInt 1, ''status'' \<mapsto> VString ''running'']"

text \<open>The result of a run that ended without error.\<close>

definition coding_result :: "('s, 'u) CodingLoopConfig \<Rightarrow> State \<Rightarrow> CodingLoopResult" where
  "coding_result cfg out =
     (let iters = stateInt out ''iteration''
      in if GetString out ''status'' = ''success''
         then \<lparr>cl_Success = True, cl_Iterations = iters,
               cl_Message = ''Loop succeeded at iter '' @ dec_int iters, cl_State = out\<rparr>
         else \<lparr>cl_Success = False, cl_Iterations = iters,
               cl_Message = ''Loop failed after '' @ dec_int (cl_MaxIter cfg) @ '' iterations'', cl_State = out\<rparr>)"

type_synonym ('s, 'u) coding_outcome = "CodingLoopResult \<times> gerror option \<times> ('s, 'u) World"

abbreviation no_result :: CodingLoopResult where
  "no_result \<equiv> \<lparr>cl_Success = False, cl_Iterations = 0, cl_Message = '''', cl_State = Map.empty\<rparr>"

definition RunCodingLoop ::
  "('s, 'u) Env \<Rightarrow> 'u Cell \<Rightarrow> (string \<times> string) list \<Rightarrow> string list \<Rightarrow> ('s, 'u) Ctx
   \<Rightarrow> ('s, 'u) CodingLoopConfig \<Rightarrow> ('s, 'u) World \<Rightarrow> (string + ('s, 'u) coding_outcome) option" where
  "RunCodingLoop env cell es rs ctx cfg0 w0 =
     (if cl_Provider cfg0 = None
      then Some (Inr (no_result, Some (Errorf ''orchestrator: coding loop requires Provider'' []), w0))
      else
        (let cfg = coding_defaults env w0 cfg0;
             w1 = write_cell cell (NewInstance (env_core env) (implementer_spec cfg)) w0
         in case coding_builder env cell cfg of
              Inl p \<Rightarrow> Some (Inl p)
            | Inr b \<Rightarrow>
                (case supervisorStore env (cl_Checkpointer cfg) (cl_Durable cfg) (cl_Lease cfg) (cl_LeaseTTL cfg) w1 of
                   Inl e \<Rightarrow> Some (Inr (no_result, Some e, w1))
                 | Inr (opts, latest, w2) \<Rightarrow>
                     (case Compile opts es rs b of
                        Inl e \<Rightarrow> Some (Inr (no_result, Some e, w2))
                      | Inr g \<Rightarrow>
                          if cl_ResumeFromCheckpoint cfg \<and> cl_Checkpointer cfg = None \<and> cl_Durable cfg = None
                          then Some (Inr (no_result,
                            Some (Errorf ''orchestrator: ResumeFromCheckpoint requires Checkpointer or Durable'' []), w2))
                          else map_option
                            (\<lambda>(out, err, w3). Inr (case err of
                               Some e \<Rightarrow> (no_result, Some e, w3)
                             | None \<Rightarrow> (coding_result cfg out, None, w3)))
                            (if cl_ResumeFromCheckpoint cfg
                             then Resume g ctx (cl_ThreadID cfg) (coding_options cfg) w2
                             else Invoke g ctx (coding_input cfg) (coding_options cfg) w2)))))"

end
