(* ===== verification/CodingProps.thy ===== *)
theory CodingProps
  imports CodingLoop Rounds PresetSamples
begin

text \<open>
  The coding loop is bounded: the counter its nodes keep in the state bounds the rounds, so every
  new run returns, and the step bound it hands to the engine never cuts one short.
\<close>

section \<open>The graph\<close>

definition coding_graph ::
  "('s, 'u) Env \<Rightarrow> 'u Cell \<Rightarrow> ('s, 'u) CodingLoopConfig \<Rightarrow> ('s, 'u) Builder" where
  "coding_graph env cell cfg =
     \<lparr>b_nodes = [''implementer'' \<mapsto> implementer_node env cell cfg, ''verifier'' \<mapsto> verifier_node env cfg,
        ''updater'' \<mapsto> updater_node env cell cfg],
      b_edges = [''implementer'' \<mapsto> ''verifier'', ''updater'' \<mapsto> ''implementer''],
      b_routes = [''verifier'' \<mapsto> route_verifier], b_reducers = Map.empty, b_entry = ''implementer''\<rparr>"

lemma coding_builder_Inr: "coding_builder env cell cfg = Inr (coding_graph env cell cfg)"
  by (simp add: coding_builder_def coding_graph_def NewBuilder_def AddNode_def SetEntry_def AddEdge_def
      AddConditionalEdges_def)

section \<open>The counter\<close>

text \<open>What a verdict of the verifier means.\<close>

definition verified :: "State \<Rightarrow> bool" where
  "verified s \<longleftrightarrow> GetString s ''verify_result'' \<noteq> ''''
     \<and> Contains (GetString s ''verify_result'') ''VERIFY: PASS''"

text \<open>
  In iteration \<open>i\<close> of at most \<open>N\<close>: the implementer has step \<open>3 (i - 1)\<close>, the verifier and the
  updater come after it, and the loop is left with a verdict.
\<close>

definition coding_inv :: "int \<Rightarrow> State \<Rightarrow> string \<Rightarrow> int \<Rightarrow> bool" where
  "coding_inv N s n k \<longleftrightarrow> 1 \<le> N \<and> 4 * N + 2 \<le> max_int64 \<and> at_key s ''max_iter'' = VInt N
     \<and> (\<exists>i. at_key s ''iteration'' = VInt i \<and> 1 \<le> i \<and> i \<le> N
          \<and> (n = ''implementer'' \<and> k = 3 * (i - 1)
             \<or> n = ''verifier'' \<and> k = 3 * (i - 1) + 1
             \<or> n = ''updater'' \<and> k = 3 * (i - 1) + 2 \<and> i < N
             \<or> n = END \<and> k = 3 * (i - 1) + 2
               \<and> GetString s ''status'' = (if verified s then ''success'' else ''failed'')
               \<and> (verified s \<or> i = N)))"

lemma stateInt_VInt: "at_key s k = VInt i \<Longrightarrow> stateInt s k = i"
  by (simp add: stateInt_def)

text \<open>What each node leaves when it returns without error.\<close>

lemma agent_node_result:
  assumes "(let ((t, e), a, v) = x in
      case e of None \<Rightarrow> (computed (U t a v) s, G t a v) | Some z \<Rightarrow> (failed (F t z a v) s, H t z a v)) = (res, w')"
    and "nr_Err res = None"
  shows "\<exists>t a v. res = computed (U t a v) s"
  using assms by (auto simp: Let_def split: prod.splits option.splits)

lemma implementer_result:
  assumes "implementer_node env cell cfg c s w = (res, w')" "nr_Err res = None"
    and "at_key s ''iteration'' = VInt i" "1 \<le> i"
  shows "nr_State res = s \<and> (\<exists>x. nr_Update res = [(''changed_files'', x), (''iteration'', VInt i),
      (''last_agent'', VString ''implementer'')])"
proof -
  have i: "stateInt s ''iteration'' = i" "(if i = 0 then 1 else i) = i" using assms(3,4) stateInt_VInt by auto
  show ?thesis
    using agent_node_result [unfolded Let_def, OF assms(1) [unfolded implementer_node_def Let_def i] assms(2)]
    by fastforce
qed

lemma verifier_result:
  assumes "verifier_node env cfg c s w = (res, w')" "nr_Err res = None"
  shows "nr_State res = s \<and> (\<exists>v. nr_Update res = [(''verify_result'', VString v),
      (''status'', VString (if v \<noteq> '''' \<and> Contains v ''VERIFY: PASS'' then ''success'' else ''failed'')),
      (''last_agent'', VString ''verifier'')])"
  using agent_node_result [unfolded Let_def, OF assms(1) [unfolded verifier_node_def Let_def] assms(2)]
  by (elim exE, intro conjI exI) (simp, simp only: node_result.select_convs)

lemma updater_result:
  assumes "updater_node env cell cfg c s w = (res, w')" "nr_Err res = None" "at_key s ''iteration'' = VInt i"
  shows "nr_State res = s \<and> (\<exists>x. nr_Update res = [(''refined_prompt'', x), (''iteration'', VInt (wrap64 (i + 1))),
      (''last_agent'', VString ''updater'')])"
  using agent_node_result [unfolded Let_def,
      OF assms(1) [unfolded updater_node_def Let_def stateInt_VInt [OF assms(3)]] assms(2)]
  by fastforce

lemma coding_next:
  "next_node (graph_of opts (coding_graph env cell cfg)) c ''implementer'' s = Inr ''verifier''"
  "next_node (graph_of opts (coding_graph env cell cfg)) c ''updater'' s = Inr ''implementer''"
  "next_node (graph_of opts (coding_graph env cell cfg)) c ''verifier'' s
     = Inr (if GetString s ''status'' = ''success'' \<or> stateInt s ''iteration'' \<ge> stateInt s ''max_iter''
            then END else ''updater'')"
  by (simp_all add: next_node_def graph_of_def coding_graph_def route_verifier_def Let_def)

lemma coding_parts [simp]:
  "g_reducers (graph_of opts (coding_graph env cell cfg)) = Map.empty"
  "g_entry (graph_of opts (coding_graph env cell cfg)) = ''implementer''"
  "g_nodes (graph_of opts (coding_graph env cell cfg)) ''implementer'' = Some (implementer_node env cell cfg)"
  "g_nodes (graph_of opts (coding_graph env cell cfg)) ''verifier'' = Some (verifier_node env cfg)"
  "g_nodes (graph_of opts (coding_graph env cell cfg)) ''updater'' = Some (updater_node env cell cfg)"
  by (simp_all add: graph_of_def coding_graph_def Let_def)

text \<open>The three kinds of round.\<close>

lemma coding_implementer:
  assumes "coding_inv N s ''implementer'' k" "implementer_node env cell cfg c s w = (res, w')" "nr_Err res = None"
  shows "coding_inv N (Apply (nr_State res) (nr_Update res) Map.empty) ''verifier'' (k + 1)"
proof -
  obtain i where i: "at_key s ''iteration'' = VInt i" "1 \<le> i" "i \<le> N" "k = 3 * (i - 1)"
      "1 \<le> N" "4 * N + 2 \<le> max_int64" "at_key s ''max_iter'' = VInt N"
    using assms(1) by (auto simp: coding_inv_def)
  from implementer_result [OF assms(2,3) i(1,2)] i show ?thesis by (auto simp: coding_inv_def)
qed

lemma coding_verifier:
  assumes "coding_inv N s ''verifier'' k" "verifier_node env cfg c s w = (res, w')" "nr_Err res = None"
    and "s' = Apply (nr_State res) (nr_Update res) Map.empty"
  shows "coding_inv N s' (if GetString s' ''status'' = ''success'' \<or> stateInt s' ''iteration'' \<ge> stateInt s' ''max_iter''
            then END else ''updater'') (k + 1)"
proof -
  obtain i where i: "at_key s ''iteration'' = VInt i" "1 \<le> i" "i \<le> N" "k = 3 * (i - 1) + 1"
      "1 \<le> N" "4 * N + 2 \<le> max_int64" "at_key s ''max_iter'' = VInt N"
    using assms(1) by (auto simp: coding_inv_def)
  from verifier_result [OF assms(2,3)] obtain v where s': "s' = Apply s [(''verify_result'', VString v),
      (''status'', VString (if v \<noteq> '''' \<and> Contains v ''VERIFY: PASS'' then ''success'' else ''failed'')),
      (''last_agent'', VString ''verifier'')] Map.empty"
    unfolding assms(4) by auto
  then have s'_keys: "at_key s' ''iteration'' = VInt i" "at_key s' ''max_iter'' = VInt N"
      "verified s' \<longleftrightarrow> v \<noteq> '''' \<and> Contains v ''VERIFY: PASS''"
      "GetString s' ''status'' = (if verified s' then ''success'' else ''failed'')"
    using i by (simp_all add: verified_def)
  then show ?thesis using i by (auto simp: coding_inv_def stateInt_VInt)
qed

lemma coding_updater:
  assumes "coding_inv N s ''updater'' k" "updater_node env cell cfg c s w = (res, w')" "nr_Err res = None"
  shows "coding_inv N (Apply (nr_State res) (nr_Update res) Map.empty) ''implementer'' (k + 1)"
proof -
  obtain i where i: "at_key s ''iteration'' = VInt i" "1 \<le> i" "i < N" "k = 3 * (i - 1) + 2"
      "1 \<le> N" "4 * N + 2 \<le> max_int64" "at_key s ''max_iter'' = VInt N"
    using assms(1) by (auto simp: coding_inv_def)
  moreover have "wrap64 (i + 1) = i + 1" using i by (intro wrap64_succ) simp_all
  ultimately show ?thesis using updater_result [OF assms(2,3) i(1)] by (auto simp: coding_inv_def)
qed

interpretation coding: counted_rounds "graph_of opts (coding_graph env cell cfg)" "coding_inv N" "4 * N + 2"
  for opts env cell cfg N
proof unfold_locales
  fix s n k
  assume "coding_inv N s n k"
  then show "0 \<le> k \<and> k < 4 * N + 2 \<and> 4 * N + 2 \<le> max_int64" by (auto simp: coding_inv_def)
next
  fix s n k fn c w and res :: node_result and w' c' n'
  let ?g = "graph_of opts (coding_graph env cell cfg)"
  assume J: "coding_inv N s n k" and n: "n \<notin> {'''', END}" "g_nodes ?g n = Some fn"
    and call: "fn c s w = (res, w')" "nr_Err res = None"
    and nx: "next_node ?g c' n (Apply (nr_State res) (nr_Update res) (g_reducers ?g)) = Inr n'"
  have "n \<in> {''implementer'', ''verifier'', ''updater''}" using J n(1) by (auto simp: coding_inv_def)
  then show "coding_inv N (Apply (nr_State res) (nr_Update res) (g_reducers ?g)) n' (k + 1)"
    using J n(2) call nx coding_implementer [of N s k env cell cfg c w res w']
      coding_verifier [OF _ _ _ refl, of N s k env cfg c w res w'] coding_updater [of N s k env cell cfg c w res w']
    by (elim insertE emptyE) (simp_all only: coding_parts coding_next option.inject sum.inject)
qed

section \<open>The run\<close>

lemma coding_start:
  assumes "1 \<le> cl_MaxIter cfg" "4 * cl_MaxIter cfg + 2 \<le> max_int64"
  shows "coding_inv (cl_MaxIter cfg) (coding_input cfg) ''implementer'' 0"
  using assms by (simp add: coding_inv_def coding_input_def)

lemma coding_end:
  assumes "coding_inv N s n k" "n \<in> {'''', END}"
  obtains i where "at_key s ''iteration'' = VInt i" "1 \<le> i" "i \<le> N"
    "GetString s ''status'' = (if verified s then ''success'' else ''failed'')" "verified s \<or> i = N"
  using assms by (auto simp: coding_inv_def)

lemma coding_steps:
  assumes "1 \<le> cl_MaxIter cfg" "4 * cl_MaxIter cfg + 2 \<le> max_int64"
  shows "rc_maxSteps (fst (prepareRun g (coding_options cfg) w)) = 4 * cl_MaxIter cfg + 2"
proof -
  have "wrap64 (cl_MaxIter cfg * 4) = 4 * cl_MaxIter cfg" "wrap64 (4 * cl_MaxIter cfg + 2) = 4 * cl_MaxIter cfg + 2"
    using assms by (auto intro!: wrap64_id [THEN trans] simp: in_int64_def)
  then show ?thesis
    by (simp add: prepareRun_def coding_options_def WithThreadID_def WithMaxSteps_def WithEventHandler_def
        Let_def split: prod.split option.split)
qed

lemma coding_new_run:
  assumes "1 \<le> cl_MaxIter cfg" "4 * cl_MaxIter cfg + 2 \<le> max_int64"
    and "g = graph_of opts (coding_graph env cell cfg)"
  shows "\<exists>out e v. Invoke g c (coding_input cfg) (coding_options cfg) w = Some (out, e, v)
    \<and> (e = None \<longrightarrow> (let r = coding_result cfg out in 1 \<le> cl_Iterations r \<and> cl_Iterations r \<le> cl_MaxIter cfg
         \<and> cl_Success r = verified (cl_State r) \<and> (cl_Success r \<or> cl_Iterations r = cl_MaxIter cfg)))"
proof -
  have J: "coding_inv (cl_MaxIter cfg) (coding_input cfg) (g_entry g) 0"
    unfolding assms(3) coding_parts by (rule coding_start [OF assms(1,2)])
  obtain out e v where i: "Invoke g c (coding_input cfg) (coding_options cfg) w = Some (out, e, v)"
    using coding.Invoke_returns [OF J [unfolded assms(3)]] unfolding assms(3) by (metis prod_cases3)
  moreover have "let r = coding_result cfg out in 1 \<le> cl_Iterations r \<and> cl_Iterations r \<le> cl_MaxIter cfg
         \<and> cl_Success r = verified (cl_State r) \<and> (cl_Success r \<or> cl_Iterations r = cl_MaxIter cfg)"
    if "e = None"
  proof -
    have e: "Invoke (graph_of opts (coding_graph env cell cfg)) c (coding_input cfg) (coding_options cfg) w
        = Some (out, None, v)"
      using i that assms(3) by simp
    obtain m l where "m \<in> {'''', END}" "coding_inv (cl_MaxIter cfg) out m l"
      using coding.Invoke_ends [OF J [unfolded assms(3)] e] by blast
    then obtain j where "at_key out ''iteration'' = VInt j" "1 \<le> j" "j \<le> cl_MaxIter cfg"
      "GetString out ''status'' = (if verified out then ''success'' else ''failed'')"
      "verified out \<or> j = cl_MaxIter cfg"
      by (blast elim: coding_end)
    then show ?thesis by (auto simp: coding_result_def Let_def stateInt_VInt)
  qed
  ultimately show ?thesis by blast
qed

text \<open>
  C33: The coding loop is bounded by its iterations. A new run (\<open>N\<close> iterations allowed, by
  default 5, and no overflow in the step bound) returns without panic, whatever the agents, the
  store and the lease do. When it ends without an error it has taken between 1 and \<open>N\<close>
  iterations, it reports success exactly when the last verdict contains the pass mark, and it
  reports failure only after all \<open>N\<close>. The bound of \<open>4 N + 2\<close> steps it gives to the engine never
  stops a run: the run is the one without a bound.
\<close>

theorem RunCodingLoop_bounded:
  assumes "\<not> cl_ResumeFromCheckpoint cfg0" "coding_defaults env w0 cfg0 = cfg" "cl_MaxIter cfg = N"
    and "4 * N + 2 \<le> max_int64"
  shows "(\<exists>r e w'. RunCodingLoop env cell es rs c cfg0 w0 = Some (Inr (r, e, w'))
      \<and> (e = None \<longrightarrow> 1 \<le> cl_Iterations r \<and> cl_Iterations r \<le> N \<and> cl_Success r = verified (cl_State r)
           \<and> (cl_Success r \<or> cl_Iterations r = N)))
    \<and> (\<forall>b opts g w. coding_builder env cell cfg = Inr b \<and> Compile opts es rs b = Inr g \<longrightarrow>
         Invoke g c (coding_input cfg) (coding_options cfg) w
           = Invoke g c (coding_input cfg) (coding_options cfg @ [WithMaxSteps 0]) w)"
proof (intro conjI allI impI)
  have N: "1 \<le> cl_MaxIter cfg" "4 * cl_MaxIter cfg + 2 \<le> max_int64"
    using assms(2-4) by (auto simp: coding_defaults_def)
  have new: "\<not> cl_ResumeFromCheckpoint cfg" using assms(1,2) by (auto simp: coding_defaults_def)
  let ?P = "\<lambda>r e. e = None \<longrightarrow> 1 \<le> cl_Iterations r \<and> cl_Iterations r \<le> N \<and> cl_Success r = verified (cl_State r)
           \<and> (cl_Success r \<or> cl_Iterations r = N)"
  show "\<exists>r e w'. RunCodingLoop env cell es rs c cfg0 w0 = Some (Inr (r, e, w')) \<and> ?P r e"
  proof -
    define w1 where "w1 = write_cell cell (NewInstance (env_core env) (implementer_spec cfg)) w0"
    have run: "RunCodingLoop env cell es rs c cfg0 w0 =
       (if cl_Provider cfg0 = None
        then Some (Inr (no_result, Some (Errorf ''orchestrator: coding loop requires Provider'' []), w0))
        else (case supervisorStore env (cl_Checkpointer cfg) (cl_Durable cfg) (cl_Lease cfg) (cl_LeaseTTL cfg) w1 of
                   Inl e \<Rightarrow> Some (Inr (no_result, Some e, w1))
                 | Inr (opts, latest, w2) \<Rightarrow>
                     (case Compile opts es rs (coding_graph env cell cfg) of
                        Inl e \<Rightarrow> Some (Inr (no_result, Some e, w2))
                      | Inr g \<Rightarrow> map_option
                            (\<lambda>(out, err, w3). Inr (case err of
                               Some e \<Rightarrow> (no_result, Some e, w3)
                             | None \<Rightarrow> (coding_result cfg out, None, w3)))
                            (Invoke g c (coding_input cfg) (coding_options cfg) w2))))"
      unfolding RunCodingLoop_def Let_def assms(2) coding_builder_Inr sum.case w1_def [symmetric]
      using new by (simp only: if_False simp_thms)
    have g: "\<exists>r e w'. map_option (\<lambda>(out, err, w3). Inr (case err of
          Some e \<Rightarrow> (no_result, Some e, w3) | None \<Rightarrow> (coding_result cfg out, None, w3)))
          (Invoke g c (coding_input cfg) (coding_options cfg) w2) = Some (Inr (r, e, w')) \<and> ?P r e"
      if ok: "Compile opts es rs (coding_graph env cell cfg) = Inr g" for opts g w2
    proof -
      obtain out e v where "Invoke g c (coding_input cfg) (coding_options cfg) w2 = Some (out, e, v)"
          "e = None \<longrightarrow> ?P (coding_result cfg out) e"
        using coding_new_run [OF N Compile_Inr [OF ok], of c w2] assms(3) unfolding Let_def by blast
      then show ?thesis by (cases e) auto
    qed
    show ?thesis
    proof (cases "supervisorStore env (cl_Checkpointer cfg) (cl_Durable cfg) (cl_Lease cfg) (cl_LeaseTTL cfg) w1")
      case (Inr store)
      obtain opts latest w2 where st: "store = (opts, latest, w2)" by (cases store)
      show ?thesis
        using g [of opts _ w2] unfolding run Inr st sum.case prod.case
        by (cases "Compile opts es rs (coding_graph env cell cfg)") (auto simp: sum.case)
    qed (auto simp: run)
  qed
  fix b opts g w
  assume "coding_builder env cell cfg = Inr b \<and> Compile opts es rs b = Inr g"
  then have g: "g = graph_of opts (coding_graph env cell cfg)" by (auto simp: coding_builder_Inr dest: Compile_Inr)
  show "Invoke g c (coding_input cfg) (coding_options cfg) w
      = Invoke g c (coding_input cfg) (coding_options cfg @ [WithMaxSteps 0]) w"
    unfolding g
    by (rule coding.Invoke_unbounded [where N = "cl_MaxIter cfg"])
      (simp_all add: coding_start [OF N] coding_steps [OF N])
qed

definition sample_cell :: "Instance option Cell" where
  "sample_cell = \<lparr>cell_get = the, cell_put = (\<lambda>a u. Some a)\<rparr>"

definition sample_coding :: "(Memory, Instance option) CodingLoopConfig" where
  "sample_coding = \<lparr>cl_Goal = ''fix it'', cl_MaxIter = 0, cl_SystemPrompt = '''', cl_Provider = Some 0,
     cl_Registry = None, cl_Reporter = None, cl_Events = None, cl_MaxContext = 0, cl_MaxIterAgent = 0,
     cl_Stream = False, cl_ThreadID = ''t'', cl_Checkpointer = None, cl_Durable = None, cl_Lease = None,
     cl_LeaseTTL = 0, cl_EventHandler = None, cl_ResumeFromCheckpoint = False\<rparr>"

theorem RunCodingLoop_bounded_witness:
  "\<exists>r e w'. RunCodingLoop sample_env sample_cell [(''implementer'', ''verifier''), (''updater'', ''implementer'')]
       [''verifier''] Background sample_coding (preset_world None) = Some (Inr (r, e, w'))
     \<and> (e = None \<longrightarrow> 1 \<le> cl_Iterations r \<and> cl_Iterations r \<le> 5 \<and> cl_Success r = verified (cl_State r)
          \<and> (cl_Success r \<or> cl_Iterations r = 5))"
  by (rule RunCodingLoop_bounded [OF _ refl, THEN conjunct1])
    (simp_all add: sample_coding_def coding_defaults_def max_int64_def)

end
