(* ===== verification/JsonText.thy ===== *)
theory JsonText
  imports Json
begin

text \<open>
  What \<open>Marshal\<close> writes is read back: a valid string by its literal, and every well-formed
  syntax tree by its text.
\<close>

section \<open>Characters\<close>

lemma hex_value_digit [simp]: "n < 16 \<Longrightarrow> hex_value (hex_digit n) = Some n"
proof -
  assume "n < 16"
  then have "n \<in> {0, 1, 2, 3, 4, 5, 6, 7, 8, 9, 10, 11, 12, 13, 14, 15}" by (simp, arith)
  then show ?thesis by (auto simp: hex_value_def hex_digit_def Let_def)
qed

lemma next_bytes_ascii: "next_bytes x = Some [] \<longleftrightarrow> x < 0x80"
  by (simp add: next_bytes_def)

lemma starts_within_take:
  "starts_within rs t \<Longrightarrow> starts_within rs (take (length rs) t @ u) \<and> length rs \<le> length t"
  by (induction rs t rule: starts_within.induct) auto

lemma rune_len_cases:
  assumes "rune_len a t \<noteq> 0"
  obtains (ascii) "of_char a < (0x80 :: nat)" "rune_len a t = 1"
  | (long) rs where "next_bytes (of_char a) = Some rs" "rs \<noteq> []" "starts_within rs t"
      "rune_len a t = Suc (length rs)" "of_char a \<ge> (0xC2 :: nat)"
proof (cases "next_bytes (of_char a)")
  case None
  with assms show thesis by (simp add: rune_len_def)
next
  case (Some rs)
  have sw: "starts_within rs t" using assms Some by (simp add: rune_len_def split: if_splits)
  show thesis
  proof (cases "rs = []")
    case True
    with Some have "next_bytes (of_char a) = Some []" by simp
    then show thesis using next_bytes_ascii [of "of_char a"] ascii by (simp add: rune_len_def)
  next
    case False
    moreover have "\<not> (of_char a :: nat) < 0xC2" using Some False by (auto simp: next_bytes_def split: if_splits)
    ultimately show thesis using Some sw long by (simp add: rune_len_def)
  qed
qed

lemma rune_len_append:
  assumes "rune_len a t = Suc n" "n \<noteq> 0"
  shows "rune_len a (take n t @ u) = Suc n \<and> n \<le> length t"
  using assms starts_within_take
  by (auto simp: rune_len_def split: option.splits if_splits)

lemma string_body_hex:
  assumes "i < 16" "j < 16" "k < 16" "l < 16" "h = ((i * 16 + j) * 16 + k) * 16 + l" "h < 0xD800"
  shows "string_body (CHR 0x5C # CHR ''u'' # hex_digit i # hex_digit j # hex_digit k # hex_digit l # t)
    = put_front (utf8_encode h) (string_body t)"
  using assms by (simp add: string_body.simps(2) [of "CHR 0x5C"] hex4_def)

lemma char_codes:
  "char_of (8 :: nat) = CHR 0x08" "char_of (9 :: nat) = CHR 0x09" "char_of (10 :: nat) = CHR 0x0A"
  "char_of (12 :: nat) = CHR 0x0C" "char_of (13 :: nat) = CHR 0x0D" "char_of (226 :: nat) = CHR 0xE2"
  "char_of (128 :: nat) = CHR 0x80" "char_of (168 :: nat) = CHR 0xA8" "char_of (169 :: nat) = CHR 0xA9"
  by (simp_all add: char_of_def bit_0)

lemma hex_digits: "hex_digit 0 = CHR ''0''" "hex_digit 2 = CHR ''2''" "hex_digit 8 = CHR ''8''" "hex_digit 9 = CHR ''9''"
  by (simp_all add: hex_digit_def)

lemma escaped_ascii:
  assumes "of_char c < (0x80 :: nat)"
  shows "string_body (escape [c] @ t) = put_front [c] (string_body t)"
proof -
  let ?n = "of_char c :: nat"
  consider (quote) "c = CHR 0x5C \<or> c = CHR 0x22" | (control) "?n \<in> {8, 9, 10, 12, 13}"
    | (hex) "c \<noteq> CHR 0x5C" "c \<noteq> CHR 0x22" "?n \<notin> {8, 9, 10, 12, 13}" "?n < 32 \<or> c \<in> {CHR ''<'', CHR ''>'', CHR ''&''}"
    | (plain) "c \<noteq> CHR 0x5C" "c \<noteq> CHR 0x22" "?n \<ge> 32" "c \<notin> {CHR ''<'', CHR ''>'', CHR ''&''}"
    by force
  then show ?thesis
  proof cases
    case quote
    then show ?thesis by (auto simp: escape_def Let_def string_body.simps(2) [of "CHR 0x5C"] unescape_def)
  next
    case control
    then have "char_of ?n \<in> char_of ` {8, 9, 10, 12, 13 :: nat}" by (rule imageI)
    then have "c \<in> {CHR 0x08, CHR 0x09, CHR 0x0A, CHR 0x0C, CHR 0x0D}" by (simp add: char_codes)
    then show ?thesis
      by (elim insertE emptyE) (simp_all add: escape_def Let_def string_body.simps(2) [of "CHR 0x5C"] unescape_def)
  next
    case hex
    have "escape [c] = CHR 0x5C # CHR ''u'' # hex_digit 0 # hex_digit 0 # hex_digit (?n div 16) # hex_digit (?n mod 16) # []"
      using hex by (auto simp: escape_def Let_def hex_digits)
    moreover have "utf8_encode ?n = [c]" using assms by (simp add: utf8_encode_def)
    ultimately show ?thesis
      using string_body_hex [of 0 0 "?n div 16" "?n mod 16" ?n t] assms by simp
  next
    case plain
    then have "escape [c] = [c]" using assms by (simp add: escape_def Let_def)
    moreover have "rune_len c t = 1" using assms next_bytes_ascii [of ?n] by (simp add: rune_len_def)
    ultimately show ?thesis using plain by (simp add: string_body.simps(2) [of c])
  qed
qed

lemma escaped_long:
  assumes "rune_len a t = Suc n" "n \<noteq> 0" "of_char a \<ge> (0xC2 :: nat)"
  shows "string_body (escape (a # take n t) @ u) = put_front (a # take n t) (string_body u)"
proof -
  have n: "n \<le> length t" using rune_len_append [OF assms(1,2)] by blast
  then obtain b bs where bs: "take n t = b # bs" using assms(2) by (cases t; cases n) auto
  show ?thesis
  proof (cases "a # take n t = [CHR 0xE2, CHR 0x80, CHR 0xA8] \<or> a # take n t = [CHR 0xE2, CHR 0x80, CHR 0xA9]")
    case True
    then show ?thesis
      using string_body_hex [of 2 0 2 8 "0x2028" u] string_body_hex [of 2 0 2 9 "0x2029" u]
      by (auto simp: escape_def hex_digits utf8_encode_def char_codes)
  next
    case False
    then have e: "escape (a # take n t) = a # take n t" unfolding bs by (simp add: escape_def)
    have len: "rune_len a (take n t @ u) = Suc n" using rune_len_append [OF assms(1,2)] by blast
    have "a \<noteq> CHR 0x22" "a \<noteq> CHR 0x5C" using assms(3) by auto
    then show ?thesis using assms(3) n len unfolding e by (simp add: string_body.simps(2) [of a])
  qed
qed

section \<open>Strings\<close>

lemma string_body_escaped:
  "valid_utf8 s \<Longrightarrow> string_body (concat (map escape (runes s)) @ CHR 0x22 # rest) = Some (s, rest)"
proof (induction s rule: valid_utf8.induct)
  case 1
  then show ?case by (simp add: string_body.simps(2))
next
  case (2 a t)
  let ?n = "rune_len a t - 1"
  have ok: "rune_len a t \<noteq> 0" "valid_utf8 (drop ?n t)" using 2(2) by (simp_all add: valid_utf8.simps(2))
  have IH: "string_body (concat (map escape (runes (drop ?n t))) @ CHR 0x22 # rest) = Some (drop ?n t, rest)"
    by (rule 2(1)) (rule ok(2))
  have "string_body (escape (a # take ?n t) @ u) = put_front (a # take ?n t) (string_body u)" for u
    using ok(1)
  proof (cases rule: rune_len_cases)
    case ascii
    then show ?thesis by (simp add: escaped_ascii)
  next
    case (long rs)
    then show ?thesis by (simp add: escaped_long)
  qed
  from this [of "concat (map escape (runes (drop ?n t))) @ CHR 0x22 # rest"] show ?case
    by (simp add: runes.simps(2) Let_def IH [unfolded One_nat_def])
qed

lemma json_string_read:
  "valid_utf8 s \<Longrightarrow> json_string s = CHR 0x22 # t \<Longrightarrow> string_body (t @ rest) = Some (s, rest)"
  using string_body_escaped [of s rest] by (auto simp: json_string_def)

section \<open>Texts\<close>

text \<open>
  A syntax tree that \<open>Marshal\<close> makes of a plain value: valid strings, integers as numbers, and no
  more than \<open>d\<close> arrays and objects inside each other.
\<close>

fun readable :: "nat \<Rightarrow> json \<Rightarrow> bool" where
  "readable d JNull = True"
| "readable d (JBool b) = True"
| "readable d (JNumber l) = (\<exists>i. l = dec_int i)"
| "readable d (JString s) = valid_utf8 s"
| "readable d (JArray vs) = (0 < d \<and> (\<forall>v \<in> set vs. readable (d - 1) v))"
| "readable d (JObject ms) = (0 < d \<and> (\<forall>(k, v) \<in> set ms. valid_utf8 k \<and> readable (d - 1) v))"

definition json_space :: "char set" where
  "json_space = {CHR 0x20, CHR 0x09, CHR 0x0A, CHR 0x0D}"

lemma skip_ws_id: "c \<notin> json_space \<Longrightarrow> skip_ws (c # t) = c # t"
  by (simp add: skip_ws_def json_space_def)

lemma skip_ws_marks [simp]:
  "skip_ws (CHR '','' # t) = CHR '','' # t" "skip_ws (CHR '']'' # t) = CHR '']'' # t"
  "skip_ws (CHR ''}'' # t) = CHR ''}'' # t" "skip_ws (CHR '':'' # t) = CHR '':'' # t"
  "skip_ws (CHR 0x22 # t) = CHR 0x22 # t"
  by (simp_all add: skip_ws_def)

text \<open>Where a value may end.\<close>

definition value_end :: "string \<Rightarrow> bool" where
  "value_end rest \<longleftrightarrow> rest = [] \<or> hd rest \<in> {CHR '','', CHR '']'', CHR ''}''}"

lemma value_end_marks [simp]:
  "value_end []" "value_end (CHR '','' # t)" "value_end (CHR '']'' # t)" "value_end (CHR ''}'' # t)"
  by (simp_all add: value_end_def)

lemma dec_int_head:
  obtains c t where "dec_int i = c # t" "c = CHR ''-'' \<or> is_digit c"
proof -
  have "\<exists>c t. dec_nat n = c # t \<and> is_digit c" for n
    using dec_nat_digits [of n] by (cases "dec_nat n") auto
  then show thesis using that unfolding dec_int_def by (cases "i < 0") auto
qed

lemma scan_dec_int: "value_end rest \<Longrightarrow> scan_number (dec_int i @ rest) = Some (dec_int i, rest)"
  by (rule scan_number_dec) (auto simp: value_end_def is_digit_def)

lemma digit_not: "c = CHR ''-'' \<or> is_digit c \<Longrightarrow> c \<notin> json_space
    \<and> c \<notin> {CHR 0x22, CHR ''['', CHR ''{'', CHR ''n'', CHR ''t'', CHR ''f'', CHR '']'', CHR ''}''}"
  by (auto simp: json_space_def is_digit_def)

lemma print_head:
  assumes "readable d j"
  shows "\<exists>c t. print_json j = c # t \<and> c \<notin> json_space \<and> c \<noteq> CHR '']'' \<and> c \<noteq> CHR ''}''"
proof (cases j)
  case (JNumber l)
  then obtain i where l: "l = dec_int i" using assms by auto
  obtain c t where "dec_int i = c # t" "c = CHR ''-'' \<or> is_digit c" by (rule dec_int_head)
  with digit_not [OF this(2)] JNumber l show ?thesis by simp
qed (simp_all add: json_space_def json_string_def)

lemma print_elems_head: "\<exists>u. print_elems (v # vs) = print_json v @ u"
  by (cases vs) auto

lemma print_members_head: "\<exists>u. print_members ((k, v) # ms) = CHR 0x22 # u"
  by (cases ms) (auto simp: json_string_def)

section \<open>Reading a text\<close>

lemma parse_number:
  assumes "value_end rest"
  shows "parse_value (Suc n) d (dec_int i @ rest) = Some (JNumber (dec_int i), rest)"
proof -
  obtain c t where c: "dec_int i = c # t" "c = CHR ''-'' \<or> is_digit c" by (rule dec_int_head)
  from digit_not [OF c(2)] have "c \<notin> json_space" "c \<noteq> CHR 0x22" "c \<noteq> CHR ''[''" "c \<noteq> CHR ''{''" "c \<noteq> CHR ''n''"
    "c \<noteq> CHR ''t''" "c \<noteq> CHR ''f''" by simp_all
  then show ?thesis
    using scan_dec_int [OF assms, of i] unfolding c(1)
    by (simp add: parse_value.simps(2) skip_ws_id)
qed

lemma parse_string:
  assumes "valid_utf8 s"
  shows "parse_value (Suc n) d (json_string s @ rest) = Some (JString s, rest)"
  using string_body_escaped [OF assms, of rest] by (simp add: parse_value.simps(2) json_string_def)

lemma parse_array:
  assumes "print_elems vs @ CHR '']'' # rest = c # t" "c \<notin> json_space" "c \<noteq> CHR '']''" "0 < d"
    and "parse_elems n (d - 1) (c # t) = Some (vs, rest)"
  shows "parse_value (Suc n) d (print_json (JArray vs) @ rest) = Some (JArray vs, rest)"
  using assms by (simp add: parse_value.simps(2) skip_ws_id [of "CHR ''[''"] skip_ws_id json_space_def)

lemma parse_object:
  assumes "print_members ms @ CHR ''}'' # rest = CHR 0x22 # t" "0 < d"
    and "parse_members n (d - 1) (CHR 0x22 # t) = Some (ms, rest)"
  shows "parse_value (Suc n) d (print_json (JObject ms) @ rest) = Some (JObject ms, rest)"
  using assms by (simp add: parse_value.simps(2) skip_ws_id [of "CHR ''{''"] json_space_def)

lemma parse_element:
  assumes "parse_value n d s = Some (v, CHR '','' # t)" "parse_elems n d t = Some (vs, r)"
  shows "parse_elems (Suc n) d s = Some (v # vs, r)"
  using assms by (simp add: parse_elems.simps(2))

lemma parse_last_element:
  assumes "parse_value n d s = Some (v, CHR '']'' # r)"
  shows "parse_elems (Suc n) d s = Some ([v], r)"
  using assms by (simp add: parse_elems.simps(2))

lemma parse_member:
  assumes "valid_utf8 k" "parse_value n d s = Some (v, CHR '','' # t)" "parse_members n d t = Some (ms, r)"
  shows "parse_members (Suc n) d (json_string k @ CHR '':'' # s) = Some ((k, v) # ms, r)"
  using assms string_body_escaped [OF assms(1), of "CHR '':'' # s"]
  by (simp add: parse_members.simps(2) json_string_def)

lemma parse_last_member:
  assumes "valid_utf8 k" "parse_value n d s = Some (v, CHR ''}'' # r)"
  shows "parse_members (Suc n) d (json_string k @ CHR '':'' # s) = Some ([(k, v)], r)"
  using assms string_body_escaped [OF assms(1), of "CHR '':'' # s"]
  by (simp add: parse_members.simps(2) json_string_def)

text \<open>Twice the length of a text is fuel enough to read it.\<close>

lemma parse_printed:
  "readable d j \<Longrightarrow> 2 * length (print_json j) \<le> n \<Longrightarrow> value_end rest \<Longrightarrow>
     parse_value n d (print_json j @ rest) = Some (j, rest)"
  "vs \<noteq> [] \<Longrightarrow> \<forall>v \<in> set vs. readable d v \<Longrightarrow> 2 * length (print_elems vs) < n \<Longrightarrow>
     parse_elems n d (print_elems vs @ CHR '']'' # rest) = Some (vs, rest)"
  "ms \<noteq> [] \<Longrightarrow> \<forall>(k, v) \<in> set ms. valid_utf8 k \<and> readable d v \<Longrightarrow> 2 * length (print_members ms) < n \<Longrightarrow>
     parse_members n d (print_members ms @ CHR ''}'' # rest) = Some (ms, rest)"
proof (induction j and vs and ms arbitrary: n d rest and n d rest and n d rest
    rule: print_json_print_elems_print_members.induct)
  case 1
  then obtain m where "n = Suc m" by (cases n) auto
  then show ?case by (simp add: parse_value.simps(2) skip_ws_id json_space_def literal_def)
next
  case (2 b)
  then obtain m where "n = Suc m" by (cases n) (auto split: if_splits)
  then show ?case by (simp add: parse_value.simps(2) skip_ws_id json_space_def literal_def)
next
  case (3 l)
  then obtain i where i: "l = dec_int i" by auto
  obtain c t where "dec_int i = c # t" by (rule dec_int_head)
  with 3(2) i obtain m where "n = Suc m" by (cases n) auto
  with parse_number [OF 3(3)] i show ?case by simp
next
  case (4 s)
  then obtain m where "n = Suc m" by (cases n) (auto simp: json_string_def)
  with parse_string 4(1) show ?case by simp
next
  case (5 vs)
  obtain m where n: "n = Suc m" and m: "2 * length (print_elems vs) < m" using 5(3) by (cases n) auto
  have d: "0 < d" "\<forall>v \<in> set vs. readable (d - 1) v" using 5(2) by simp_all
  show ?case
  proof (cases vs)
    case Nil
    then show ?thesis using n d by (simp add: parse_value.simps(2) skip_ws_id [of "CHR ''[''"] json_space_def)
  next
    case (Cons v us)
    obtain c t where c: "print_json v = c # t" "c \<notin> json_space" "c \<noteq> CHR '']''"
      using print_head [of "d - 1" v] d(2) Cons by auto
    obtain u where "print_elems vs = print_json v @ u" using print_elems_head Cons by blast
    with c(1) have t: "print_elems vs @ CHR '']'' # rest = c # t @ u @ CHR '']'' # rest" by simp
    have e: "parse_elems m (d - 1) (print_elems vs @ CHR '']'' # rest) = Some (vs, rest)"
      by (rule 5(1)) (use Cons d(2) m in simp_all)
    show ?thesis unfolding n by (rule parse_array [OF t c(2,3) d(1) e [unfolded t]])
  qed
next
  case (6 ms)
  obtain m where n: "n = Suc m" and m: "2 * length (print_members ms) < m" using 6(3) by (cases n) auto
  have d: "0 < d" "\<forall>(k, v) \<in> set ms. valid_utf8 k \<and> readable (d - 1) v" using 6(2) by simp_all
  show ?case
  proof (cases ms)
    case Nil
    then show ?thesis using n d by (simp add: parse_value.simps(2) skip_ws_id [of "CHR ''{''"] json_space_def)
  next
    case (Cons kv us)
    obtain k v where "kv = (k, v)" by (cases kv)
    with Cons obtain u where "print_members ms = CHR 0x22 # u" using print_members_head [of k v us] by auto
    then have t: "print_members ms @ CHR ''}'' # rest = CHR 0x22 # u @ CHR ''}'' # rest" by simp
    have e: "parse_members m (d - 1) (print_members ms @ CHR ''}'' # rest) = Some (ms, rest)"
      by (rule 6(1)) (use Cons d(2) m in simp_all)
    show ?thesis unfolding n by (rule parse_object [OF t d(1) e [unfolded t]])
  qed
next
  case 7
  then show ?case by simp
next
  case (8 v)
  then obtain m where n: "n = Suc m" "2 * length (print_json v) \<le> m" by (cases n) auto
  have "parse_value m d (print_json v @ CHR '']'' # rest) = Some (v, CHR '']'' # rest)"
    by (rule 8(1)) (use 8(3) n in simp_all)
  then show ?case unfolding n(1) by (simp add: parse_last_element)
next
  case (9 v w vs)
  then obtain m where n: "n = Suc m" "2 * length (print_json v) \<le> m" "2 * length (print_elems (w # vs)) < m"
    by (cases n) auto
  have "parse_value m d (print_json v @ CHR '','' # print_elems (w # vs) @ CHR '']'' # rest)
      = Some (v, CHR '','' # print_elems (w # vs) @ CHR '']'' # rest)"
    by (rule 9(1)) (use 9(4) n in simp_all)
  moreover have "parse_elems m d (print_elems (w # vs) @ CHR '']'' # rest) = Some (w # vs, rest)"
    by (rule 9(2)) (use 9(4) n in simp_all)
  ultimately show ?case unfolding n(1) by (simp add: parse_element)
next
  case 10
  then show ?case by simp
next
  case (11 k v)
  then obtain m where n: "n = Suc m" "2 * length (print_json v) \<le> m" by (cases n) auto
  have "parse_value m d (print_json v @ CHR ''}'' # rest) = Some (v, CHR ''}'' # rest)"
    by (rule 11(1)) (use 11(3) n in simp_all)
  then show ?case using 11(3) unfolding n(1) by (simp add: parse_last_member)
next
  case (12 k v m0 ms)
  then obtain m where n: "n = Suc m" "2 * length (print_json v) \<le> m" "2 * length (print_members (m0 # ms)) < m"
    by (cases n) auto
  have "parse_value m d (print_json v @ CHR '','' # print_members (m0 # ms) @ CHR ''}'' # rest)
      = Some (v, CHR '','' # print_members (m0 # ms) @ CHR ''}'' # rest)"
    by (rule 12(1)) (use 12(4) n in simp_all)
  moreover have "parse_members m d (print_members (m0 # ms) @ CHR ''}'' # rest) = Some (m0 # ms, rest)"
    by (rule 12(2)) (use 12(4) n in simp_all)
  ultimately show ?case using 12(4) unfolding n(1) by (simp add: parse_member)
qed

lemma parse_json_printed: "readable 10000 j \<Longrightarrow> parse_json (print_json j) = Some j"
  using parse_printed(1) [of 10000 j "2 * length (print_json j) + 2" "[]"]
  by (simp add: parse_json_def skip_ws_def)

end
