(* ===== verification/JsonValues.thy ===== *)
theory JsonValues
  imports JsonText
begin

text \<open>
  What a plain value is after \<open>Marshal\<close> and \<open>Unmarshal\<close>: integers are \<open>float64\<close>, handoffs are
  maps, everything else is as it was, and a second round trip changes nothing more.
\<close>

section \<open>The text of a whole float64\<close>

lemma dec_nat_times10: "0 < m \<Longrightarrow> dec_nat (m * 10) = dec_nat m @ ''0''"
  by (subst dec_nat.simps) (simp add: hex_digit_def)

lemma dec_nat_shift: "0 < m \<Longrightarrow> dec_nat (m * 10 ^ k) = dec_nat m @ replicate k (CHR ''0'')"
proof (induction k arbitrary: m)
  case (Suc k)
  have "dec_nat (m * 10 * 10 ^ k) = dec_nat (m * 10) @ replicate k (CHR ''0'')"
    by (rule Suc.IH) (use Suc.prems in simp)
  then show ?case using Suc.prems by (simp add: dec_nat_times10 ac_simps)
qed simp

lemma dec_nat_length: "0 < n \<Longrightarrow> 10 ^ (length (dec_nat n) - 1) \<le> n \<and> n < 10 ^ length (dec_nat n)"
proof (induction n rule: dec_nat.induct)
  case (1 n)
  show ?case
  proof (cases "n < 10")
    case True
    with 1(2) show ?thesis by (simp add: dec_nat.simps)
  next
    case False
    then have IH: "10 ^ (length (dec_nat (n div 10)) - 1) \<le> n div 10 \<and> n div 10 < 10 ^ length (dec_nat (n div 10))"
      using 1(1) by simp
    have len: "length (dec_nat n) = Suc (length (dec_nat (n div 10)))"
      using False by (subst dec_nat.simps) simp
    obtain l where l: "length (dec_nat (n div 10)) = Suc l" by (cases "dec_nat (n div 10)") auto
    have "10 * 10 ^ l \<le> n" using IH unfolding l by (simp, linarith)
    moreover have "n < 10 * 10 ^ Suc l" using IH unfolding l by (simp, linarith)
    ultimately show ?thesis unfolding len l by simp
  qed
qed

lemma strip_zeros:
  "\<exists>k. ds = rev (dropWhile (\<lambda>c. c = CHR ''0'') (rev ds)) @ replicate k (CHR ''0'')
     \<and> length ds = length (dropWhile (\<lambda>c. c = CHR ''0'') (rev ds)) + k"
proof -
  let ?P = "\<lambda>c. c = CHR ''0''"
  have "takeWhile ?P (rev ds) = replicate (length (takeWhile ?P (rev ds))) (CHR ''0'')"
    by (rule replicate_eqI) (auto dest: set_takeWhileD)
  then have "rev ds = replicate (length (takeWhile ?P (rev ds))) (CHR ''0'') @ dropWhile ?P (rev ds)"
    by (metis takeWhile_dropWhile_id)
  then have "ds = rev (dropWhile ?P (rev ds)) @ replicate (length (takeWhile ?P (rev ds))) (CHR ''0'')"
    by (metis rev_append rev_replicate rev_rev_ident)
  moreover from this have "length ds = length (dropWhile ?P (rev ds)) + length (takeWhile ?P (rev ds))"
    by (metis length_append length_replicate length_rev)
  ultimately show ?thesis by blast
qed

lemma dec_exp_nat: "0 < n \<Longrightarrow> dec_exp (of_nat n) = int (length (dec_nat n)) - 1"
  by (simp add: dec_exp_def)

text \<open>The only decimal of few digits that is read as a whole number is the number.\<close>

lemma candidate_exact:
  assumes "0 < n" "n \<le> 10 ^ 15" "d \<le> length (dec_nat n)" "0 < d" "(m, k) \<in> set (candidates (of_nat n) d)"
  shows "0 \<le> k \<and> n = m * 10 ^ nat k"
proof -
  define l where "l = length (dec_nat n) - d"
  have k: "dec_exp (of_nat n) - int d + 1 = int l"
    using assms(1,3) by (simp add: dec_exp_nat l_def of_nat_diff)
  have p: "pow10 (int l) = of_nat (10 ^ l)" by (simp add: pow10_def)
  have lo: "nat \<lfloor>of_nat n / (of_nat (10 ^ l) :: rat)\<rfloor> = n div 10 ^ l"
    by (simp only: floor_divide_of_nat_eq nat_int)
  have m: "k = int l" "m = n div 10 ^ l \<or> m = Suc (n div 10 ^ l)"
      and r: "round64 (of_nat m * pow10 k) = Some (of_nat n)"
    using assms(5) unfolding candidates_def Let_def k p lo by (auto split: if_splits)
  have "10 ^ l \<le> (10 :: nat) ^ (length (dec_nat n) - 1)"
    using assms(4) by (intro power_increasing) (simp_all add: l_def)
  with dec_nat_length [OF assms(1)] have le: "10 ^ l \<le> n" by (meson le_trans)
  have "m * 10 ^ l \<le> n + 10 ^ l" using m(2) div_times_less_eq_dividend [of n "10 ^ l"]
    by (elim disjE) (simp add: trans_le_add1, simp)
  with le assms(2) have "m * 10 ^ l \<le> 2 * 10 ^ 15" by linarith
  then have "int (m * 10 ^ l) \<le> int (2 * 10 ^ 15)" by (simp only: of_nat_le_iff)
  also have "\<dots> \<le> 2 ^ 53" by simp
  finally have small: "\<bar>int (m * 10 ^ l)\<bar> \<le> 2 ^ 53" by (simp only: abs_of_nat)
  have "round64 (of_int (int (m * 10 ^ l))) = Some (of_int (int (m * 10 ^ l)))" by (rule round64_int [OF small])
  moreover have e: "of_nat m * pow10 k = of_int (int (m * 10 ^ l))" unfolding m(1) p by simp
  ultimately have "of_nat n = (of_nat (m * 10 ^ l) :: rat)"
    using r [unfolded e] by (simp only: option.inject of_int_of_nat_eq)
  then have "n = m * 10 ^ l" by (simp only: of_nat_eq_iff)
  then show ?thesis using m(1) by simp
qed

lemma shortest_exact:
  assumes "0 < n" "n \<le> 10 ^ 15" "shortest (of_nat n) = (m, k)"
  shows "0 \<le> k \<and> n = m * 10 ^ nat k"
proof -
  let ?L = "length (dec_nat n)"
  have L: "0 < ?L" by (cases "dec_nat n") auto
  have "(10 :: nat) ^ (?L - 1) < 10 ^ 16" using dec_nat_length [OF assms(1)] assms(2) by simp
  then have "?L - 1 < 16" by (simp only: power_strict_increasing_iff)
  then have L18: "?L < 18" by simp
  have k0: "dec_exp (of_nat n) - int ?L + 1 = 0" using assms(1) by (simp add: dec_exp_nat)
  have n53: "\<bar>int n\<bar> \<le> 2 ^ 53" using assms(2) by simp
  have self: "candidates (of_nat n) ?L \<noteq> []"
    unfolding candidates_def Let_def k0 using round64_int [OF n53] by (simp add: pow10_def)
  show ?thesis
  proof (cases "List.find (\<lambda>d. candidates (of_nat n) d \<noteq> []) [1..<18]")
    case None
    moreover have "?L \<in> set [1..<18]" using L L18 by (simp only: set_upt atLeastLessThan_iff) (simp add: Suc_le_eq)
    ultimately have "candidates (of_nat n) ?L = []" unfolding find_None_iff by blast
    with self show ?thesis by simp
  next
    case (Some d)
    then obtain i where i: "i < 17" "d = Suc i" "candidates (of_nat n) d \<noteq> []"
        "\<forall>j < i. candidates (of_nat n) (Suc j) = []"
      by (auto simp: find_Some_iff nth_upt simp del: upt_Suc)
    have "d \<le> ?L"
    proof (rule ccontr)
      assume "\<not> d \<le> ?L"
      then have "?L - 1 < i" "Suc (?L - 1) = ?L" using i(2) L by linarith+
      with i(4) self show False by metis
    qed
    moreover have "(m, k) \<in> set (candidates (of_nat n) d)"
      using assms(3) Some i(3) by (simp add: shortest_def) (metis list.set_sel(1))
    ultimately show ?thesis using candidate_exact [OF assms(1,2)] i(2) by blast
  qed
qed

lemma decimal_text:
  assumes "0 < n" "n \<le> 10 ^ 15" "decimal (of_nat n) = (ds, dp)"
  shows "fixed_text ds dp = dec_nat n"
proof -
  obtain m k where s: "shortest (of_nat n) = (m, k)" by fastforce
  have k: "0 \<le> k" "n = m * 10 ^ nat k" using shortest_exact [OF assms(1,2) s] by auto
  then have m: "0 < m" using assms(1) by (cases m) auto
  have digits: "dec_nat n = dec_nat m @ replicate (nat k) (CHR ''0'')" using k(2) dec_nat_shift [OF m] by simp
  obtain j where j: "dec_nat m = ds @ replicate j (CHR ''0'')" "length (dec_nat m) = length ds + j"
    using strip_zeros [of "dec_nat m"] assms(3) s by (auto simp: decimal_def Let_def)
  have dp: "dp = int (length ds) + int j + k" using assms(3) s j(2) by (auto simp: decimal_def Let_def)
  have "0 < dp" using j(2) k(1) dp by (cases "dec_nat m") auto
  moreover have "nat (dp - int (length ds)) = j + nat k" using dp k(1) by simp
  ultimately show ?thesis
    unfolding digits j(1) fixed_text_def using dp k(1) by (simp add: replicate_add)
qed

lemma tiny: "the (round64 (1 / 10 ^ 6)) \<le> 1"
  by code_simp

lemma json_float_int:
  assumes "\<bar>i\<bar> \<le> 10 ^ 15"
  shows "json_float (of_int i) = dec_int i"
proof (cases "i = 0")
  case True
  then show ?thesis by (simp add: json_float_def dec_int_def dec_nat_zero)
next
  case False
  define n where "n = nat \<bar>i\<bar>"
  have n: "0 < n" "n \<le> 10 ^ 15" "\<bar>of_int i :: rat\<bar> = of_nat n"
    using False assms by (simp_all add: n_def)
  obtain ds dp where d: "decimal (of_nat n) = (ds, dp)" by fastforce
  have "\<not> (of_nat n :: rat) < the (round64 (1 / 10 ^ 6))" using tiny n(1) by (simp add: not_less)
  moreover have "(of_nat n :: rat) < 10 ^ 21"
  proof -
    have "(of_nat n :: rat) \<le> of_nat (10 ^ 15)" using n(2) by (simp only: of_nat_le_iff)
    then show ?thesis by simp
  qed
  ultimately have plain: "\<not> ((of_nat n :: rat) < the (round64 (1 / 10 ^ 6)) \<or> (of_nat n :: rat) \<ge> 10 ^ 21)"
    by simp
  have nz: "(of_int i :: rat) \<noteq> 0" using False by simp
  have "json_float (of_int i) = (if (of_int i :: rat) < 0 then ''-'' else []) @ dec_nat n"
    unfolding json_float_def if_not_P [OF nz] n(3) d Let_def prod.case if_not_P [OF plain]
      decimal_text [OF n(1,2) d] ..
  then show ?thesis by (simp add: dec_int_def n_def)
qed

section \<open>Plain values\<close>

text \<open>
  Values that survive: whole numbers up to \<open>10\<^sup>1\<^sup>5\<close> (the bounds under which a
  \<open>float64\<close> is exact and written without an exponent), valid strings, finite maps, at most \<open>d\<close>
  slices and maps inside each other.
\<close>

definition whole :: "rat \<Rightarrow> bool" where
  "whole x \<longleftrightarrow> x = of_int \<lfloor>x\<rfloor> \<and> \<bar>\<lfloor>x\<rfloor>\<bar> \<le> 10 ^ 15"

primrec plain :: "gval \<Rightarrow> nat \<Rightarrow> bool" where
  "plain VNil d = True"
| "plain (VBool b) d = True"
| "plain (VInt i) d = (\<bar>i\<bar> \<le> 10 ^ 15)"
| "plain (VInt64 i) d = (\<bar>i\<bar> \<le> 10 ^ 15)"
| "plain (VFloat64 x) d = whole x"
| "plain (VString s) d = valid_utf8 s"
| "plain VNilSlice d = True"
| "plain (VSlice vs) d = (0 < d \<and> list_all (\<lambda>p. p (d - 1)) (map plain vs))"
| "plain VNilMap d = True"
| "plain (VMap m) d = (0 < d \<and> finite (dom m) \<and> (\<forall>k. case map_option plain (m k) of None \<Rightarrow> True
     | Some p \<Rightarrow> valid_utf8 k \<and> p (d - 1)))"
| "plain (VHandoff h) d = (0 < d \<and> valid_utf8 (h_From h) \<and> valid_utf8 (h_To h) \<and> valid_utf8 (h_Reason h)
     \<and> valid_utf8 (h_Task h))"
| "plain (VOther t) d = False"

text \<open>
  What comes back: integers as \<open>float64\<close>, handoffs as maps, and nil slices and nil maps, which
  are \<open>null\<close> in the text, as nil. An empty slice or map that is not nil stays one.
\<close>

primrec restored :: "gval \<Rightarrow> gval" where
  "restored VNil = VNil"
| "restored (VBool b) = VBool b"
| "restored (VInt i) = VFloat64 (of_int i)"
| "restored (VInt64 i) = VFloat64 (of_int i)"
| "restored (VFloat64 x) = VFloat64 x"
| "restored (VString s) = VString s"
| "restored VNilSlice = VNil"
| "restored (VSlice vs) = VSlice (map restored vs)"
| "restored VNilMap = VNil"
| "restored (VMap m) = VMap (\<lambda>k. map_option restored (m k))"
| "restored (VHandoff h) = VMap [''from'' \<mapsto> VString (h_From h), ''to'' \<mapsto> VString (h_To h),
     ''reason'' \<mapsto> VString (h_Reason h), ''task'' \<mapsto> VString (h_Task h)]"
| "restored (VOther t) = VOther t"

definition restored_map :: "(string \<Rightarrow> gval option) \<Rightarrow> string \<Rightarrow> gval option" where
  "restored_map m = (\<lambda>k. map_option restored (m k))"

lemma plain_map:
  "plain (VMap m) d \<longleftrightarrow> 0 < d \<and> finite (dom m) \<and> (\<forall>k v. m k = Some v \<longrightarrow> valid_utf8 k \<and> plain v (d - 1))"
  by (auto split: option.splits)

lemma plain_slice: "plain (VSlice vs) d \<longleftrightarrow> 0 < d \<and> (\<forall>v \<in> set vs. plain v (d - 1))"
  by (auto simp: list_all_iff)

lemma restored_twice: "restored (restored v) = restored v"
proof (induction v)
  case (VMap m)
  have "restored (restored v) = restored v" if "m k = Some v" for k v
    by (rule VMap [of "m k"]) (use that in \<open>auto intro: range_eqI [OF sym]\<close>)
  then show ?case by (auto simp: fun_eq_iff option.map_comp comp_def map_option_case split: option.split)
qed (auto simp: fun_eq_iff)

text \<open>ASCII strings are valid.\<close>

lemma valid_ascii: "\<forall>c \<in> set s. of_char c < (0x80 :: nat) \<Longrightarrow> valid_utf8 s"
  by (induction s) (auto simp: valid_utf8.simps(2) rune_len_def next_bytes_def)

lemma handoff_names: "valid_utf8 ''from''" "valid_utf8 ''to''" "valid_utf8 ''reason''" "valid_utf8 ''task''"
  by (simp_all add: valid_ascii)

section \<open>The syntax tree of a plain value\<close>

lemma all_some_map: "(\<And>x. x \<in> set xs \<Longrightarrow> f x = Some (g x)) \<Longrightarrow> all_some (map f xs) = Some (map g xs)"
  by (induction xs) auto

lemma to_anys_map: "(\<And>x. x \<in> set xs \<Longrightarrow> to_any (g x) = Some (h x)) \<Longrightarrow> to_anys (map g xs) = Some (map h xs)"
  by (induction xs) auto

lemma to_map_zip:
  "(\<And>k. k \<in> set ks \<Longrightarrow> to_any (g k) = Some (h k)) \<Longrightarrow>
     to_map (zip ks (map g ks)) m = Some (\<lambda>k. if k \<in> set ks then Some (h k) else m k)"
  by (induction ks arbitrary: m) (auto simp: fun_eq_iff)

definition survives :: "gval \<Rightarrow> nat \<Rightarrow> json \<Rightarrow> bool" where
  "survives v d j \<longleftrightarrow> of_any v = Some j \<and> readable d j \<and> to_any j = Some (restored v)"

lemma survives_number:
  assumes "\<bar>i\<bar> \<le> 10 ^ 15" "of_any v = Some (JNumber (dec_int i))" "restored v = VFloat64 (of_int i)"
  shows "survives v d (JNumber (dec_int i))"
  using assms ParseFloat_dec [of i] by (auto simp: survives_def)

lemma survives_slice:
  assumes "0 < d" "\<And>v. v \<in> set vs \<Longrightarrow> \<exists>j. survives v (d - 1) j"
  shows "\<exists>j. survives (VSlice vs) d j"
proof -
  obtain g where g: "survives v (d - 1) (g v)" if "v \<in> set vs" for v
    using assms(2) by metis
  have "survives (VSlice vs) d (JArray (map g vs))"
    using assms(1) g all_some_map [of vs of_any g] to_anys_map [of vs g restored]
    by (auto simp: survives_def)
  then show ?thesis by blast
qed

lemma survives_map:
  assumes "0 < d" "finite (dom m)" "\<And>k v. m k = Some v \<Longrightarrow> valid_utf8 k \<and> (\<exists>j. survives v (d - 1) j)"
  shows "\<exists>j. survives (VMap m) d j"
proof -
  obtain g where g: "valid_utf8 k \<and> survives v (d - 1) (g k)" if "m k = Some v" for k v
  proof -
    have "\<exists>j. \<forall>v. m k = Some v \<longrightarrow> survives v (d - 1) j" for k
      using assms(3) by (cases "m k") auto
    then obtain g where "\<forall>k v. m k = Some v \<longrightarrow> survives v (d - 1) (g k)" by metis
    with assms(3) that show thesis by blast
  qed
  let ?ks = "sorted_list_of_set (dom m)"
  have ks: "set ?ks = dom m" using assms(2) by simp
  have "survives (VMap m) d (JObject (zip ?ks (map g ?ks)))"
    unfolding survives_def
  proof (intro conjI)
    have "all_some (map (\<lambda>k. the (map_option of_any (m k))) ?ks) = Some (map g ?ks)"
      by (rule all_some_map) (use g ks in \<open>auto simp: survives_def\<close>)
    moreover have "dom (\<lambda>k. map_option of_any (m k)) = dom m" by auto
    ultimately show "of_any (VMap m) = Some (JObject (zip ?ks (map g ?ks)))" by (simp add: Let_def)
    show "readable d (JObject (zip ?ks (map g ?ks)))"
      using assms(1) g ks by (fastforce simp: survives_def set_zip)
    have "to_map (zip ?ks (map g ?ks)) Map.empty
        = Some (\<lambda>k. if k \<in> set ?ks then Some (restored (the (m k))) else None)"
      by (rule to_map_zip) (use g ks in \<open>auto simp: survives_def\<close>)
    moreover have "(\<lambda>k. if k \<in> set ?ks then Some (restored (the (m k))) else None) = (\<lambda>k. map_option restored (m k))"
      unfolding ks by (auto simp: fun_eq_iff)
    ultimately show "to_any (JObject (zip ?ks (map g ?ks))) = Some (restored (VMap m))" by simp
  qed
  then show ?thesis by blast
qed

lemma plain_survives: "plain v d \<Longrightarrow> \<exists>j. survives v d j"
proof (induction v arbitrary: d)
  case (VFloat64 x)
  then have x: "x = of_int \<lfloor>x\<rfloor>" "\<bar>\<lfloor>x\<rfloor>\<bar> \<le> 10 ^ 15" by (simp_all add: whole_def)
  have "survives (VFloat64 x) d (JNumber (dec_int \<lfloor>x\<rfloor>))"
    using json_float_int [OF x(2)] x by (intro survives_number) simp_all
  then show ?case by blast
next
  case (VSlice vs)
  then show ?case unfolding plain_slice by (intro survives_slice) auto
next
  case (VMap m)
  have "\<exists>j. survives v (d - 1) j" if "m k = Some v" for k v
    by (rule VMap(1) [of "m k"]) (use that VMap(2) in \<open>auto simp: plain_map simp del: plain.simps intro: range_eqI [OF sym]\<close>)
  then show ?case using VMap(2) unfolding plain_map by (intro survives_map) auto
next
  case (VHandoff h)
  then show ?case by (auto simp: survives_def handoff_names)
qed (auto simp: survives_number survives_def intro!: survives_number exI)

section \<open>Texts of plain values\<close>

lemma Marshal_plain:
  assumes "plain v 10000"
  obtains t where "Marshal v = Some t" "t \<noteq> []" "Unmarshal t = Some (restored v)"
proof -
  obtain j where j: "of_any v = Some j" "readable 10000 j" "to_any j = Some (restored v)"
    using plain_survives [OF assms] by (auto simp: survives_def)
  then have "Marshal v = Some (print_json j)" "Unmarshal (print_json j) = Some (restored v)"
    by (simp_all add: Marshal_def Unmarshal_def parse_json_printed)
  moreover have "print_json j \<noteq> []" using print_head [OF j(2)] by auto
  ultimately show thesis using that by blast
qed

lemma Marshal_plain_map:
  assumes "plain (VMap m) 10000"
  obtains t where "Marshal (VMap m) = Some t" "Unmarshal_map t = Some (restored_map m)"
proof -
  obtain j where j: "of_any (VMap m) = Some j" "readable 10000 j" "to_any j = Some (restored (VMap m))"
    using plain_survives [OF assms] by (auto simp: survives_def)
  obtain ms where ms: "j = JObject ms" using j(1) by (auto simp: Let_def)
  with j(3) have "to_map ms Map.empty = Some (restored_map m)" by (simp add: restored_map_def)
  then have "Unmarshal_map (print_json j) = Some (restored_map m)"
    using parse_json_printed [OF j(2)] ms by (simp add: Unmarshal_map_def del: print_json.simps)
  then show thesis using that j(1) by (simp add: Marshal_def)
qed

lemma plain_restored: "plain v d \<Longrightarrow> plain (restored v) d"
proof (induction v arbitrary: d)
  case (VSlice vs)
  then show ?case by (auto simp: list_all_iff)
next
  case (VMap m)
  have p: "0 < d" "finite (dom m)" "\<And>k v. m k = Some v \<Longrightarrow> valid_utf8 k \<and> plain v (d - 1)"
    using VMap(2) unfolding plain_map by blast+
  have "plain (restored v) (d - 1)" if "m k = Some v" for k v
    by (rule VMap(1) [of "m k"]) (use that p(3) in \<open>auto intro: range_eqI [OF sym]\<close>)
  moreover have "dom (\<lambda>k. map_option restored (m k)) = dom m" by auto
  ultimately show ?case unfolding restored.simps plain_map using p by auto
qed (auto simp: whole_def handoff_names split: option.splits)

end
