(* ===== verification/Restored.thy ===== *)
theory Restored
  imports CodingProps Supervisor JsonValues
begin

text \<open>
  Presets on a state that came back from a JSON checkpoint: the typed reads of the presets see
  through the changed types, so their nodes and routes do what they would have done.
\<close>

section \<open>Typed reads\<close>

lemma at_key_restored: "at_key (restored_map s) k = restored (at_key s k)"
  by (simp add: at_key_def restored_map_def split: option.split)

lemma as_string_restored: "as_string (restored v) = as_string v"
  by (cases v) simp_all

lemma GetString_restored: "GetString (restored_map s) k = GetString s k"
  by (simp add: GetString_def at_key_restored as_string_restored)

lemma float_int_of_int: "\<bar>i\<bar> \<le> 10 ^ 15 \<Longrightarrow> float_int (of_int i) = i"
  by (auto simp: float_int_def Let_def in_int64_def max_int64_def)

lemma plain_at_key: "plain (VMap s) d \<Longrightarrow> plain (at_key s k) (d - 1)"
  unfolding plain_map by (cases "s k") (auto simp: at_key_def)

lemma stateInt_restored: "plain (VMap s) d \<Longrightarrow> stateInt (restored_map s) k = stateInt s k"
  using plain_at_key [of s d k] unfolding stateInt_def at_key_restored
  by (cases "at_key s k") (simp_all add: float_int_of_int)

lemma Handoff_restored: "HandoffFromMap (restored v) = HandoffFromMap v"
proof (cases v)
  case (VMap m)
  have "strField (\<lambda>k. map_option restored (m k)) k = strField m k" for k
    using GetString_restored [of m k] by (simp add: strField_def GetString_def restored_map_def)
  with VMap show ?thesis by (simp add: HandoffFromMap_def)
next
  case (VHandoff h)
  then show ?thesis by (cases h) (simp add: HandoffFromMap_def strField_def at_key_def)
qed (simp_all add: HandoffFromMap_def)

section \<open>Nodes and routes\<close>

text \<open>The node does the same with \<open>s'\<close> as with \<open>s\<close>, whose map it leaves as it is.\<close>

definition acts_alike :: "('s, 'u) NodeFunc \<Rightarrow> ('s, 'u) Ctx \<Rightarrow> State \<Rightarrow> State \<Rightarrow> ('s, 'u) World \<Rightarrow> bool" where
  "acts_alike node c s s' w \<longleftrightarrow> (case (node c s w, node c s' w) of
     ((r, v), (r', v')) \<Rightarrow> nr_State r = s \<and> r' = r\<lparr>nr_State := s'\<rparr> \<and> v' = v)"

lemma agent_acts_alike:
  assumes "node c s w = (let ((t, e), a, v) = x in
      case e of Some z \<Rightarrow> (failed (F t z a v) s, H t z a v) | None \<Rightarrow> (computed (U t a v) s, G t a v))"
    and "node c s' w = (let ((t, e), a, v) = x in
      case e of Some z \<Rightarrow> (failed (F t z a v) s', H t z a v) | None \<Rightarrow> (computed (U t a v) s', G t a v))"
  shows "acts_alike node c s s' w"
  using assms by (auto simp: acts_alike_def Let_def split: prod.split option.split)

lemma implementer_alike:
  "plain (VMap s) d \<Longrightarrow> acts_alike (implementer_node env cell cfg) c s (restored_map s) w"
  by (rule agent_acts_alike [unfolded Let_def])
    (simp_all only: implementer_node_def Let_def stateInt_restored GetString_restored)

lemma verifier_alike:
  "plain (VMap s) d \<Longrightarrow> acts_alike (verifier_node env cfg) c s (restored_map s) w"
  by (rule agent_acts_alike [unfolded Let_def])
    (simp_all only: verifier_node_def Let_def stateInt_restored GetString_restored)

lemma updater_alike:
  "plain (VMap s) d \<Longrightarrow> acts_alike (updater_node env cell cfg) c s (restored_map s) w"
  by (rule agent_acts_alike [unfolded Let_def])
    (simp_all only: updater_node_def Let_def stateInt_restored GetString_restored)

text \<open>
  C37: The dynamic types of a state survive a JSON checkpoint as far as the presets read them.
  On a plain state that came back, where integers are \<open>float64\<close> and handoffs are maps, every
  typed read answers what it answered before, the routes choose the same node, an approval is
  asked, granted and refused as before, and the three nodes of the coding loop return the same
  update or error and have the same effects.
\<close>

theorem restored_state_types:
  assumes "plain (VMap s) d"
  shows "GetString (restored_map s) k = GetString s k
    \<and> stateInt (restored_map s) k = stateInt s k
    \<and> HandoffFromMap (at_key (restored_map s) k) = HandoffFromMap (at_key s k)
    \<and> route_verifier c (restored_map s) = route_verifier c s
    \<and> route_supervisor c (restored_map s) = route_supervisor c s
    \<and> approval scfg wk c (restored_map s) = approval scfg wk c s
    \<and> acts_alike (implementer_node env cell cfg) c s (restored_map s) w
    \<and> acts_alike (verifier_node env cfg) c s (restored_map s) w
    \<and> acts_alike (updater_node env cell cfg) c s (restored_map s) w"
proof (intro conjI)
  note reads = GetString_restored stateInt_restored [OF assms] at_key_restored Handoff_restored
  show "route_verifier c (restored_map s) = route_verifier c s" unfolding route_verifier_def reads ..
  show "route_supervisor c (restored_map s) = route_supervisor c s" unfolding route_supervisor_def reads ..
  show "approval scfg wk c (restored_map s) = approval scfg wk c s" unfolding approval_def reads ..
qed (simp_all add: GetString_restored stateInt_restored [OF assms] at_key_restored Handoff_restored
    implementer_alike [OF assms] verifier_alike [OF assms] updater_alike [OF assms])

theorem restored_state_types_witness:
  "stateInt (restored_map [''iteration'' \<mapsto> VInt 2, ''max_iter'' \<mapsto> VInt 2]) ''iteration'' = 2
   \<and> at_key (restored_map [''iteration'' \<mapsto> VInt 2, ''max_iter'' \<mapsto> VInt 2]) ''iteration'' = VFloat64 2
   \<and> route_verifier (Background :: (unit, unit) Ctx) (restored_map [''iteration'' \<mapsto> VInt 2, ''max_iter'' \<mapsto> VInt 2]) = END"
proof -
  let ?s = "[''iteration'' \<mapsto> VInt 2, ''max_iter'' \<mapsto> VInt 2]"
  have p: "plain (VMap ?s) 1" by (simp add: valid_ascii)
  have "route_verifier (Background :: (unit, unit) Ctx) ?s = END" by (simp add: route_verifier_def stateInt_def)
  moreover have "at_key (restored_map ?s) ''iteration'' = VFloat64 2"
    by (simp add: restored_map_def at_key_def)
  moreover have "stateInt (restored_map ?s) ''iteration'' = stateInt ?s ''iteration''"
    by (rule restored_state_types [OF p, THEN conjunct2, THEN conjunct1])
  moreover have "route_verifier (Background :: (unit, unit) Ctx) (restored_map ?s) = route_verifier (Background :: (unit, unit) Ctx) ?s"
    using restored_state_types [OF p, of _ "Background :: (unit, unit) Ctx"] by blast
  ultimately show ?thesis by (simp add: stateInt_def [of ?s])
qed

end
