(* ===== verification/SQLite.thy ===== *)
theory SQLite
  imports Json Builder
begin

text \<open>
  \<^verbatim>\<open>checkpoint/sqlite.go\<close>: the latest snapshot of every thread in a SQLite table, with state
  and interrupt value as JSON. A statement may fail (\<open>fault\<close>, the error it returns); a failed
  statement leaves the table as it was.
\<close>

record Row =
  ro_node :: string
  ro_step :: int
  ro_interrupt :: int
  ro_interrupt_value :: "string option"
  ro_state_json :: string
  ro_updated_at :: int

text \<open>The table, in the order in which the threads were first stored.\<close>

type_synonym SQLite = "(string \<times> Row) list"

record sqliteMeta =
  ql_ThreadID :: string
  ql_Node :: string
  ql_Step :: int
  ql_Interrupt :: bool
  ql_UpdatedAt :: gotime

definition nullableJSON :: "string \<Rightarrow> string option" where
  "nullableJSON b = (if b = [] then None else Some b)"

text \<open>\<open>time.Now().Unix()\<close> and \<open>time.Unix(n, 0)\<close>.\<close>

definition unix :: "gotime \<Rightarrow> int" where
  "unix t = t div second - 62135596800"

definition from_unix :: "int \<Rightarrow> gotime" where
  "from_unix n = (n + 62135596800) * second"

definition sqlite_Put ::
  "gerror option \<Rightarrow> gotime \<Rightarrow> string \<Rightarrow> Snapshot \<Rightarrow> SQLite \<Rightarrow> gerror option \<times> SQLite" where
  "sqlite_Put fault now tid0 snap db =
     (let tid = (if tid0 = '''' then sn_ThreadID snap else tid0)
      in if tid = '''' then (Some (Errorf ''checkpoint: put requires threadID'' []), db)
         else (case Marshal (VMap (sn_State snap)) of
            None \<Rightarrow> (Some (Wrapf ''checkpoint: marshal state: %w'' [] (Errorf ''json'' [])), db)
          | Some stateJSON \<Rightarrow>
              (case (if sn_InterruptValue snap = VNil then Some [] else Marshal (sn_InterruptValue snap)) of
                 None \<Rightarrow> (Some (Wrapf ''checkpoint: marshal interrupt_value: %w'' [] (Errorf ''json'' [])), db)
               | Some ivJSON \<Rightarrow>
                   (case fault of
                      Some e \<Rightarrow> (Some (Wrapf ''checkpoint: put: %w'' [] e), db)
                    | None \<Rightarrow>
                        (None, AList.update tid
                           \<lparr>ro_node = sn_Node snap, ro_step = sn_Step snap,
                            ro_interrupt = (if sn_Interrupt snap then 1 else 0),
                            ro_interrupt_value = nullableJSON ivJSON, ro_state_json = stateJSON,
                            ro_updated_at = unix now\<rparr> db)))))"

definition sqlite_Get :: "gerror option \<Rightarrow> string \<Rightarrow> SQLite \<Rightarrow> gerror + Snapshot option" where
  "sqlite_Get fault tid db =
     (case fault of
        Some e \<Rightarrow> Inl (Wrapf ''checkpoint: get: %w'' [] e)
      | None \<Rightarrow>
          (case map_of db tid of
             None \<Rightarrow> Inr None
           | Some row \<Rightarrow>
               (case Unmarshal_map (ro_state_json row) of
                  None \<Rightarrow> Inl (Wrapf ''checkpoint: unmarshal state: %w'' [] (Errorf ''json'' []))
                | Some state \<Rightarrow>
                    (let snap = \<lparr>sn_CheckpointID = '''', sn_ParentCheckpointID = '''', sn_Revision = 0,
                           sn_CreatedAt = 0, sn_ThreadID = tid, sn_Node = ro_node row, sn_State = state,
                           sn_Step = ro_step row, sn_Interrupt = (ro_interrupt row \<noteq> 0), sn_InterruptValue = VNil\<rparr>
                     in case ro_interrupt_value row of
                          None \<Rightarrow> Inr (Some snap)
                        | Some iv \<Rightarrow>
                            if iv = '''' then Inr (Some snap)
                            else (case Unmarshal iv of
                                    None \<Rightarrow> Inl (Wrapf ''checkpoint: unmarshal interrupt_value: %w'' [] (Errorf ''json'' []))
                                  | Some v \<Rightarrow> Inr (Some (snap\<lparr>sn_InterruptValue := v\<rparr>)))))))"

definition sqlite_Delete :: "gerror option \<Rightarrow> string \<Rightarrow> SQLite \<Rightarrow> gerror option \<times> SQLite" where
  "sqlite_Delete fault tid db =
     (case fault of
        Some e \<Rightarrow> (Some (Wrapf ''checkpoint: delete: %w'' [] e), db)
      | None \<Rightarrow> (None, AList.delete tid db))"

text \<open>
  The rows that satisfy a condition, latest update first. Rows of the same second come in an
  order the statement leaves open; here they keep the table's.
\<close>

definition sqlite_list :: "gerror option \<Rightarrow> (Row \<Rightarrow> bool) \<Rightarrow> SQLite \<Rightarrow> gerror + sqliteMeta list" where
  "sqlite_list fault P db =
     (case fault of
        Some e \<Rightarrow> Inl (Wrapf ''checkpoint: list: %w'' [] e)
      | None \<Rightarrow>
          Inr (map (\<lambda>(tid, row). \<lparr>ql_ThreadID = tid, ql_Node = ro_node row, ql_Step = ro_step row,
                  ql_Interrupt = (ro_interrupt row \<noteq> 0), ql_UpdatedAt = from_unix (ro_updated_at row)\<rparr>)
            (sort_key (\<lambda>(tid, row). - ro_updated_at row) (filter (\<lambda>(tid, row). P row) db))))"

definition ListInterrupted :: "gerror option \<Rightarrow> SQLite \<Rightarrow> gerror + sqliteMeta list" where
  "ListInterrupted fault db = sqlite_list fault (\<lambda>row. ro_interrupt row = 1) db"

definition ListResumable :: "gerror option \<Rightarrow> SQLite \<Rightarrow> gerror + sqliteMeta list" where
  "ListResumable fault db = sqlite_list fault (\<lambda>row. ro_interrupt row = 1 \<or> ro_node row \<noteq> END) db"

end
