(* ===== verification/SQLiteProps.thy ===== *)
theory SQLiteProps
  imports SQLite JsonValues
begin











end
