(* ===== verification/MySQL.thy ===== *)
theory MySQL
  imports Json Builder Lease
begin

text \<open>
  \<^verbatim>\<open>checkpoint/mysql.go\<close> and \<^verbatim>\<open>checkpoint/mysql_lease.go\<close>: the durable store and the lease
  on MySQL. The tables are those the migration creates; every SQL statement of the source is an
  operation on them. A transaction that holds the row lock of its thread is one step.

  The server can fail: each statement, in the order they are sent, may return an error, and a
  failed commit or a failed statement outside a transaction may have taken effect or not.
  Failures and the server's clock are functions of the number of the statement, the argument
  \<open>Server\<close>. Texts are compared byte by byte (ids that differ are told apart by the
  collation). A \<open>JSON\<close> column gives back a text for the value that was stored, the argument
  \<open>sv_json\<close>; it refuses what is no JSON.
\<close>

section \<open>Tables\<close>

record ThreadRow =
  tr_latest_checkpoint_id :: "string option"
  tr_latest_revision :: int
  tr_updated_at :: gotime
  tr_lease_run_id :: "string option"
  tr_lease_epoch :: int
  tr_lease_expires_at :: "gotime option"

record CheckpointRow =
  cp_thread_id :: string
  cp_parent :: "string option"
  cp_revision :: int
  cp_node :: string
  cp_step :: int
  cp_interrupted :: bool
  cp_interrupt_value :: "string option"
  cp_state_json :: string
  cp_created_at :: gotime

record SessionRow =
  ss_thread_id :: string
  ss_agent_id :: string
  ss_messages_json :: string
  ss_created_at :: gotime

text \<open>
  \<open>graph_threads\<close>, \<open>graph_checkpoints\<close>, \<open>graph_agent_sessions\<close> and
  \<open>graph_checkpoint_agents\<close>, each by its primary key.
\<close>

record Tables =
  tb_threads :: "string \<Rightarrow> ThreadRow option"
  tb_checkpoints :: "(string \<times> CheckpointRow) list"
  tb_sessions :: "(string \<times> SessionRow) list"
  tb_agents :: "((string \<times> string) \<times> string) list"

definition no_tables :: Tables where
  "no_tables = \<lparr>tb_threads = Map.empty, tb_checkpoints = [], tb_sessions = [], tb_agents = []\<rparr>"

text \<open>A statement's failure: the error, and whether the statement took effect all the same.\<close>

record Server =
  sv_fault :: "nat \<Rightarrow> (gerror \<times> bool) option"
  sv_clock :: "nat \<Rightarrow> gotime"
  sv_json :: "string \<Rightarrow> string option"

record MySQL =
  my_tables :: Tables
  my_pos :: nat

section \<open>Sending statements\<close>

text \<open>The next statement: whether it fails, the server's time, and the connection after it.\<close>

definition send :: "Server \<Rightarrow> MySQL \<Rightarrow> (gerror \<times> bool) option \<times> gotime \<times> MySQL" where
  "send sv db = (sv_fault sv (my_pos db), sv_clock sv (my_pos db), db\<lparr>my_pos := Suc (my_pos db)\<rparr>)"

type_synonym 'a sql = "Server \<Rightarrow> MySQL \<Rightarrow> (gerror + 'a) \<times> MySQL"

text \<open>A statement of a transaction, which answers a value and changes the tables or fails.\<close>

definition statement :: "string \<Rightarrow> (gotime \<Rightarrow> Tables \<Rightarrow> gerror + 'a \<times> Tables) \<Rightarrow> 'a sql" where
  "statement what f sv db =
     (case send sv db of
        (Some (e, _), now, db1) \<Rightarrow> (Inl (Wrapf (what @ '': %w'') [] e), db1)
      | (None, now, db1) \<Rightarrow>
          (case f now (my_tables db1) of
             Inl e \<Rightarrow> (Inl (Wrapf (what @ '': %w'') [] e), db1)
           | Inr (x, tb) \<Rightarrow> (Inr x, db1\<lparr>my_tables := tb\<rparr>)))"

definition sql_bind :: "'a sql \<Rightarrow> ('a \<Rightarrow> 'b sql) \<Rightarrow> 'b sql" where
  "sql_bind m f sv db =
     (case m sv db of (Inl e, db1) \<Rightarrow> (Inl e, db1) | (Inr x, db1) \<Rightarrow> f x sv db1)"

definition sql_return :: "'a \<Rightarrow> 'a sql" where
  "sql_return x sv db = (Inr x, db)"

definition sql_fail :: "gerror \<Rightarrow> 'a sql" where
  "sql_fail e sv db = (Inl e, db)"

text \<open>
  \<open>BeginTx\<close>, the body, and \<open>Commit\<close>, or the deferred \<open>Rollback\<close> when the body fails. The body
  answers with the texts that errors of the commit are wrapped in (empty: not wrapped).
\<close>

definition wrapped :: "string \<Rightarrow> gerror \<Rightarrow> gerror" where
  "wrapped what e = (if what = '''' then e else Wrapf (what @ '': %w'') [] e)"

definition transaction :: "string \<Rightarrow> (string \<times> 'a) sql \<Rightarrow> 'a sql" where
  "transaction what body sv db =
     (case send sv db of
        (Some (e, _), now, db1) \<Rightarrow> (Inl (wrapped what e), db1)
      | (None, now, db1) \<Rightarrow>
          (case body sv db1 of
             (Inl e, db2) \<Rightarrow> (Inl e, db2\<lparr>my_tables := my_tables db1\<rparr>)
           | (Inr (cw, x), db2) \<Rightarrow>
               (case send sv db2 of
                  (None, now, db3) \<Rightarrow> (Inr x, db3)
                | (Some (e, applied), now, db3) \<Rightarrow>
                    (Inl (wrapped cw e), if applied then db3 else db3\<lparr>my_tables := my_tables db1\<rparr>))))"

text \<open>A query outside a transaction.\<close>

definition query :: "string \<Rightarrow> (Tables \<Rightarrow> 'a) \<Rightarrow> 'a sql" where
  "query what f sv db =
     (case send sv db of
        (Some (e, _), now, db1) \<Rightarrow> (Inl (wrapped what e), db1)
      | (None, now, db1) \<Rightarrow> (Inr (f (my_tables db1)), db1))"

text \<open>An update outside a transaction, answering a value.\<close>

definition execute :: "string \<Rightarrow> (gotime \<Rightarrow> Tables \<Rightarrow> 'a \<times> Tables) \<Rightarrow> 'a sql" where
  "execute what f sv db =
     (case send sv db of
        (Some (e, applied), now, db1) \<Rightarrow>
          (Inl (wrapped what e), if applied then db1\<lparr>my_tables := snd (f now (my_tables db1))\<rparr> else db1)
      | (None, now, db1) \<Rightarrow>
          (let (x, tb) = f now (my_tables db1) in (Inr x, db1\<lparr>my_tables := tb\<rparr>)))"

section \<open>The statements\<close>

definition new_row :: "gotime \<Rightarrow> ThreadRow" where
  "new_row now = \<lparr>tr_latest_checkpoint_id = None, tr_latest_revision = 0, tr_updated_at = now,
     tr_lease_run_id = None, tr_lease_epoch = 0, tr_lease_expires_at = None\<rparr>"

text \<open>\<open>INSERT INTO graph_threads ... ON DUPLICATE KEY UPDATE\<close> of a column by itself.\<close>

definition upsert_thread :: "string \<Rightarrow> gotime \<Rightarrow> Tables \<Rightarrow> Tables" where
  "upsert_thread tid now tb =
     (case tb_threads tb tid of
        Some _ \<Rightarrow> tb
      | None \<Rightarrow> tb\<lparr>tb_threads := (tb_threads tb)(tid \<mapsto> new_row now)\<rparr>)"

definition lease_current :: "gotime \<Rightarrow> string \<Rightarrow> int \<Rightarrow> ThreadRow \<Rightarrow> bool" where
  "lease_current now runID epoch row \<longleftrightarrow>
     tr_lease_run_id row = Some runID \<and> tr_lease_epoch row = epoch
     \<and> (case tr_lease_expires_at row of None \<Rightarrow> False | Some t \<Rightarrow> t > now)"

definition duplicate :: gerror where
  "duplicate = Errorf ''Duplicate entry'' []"

definition invalid_json :: gerror where
  "invalid_json = Errorf ''Invalid JSON text'' []"

text \<open>\<open>INSERT INTO graph_checkpoints\<close>, with its primary and unique keys and its JSON columns.\<close>

definition insert_checkpoint ::
  "(string \<Rightarrow> string option) \<Rightarrow> string \<Rightarrow> CheckpointRow \<Rightarrow> Tables \<Rightarrow> gerror + Tables" where
  "insert_checkpoint js cid row tb =
     (if \<exists>x \<in> set (tb_checkpoints tb). fst x = cid
           \<or> cp_thread_id (snd x) = cp_thread_id row \<and> cp_revision (snd x) = cp_revision row
      then Inl duplicate
      else (case (js (cp_state_json row), map_option js (cp_interrupt_value row)) of
              (Some st, None) \<Rightarrow>
                Inr (tb\<lparr>tb_checkpoints := tb_checkpoints tb @ [(cid, row\<lparr>cp_state_json := st\<rparr>)]\<rparr>)
            | (Some st, Some (Some iv)) \<Rightarrow>
                Inr (tb\<lparr>tb_checkpoints := tb_checkpoints tb
                  @ [(cid, row\<lparr>cp_state_json := st, cp_interrupt_value := Some iv\<rparr>)]\<rparr>)
            | _ \<Rightarrow> Inl invalid_json))"

text \<open>\<open>INSERT INTO graph_checkpoint_agents SELECT\<close>: the references of the parent.\<close>

definition copy_refs :: "string \<Rightarrow> string \<Rightarrow> Tables \<Rightarrow> gerror + Tables" where
  "copy_refs cid parent tb =
     (let rows = map (\<lambda>((c, a), s). ((cid, a), s)) (filter (\<lambda>((c, a), s). c = parent) (tb_agents tb))
      in if \<exists>r \<in> set rows. fst r \<in> fst ` set (tb_agents tb) then Inl duplicate
         else Inr (tb\<lparr>tb_agents := tb_agents tb @ rows\<rparr>))"

definition insert_session ::
  "(string \<Rightarrow> string option) \<Rightarrow> string \<Rightarrow> SessionRow \<Rightarrow> Tables \<Rightarrow> gerror + Tables" where
  "insert_session js sid row tb =
     (if sid \<in> fst ` set (tb_sessions tb) then Inl duplicate
      else (case js (ss_messages_json row) of
              None \<Rightarrow> Inl invalid_json
            | Some t \<Rightarrow> Inr (tb\<lparr>tb_sessions := tb_sessions tb @ [(sid, row\<lparr>ss_messages_json := t\<rparr>)]\<rparr>)))"

definition upsert_ref :: "string \<Rightarrow> string \<Rightarrow> string \<Rightarrow> Tables \<Rightarrow> Tables" where
  "upsert_ref cid agent sid tb = tb\<lparr>tb_agents := AList.update (cid, agent) sid (tb_agents tb)\<rparr>"

definition set_latest :: "string \<Rightarrow> string option \<Rightarrow> int \<Rightarrow> gotime \<Rightarrow> Tables \<Rightarrow> Tables" where
  "set_latest tid cid rv now tb =
     tb\<lparr>tb_threads := (tb_threads tb)(tid := map_option
       (\<lambda>row. row\<lparr>tr_latest_checkpoint_id := cid, tr_latest_revision := rv, tr_updated_at := now\<rparr>)
       (tb_threads tb tid))\<rparr>"

text \<open>\<open>DELETE FROM graph_checkpoints\<close>, which cascades to the references.\<close>

definition delete_checkpoints :: "(string \<times> CheckpointRow \<Rightarrow> bool) \<Rightarrow> Tables \<Rightarrow> Tables" where
  "delete_checkpoints P tb =
     (let gone = map fst (filter P (tb_checkpoints tb))
      in tb\<lparr>tb_checkpoints := filter (\<lambda>x. \<not> P x) (tb_checkpoints tb),
            tb_agents := filter (\<lambda>((c, a), s). c \<notin> set gone) (tb_agents tb)\<rparr>)"

text \<open>\<open>DELETE FROM graph_agent_sessions\<close>: refused while a reference is left.\<close>

definition delete_sessions :: "(string \<times> SessionRow \<Rightarrow> bool) \<Rightarrow> Tables \<Rightarrow> gerror + Tables" where
  "delete_sessions P tb =
     (if \<exists>x \<in> set (tb_sessions tb). P x \<and> fst x \<in> snd ` set (tb_agents tb)
      then Inl (Errorf ''Cannot delete or update a parent row'' [])
      else Inr (tb\<lparr>tb_sessions := filter (\<lambda>x. \<not> P x) (tb_sessions tb)\<rparr>))"

text \<open>A \<open>DATETIME(6)\<close> column keeps microseconds.\<close>

definition micros :: "gotime \<Rightarrow> gotime" where
  "micros t = t div 1000 * 1000"

section \<open>Committing a step\<close>

text \<open>The sessions of the step's artifacts, each with a fresh id.\<close>

fun insert_artifacts ::
  "gotime \<Rightarrow> string \<Rightarrow> string \<Rightarrow> StepArtifact list \<Rightarrow> rng \<Rightarrow> rng sql" where
  "insert_artifacts now tid cid [] r = sql_return r"
| "insert_artifacts now tid cid (art # arts) r =
     (if art_Kind art \<noteq> ArtifactAgentSession then insert_artifacts now tid cid arts r
      else (\<lambda>sv. (let (sid, r1) = NewID now r
        in sql_bind
          (statement ''checkpoint: insert session'' (\<lambda>_ tb. map_sum id (Pair ())
             (insert_session (sv_json sv) sid
               \<lparr>ss_thread_id = tid, ss_agent_id = art_Key art, ss_messages_json = art_Payload art,
                ss_created_at = micros now\<rparr> tb)))
          (\<lambda>_. sql_bind
             (statement ''checkpoint: upsert agent ref'' (\<lambda>_ tb. Inr ((), upsert_ref cid (art_Key art) sid tb)))
             (\<lambda>_. insert_artifacts now tid cid arts r1))) sv))"

text \<open>
  The part of \<open>commitStep\<close> after the idempotency check. \<open>now\<close> is the client's clock.
\<close>

definition append_checkpoint ::
  "gotime \<Rightarrow> Snapshot \<Rightarrow> StepArtifact list \<Rightarrow> LeaseGrant option \<Rightarrow> rng \<Rightarrow> (string \<times> rng) sql" where
  "append_checkpoint now snap arts grant r =
     (let tid = sn_ThreadID snap; cid = sn_CheckpointID snap;
          created = (if sn_CreatedAt snap = 0 then now else sn_CreatedAt snap)
      in sql_bind (statement ''checkpoint: upsert thread'' (\<lambda>_ tb. Inr ((), upsert_thread tid (micros now) tb)))
      (\<lambda>_. sql_bind (statement ''checkpoint: lock thread'' (\<lambda>t tb.
              case tb_threads tb tid of
                None \<Rightarrow> Inl (Errorf ''sql: no rows in result set'' [])
              | Some row \<Rightarrow> Inr ((tr_latest_checkpoint_id row, tr_latest_revision row,
                  case grant of None \<Rightarrow> True | Some g \<Rightarrow> lease_current t (lg_RunID g) (lg_Epoch g) row), tb)))
      (\<lambda>(latestID, latestRev, leaseOK).
        (let curLatest = (case latestID of None \<Rightarrow> '''' | Some i \<Rightarrow> i); rv = wrap64 (latestRev + 1)
         in if \<not> leaseOK then sql_fail ErrLeaseLost
            else if curLatest \<noteq> sn_ParentCheckpointID snap
            then sql_fail (Wrapf ''%w: want parent %q, have latest %q''
                   [AStr (sn_ParentCheckpointID snap), AStr curLatest] ErrCheckpointConflict)
            else (case Marshal (VMap (sn_State snap)) of
               None \<Rightarrow> sql_fail (Wrapf ''checkpoint: marshal state: %w'' [] (Errorf ''json'' []))
             | Some stateJSON \<Rightarrow>
               (case (if sn_InterruptValue snap = VNil then Some None
                      else map_option Some (Marshal (sn_InterruptValue snap))) of
                  None \<Rightarrow> sql_fail (Wrapf ''checkpoint: marshal interrupt: %w'' [] (Errorf ''json'' []))
                | Some ivJSON \<Rightarrow>
                  sql_bind (\<lambda>sv. statement ''checkpoint: insert checkpoint'' (\<lambda>_ tb. map_sum id (Pair ())
                    (insert_checkpoint (sv_json sv) cid
                      \<lparr>cp_thread_id = tid,
                       cp_parent = (if sn_ParentCheckpointID snap = '''' then None else Some (sn_ParentCheckpointID snap)),
                       cp_revision = rv, cp_node = sn_Node snap, cp_step = sn_Step snap,
                       cp_interrupted = sn_Interrupt snap, cp_interrupt_value = ivJSON,
                       cp_state_json = stateJSON, cp_created_at = micros created\<rparr> tb)) sv)
                  (\<lambda>_. sql_bind
                    (if sn_ParentCheckpointID snap = '''' then sql_return ()
                     else statement ''checkpoint: copy agent refs'' (\<lambda>_ tb. map_sum id (Pair ())
                            (copy_refs cid (sn_ParentCheckpointID snap) tb)))
                  (\<lambda>_. sql_bind (insert_artifacts now tid cid arts r)
                  (\<lambda>r1. sql_bind
                    (statement ''checkpoint: update latest'' (\<lambda>_ tb. Inr ((), set_latest tid (Some cid) rv (micros now) tb)))
                  (\<lambda>_. sql_return (''checkpoint: commit'', r1)))))))))))"

definition commitStep ::
  "gotime \<Rightarrow> Snapshot \<Rightarrow> StepArtifact list \<Rightarrow> LeaseGrant option \<Rightarrow> rng \<Rightarrow> rng sql" where
  "commitStep now snap arts grant r =
     (if sn_ThreadID snap = '''' then sql_fail (Errorf ''checkpoint: CommitStep requires ThreadID'' [])
      else if sn_CheckpointID snap = '''' then sql_fail (Errorf ''checkpoint: CommitStep requires CheckpointID'' [])
      else if (case grant of None \<Rightarrow> False | Some g \<Rightarrow> lg_ThreadID g \<noteq> '''' \<and> lg_ThreadID g \<noteq> sn_ThreadID snap)
      then sql_fail ErrLeaseLost
      else transaction ''checkpoint: begin''
        (sql_bind (statement ''checkpoint: idempotency check''
                     (\<lambda>_ tb. Inr (map_of (tb_checkpoints tb) (sn_CheckpointID snap), tb)))
          (\<lambda>existing. case existing of
             Some row \<Rightarrow>
               if cp_thread_id row = sn_ThreadID snap
                  \<and> (case cp_parent row of None \<Rightarrow> '''' | Some p \<Rightarrow> p) = sn_ParentCheckpointID snap
               then sql_return ('''', r)
               else sql_fail (Wrapf ''%w: checkpoint %q exists with different parent''
                      [AStr (sn_CheckpointID snap)] ErrCheckpointConflict)
           | None \<Rightarrow> append_checkpoint now snap arts grant r)))"

section \<open>Reading\<close>

definition row_snapshot :: "string \<Rightarrow> string \<Rightarrow> CheckpointRow \<Rightarrow> gerror + Snapshot" where
  "row_snapshot tid cid row =
     (case Unmarshal_map (cp_state_json row) of
        None \<Rightarrow> Inl (Wrapf ''checkpoint: unmarshal state: %w'' [] (Errorf ''json'' []))
      | Some state \<Rightarrow>
          (let snap = \<lparr>sn_CheckpointID = cid,
                 sn_ParentCheckpointID = (case cp_parent row of None \<Rightarrow> '''' | Some p \<Rightarrow> p),
                 sn_Revision = cp_revision row, sn_CreatedAt = cp_created_at row, sn_ThreadID = tid,
                 sn_Node = cp_node row, sn_State = state, sn_Step = cp_step row,
                 sn_Interrupt = cp_interrupted row, sn_InterruptValue = VNil\<rparr>
           in case cp_interrupt_value row of
                None \<Rightarrow> Inr snap
              | Some iv \<Rightarrow>
                  if iv = '''' then Inr snap
                  else (case Unmarshal iv of
                          None \<Rightarrow> Inl (Wrapf ''checkpoint: unmarshal interrupt: %w'' [] (Errorf ''json'' []))
                        | Some v \<Rightarrow> Inr (snap\<lparr>sn_InterruptValue := v\<rparr>))))"

definition sql_lift :: "(gerror + 'a) \<Rightarrow> 'a sql" where
  "sql_lift r sv db = (r, db)"

definition my_GetByID :: "string \<Rightarrow> string \<Rightarrow> Snapshot option sql" where
  "my_GetByID tid cid =
     sql_bind (query ''checkpoint: get by id'' (\<lambda>tb. map_of (tb_checkpoints tb) cid))
       (\<lambda>found. case found of
          None \<Rightarrow> sql_return None
        | Some row \<Rightarrow>
            if cp_thread_id row \<noteq> tid then sql_return None
            else sql_lift (map_sum id Some (row_snapshot tid cid row)))"

definition my_GetLatest :: "string \<Rightarrow> Snapshot option sql" where
  "my_GetLatest tid =
     sql_bind (query ''checkpoint: get latest id''
         (\<lambda>tb. case tb_threads tb tid of None \<Rightarrow> None | Some row \<Rightarrow> tr_latest_checkpoint_id row))
       (\<lambda>latest. case latest of None \<Rightarrow> sql_return None | Some cid \<Rightarrow> my_GetByID tid cid)"

definition row_meta :: "string \<times> CheckpointRow \<Rightarrow> SnapshotMeta" where
  "row_meta x = \<lparr>sm_CheckpointID = fst x, sm_ThreadID = cp_thread_id (snd x), sm_Node = cp_node (snd x),
     sm_Step = cp_step (snd x), sm_Revision = cp_revision (snd x), sm_Interrupt = cp_interrupted (snd x),
     sm_CreatedAt = cp_created_at (snd x)\<rparr>"

definition newest_first :: "(string \<times> CheckpointRow) list \<Rightarrow> (string \<times> CheckpointRow) list" where
  "newest_first rows = rev (sort_key (\<lambda>x. cp_revision (snd x)) rows)"

definition my_List :: "string \<Rightarrow> int \<Rightarrow> int \<Rightarrow> SnapshotMeta list sql" where
  "my_List tid before limit =
     query ''checkpoint: list'' (\<lambda>tb.
       (let rows = newest_first (filter (\<lambda>x. cp_thread_id (snd x) = tid
              \<and> (before > 0 \<longrightarrow> cp_revision (snd x) < before)) (tb_checkpoints tb))
        in map row_meta (if limit > 0 then take (nat limit) rows else rows)))"

definition my_GetAgentSession :: "string \<Rightarrow> string \<Rightarrow> string \<Rightarrow> string option sql" where
  "my_GetAgentSession tid cid agent =
     query ''checkpoint: get agent session'' (\<lambda>tb.
       case map_of (tb_agents tb) (cid, agent) of
         None \<Rightarrow> None
       | Some sid \<Rightarrow>
           (case (map_of (tb_sessions tb) sid, map_of (tb_checkpoints tb) cid) of
              (Some ses, Some row) \<Rightarrow> if cp_thread_id row = tid then Some (ss_messages_json ses) else None
            | _ \<Rightarrow> None))"

section \<open>Deleting\<close>

definition my_DeleteThread :: "string \<Rightarrow> unit sql" where
  "my_DeleteThread tid =
     transaction '''' (sql_bind
       (statement ''checkpoint: delete refs'' (\<lambda>_ tb. Inr ((),
          tb\<lparr>tb_agents := filter (\<lambda>((c, a), s). \<not> (\<exists>row. map_of (tb_checkpoints tb) c = Some row
                \<and> cp_thread_id row = tid)) (tb_agents tb)\<rparr>)))
       (\<lambda>_. sql_bind
         (statement ''checkpoint: delete sessions'' (\<lambda>_ tb. map_sum id (Pair ())
            (delete_sessions (\<lambda>x. ss_thread_id (snd x) = tid) tb)))
       (\<lambda>_. sql_bind
         (statement ''checkpoint: delete thread'' (\<lambda>_ tb. Inr ((),
            (delete_checkpoints (\<lambda>x. cp_thread_id (snd x) = tid) tb)
              \<lparr>tb_threads := (tb_threads tb)(tid := None)\<rparr>)))
       (\<lambda>_. sql_return ('''', ())))))"

fun delete_each :: "string list \<Rightarrow> unit sql" where
  "delete_each [] = sql_return ()"
| "delete_each (i # ids) =
     sql_bind (statement ''checkpoint: prune delete'' (\<lambda>_ tb. Inr ((), delete_checkpoints (\<lambda>x. fst x = i) tb)))
       (\<lambda>_. delete_each ids)"

definition my_Prune :: "string \<Rightarrow> int \<Rightarrow> unit sql" where
  "my_Prune tid keepLast =
     (if keepLast < 0 then sql_fail (Errorf ''checkpoint: keepLast must be >= 0'' [])
      else if keepLast = 0 then my_DeleteThread tid
      else transaction '''' (sql_bind
        (statement ''checkpoint: prune list'' (\<lambda>_ tb. Inr
           (map fst (newest_first (filter (\<lambda>x. cp_thread_id (snd x) = tid) (tb_checkpoints tb))), tb)))
        (\<lambda>ids. if int (length ids) \<le> keepLast then sql_return ('''', ())
           else sql_bind (delete_each (drop (nat keepLast) ids))
             (\<lambda>_. sql_bind (statement ''checkpoint: prune orphans'' (\<lambda>_ tb. map_sum id (Pair ())
                (delete_sessions (\<lambda>x. ss_thread_id (snd x) = tid \<and> fst x \<notin> snd ` set (tb_agents tb)) tb)))
             (\<lambda>_. sql_bind (statement ''checkpoint: prune update latest'' (\<lambda>_ tb. Inr
                (case newest_first (filter (\<lambda>x. cp_thread_id (snd x) = tid) (tb_checkpoints tb)) of
                   [] \<Rightarrow> None | x # _ \<Rightarrow> Some (fst x, cp_revision (snd x)), tb)))
             (\<lambda>latest. sql_bind (statement ''checkpoint: prune update latest'' (\<lambda>now tb. Inr ((),
                case latest of
                  None \<Rightarrow> set_latest tid None 0 now tb
                | Some (cid, rv) \<Rightarrow> set_latest tid (Some cid) rv now tb)))
             (\<lambda>_. sql_return ('''', ()))))))))"

definition my_Put :: "gotime \<Rightarrow> string \<Rightarrow> Snapshot \<Rightarrow> rng \<Rightarrow> rng sql" where
  "my_Put now tid snap0 r0 =
     (let snap1 = (if tid = '''' then snap0 else snap0\<lparr>sn_ThreadID := tid\<rparr>);
          (snap, r) = (if sn_CheckpointID snap1 = ''''
             then (let (i, r) = NewID now r0 in (snap1\<lparr>sn_CheckpointID := i\<rparr>, r)) else (snap1, r0))
      in sql_bind (my_GetLatest (sn_ThreadID snap))
           (\<lambda>latest. commitStep now
              (snap\<lparr>sn_ParentCheckpointID := (case latest of None \<Rightarrow> '''' | Some l \<Rightarrow> sn_CheckpointID l)\<rparr>)
              [] None r))"

section \<open>The lease\<close>

text \<open>A lifetime in whole microseconds, at least one.\<close>

definition lease_micros :: "duration \<Rightarrow> int" where
  "lease_micros ttl0 =
     (let ttl = (if ttl0 \<le> 0 then DefaultLeaseTTL else ttl0); us = go_div ttl 1000
      in if us \<le> 0 then 1 else us)"

definition lease_active :: "gotime \<Rightarrow> ThreadRow \<Rightarrow> bool" where
  "lease_active now row \<longleftrightarrow>
     (case tr_lease_run_id row of None \<Rightarrow> False | Some i \<Rightarrow> i \<noteq> '''')
     \<and> (case tr_lease_expires_at row of None \<Rightarrow> False | Some t \<Rightarrow> t > now)"

definition set_row :: "string \<Rightarrow> (ThreadRow \<Rightarrow> ThreadRow) \<Rightarrow> Tables \<Rightarrow> Tables" where
  "set_row tid f tb = tb\<lparr>tb_threads := (tb_threads tb)(tid := map_option f (tb_threads tb tid))\<rparr>"

definition read_expiry :: "string \<Rightarrow> Tables \<Rightarrow> gerror + gotime" where
  "read_expiry tid tb =
     (case tb_threads tb tid of
        None \<Rightarrow> Inl (Errorf ''sql: no rows in result set'' [])
      | Some row \<Rightarrow>
          (case tr_lease_expires_at row of
             None \<Rightarrow> Inl (Errorf ''sql: Scan error: converting NULL to time.Time is unsupported'' [])
           | Some t \<Rightarrow> Inr t))"

text \<open>\<open>SELECT lease_expires_at\<close>, whose errors are not wrapped.\<close>

definition select_expiry :: "string \<Rightarrow> gotime sql" where
  "select_expiry tid = sql_bind (query '''' (read_expiry tid)) sql_lift"

definition my_Acquire :: "string \<Rightarrow> string \<Rightarrow> duration \<Rightarrow> LeaseGrant sql" where
  "my_Acquire tid runID ttl =
     (if tid = '''' \<or> runID = '''' then sql_fail ErrLeaseLost
      else (let us = lease_micros ttl in
        transaction ''checkpoint: lease begin'' (sql_bind
          (statement ''checkpoint: lease upsert thread'' (\<lambda>now tb. Inr ((), upsert_thread tid now tb)))
          (\<lambda>_. sql_bind (statement ''checkpoint: lease lock'' (\<lambda>now tb.
              case tb_threads tb tid of
                None \<Rightarrow> Inl (Errorf ''sql: no rows in result set'' [])
              | Some row \<Rightarrow> Inr ((tr_lease_run_id row, tr_lease_epoch row, lease_active now row), tb)))
          (\<lambda>(leaseRun, epoch, active).
             if active \<and> leaseRun = Some runID then
               sql_bind (statement ''checkpoint: lease extend'' (\<lambda>now tb. Inr ((),
                  set_row tid (\<lambda>row. row\<lparr>tr_lease_expires_at := Some (now + us * 1000)\<rparr>) tb)))
               (\<lambda>_. sql_bind (select_expiry tid)
               (\<lambda>exp. sql_return ('''', \<lparr>lg_ThreadID = tid, lg_RunID = runID, lg_Epoch = epoch, lg_ExpiresAt = exp\<rparr>)))
             else if active then sql_fail ErrLeaseHeld
             else
               (let newEpoch = wrap64 (epoch + 1) in
               sql_bind (statement ''checkpoint: lease take'' (\<lambda>now tb. Inr ((),
                  set_row tid (\<lambda>row. row\<lparr>tr_lease_run_id := Some runID, tr_lease_epoch := newEpoch,
                    tr_lease_expires_at := Some (now + us * 1000)\<rparr>) tb)))
               (\<lambda>_. sql_bind (select_expiry tid)
               (\<lambda>exp. sql_return ('''', \<lparr>lg_ThreadID = tid, lg_RunID = runID, lg_Epoch = newEpoch, lg_ExpiresAt = exp\<rparr>)))))))))"

text \<open>\<open>RowsAffected\<close> counts the rows that the update changed, not those it found.\<close>

definition my_Renew :: "LeaseGrant \<Rightarrow> duration \<Rightarrow> LeaseGrant sql" where
  "my_Renew grant ttl =
     (let us = lease_micros ttl; tid = lg_ThreadID grant in
      sql_bind (execute ''checkpoint: lease renew'' (\<lambda>now tb.
          case tb_threads tb tid of
            None \<Rightarrow> (False, tb)
          | Some row \<Rightarrow>
              if lease_current now (lg_RunID grant) (lg_Epoch grant) row
              then (tr_lease_expires_at row \<noteq> Some (now + us * 1000),
                    set_row tid (\<lambda>row. row\<lparr>tr_lease_expires_at := Some (now + us * 1000)\<rparr>) tb)
              else (False, tb)))
        (\<lambda>found. if \<not> found then sql_fail ErrLeaseLost
           else sql_bind (select_expiry tid) (\<lambda>exp. sql_return (grant\<lparr>lg_ExpiresAt := exp\<rparr>))))"

definition my_Release :: "LeaseGrant \<Rightarrow> unit sql" where
  "my_Release grant =
     execute ''checkpoint: lease release'' (\<lambda>now tb. ((),
       case tb_threads tb (lg_ThreadID grant) of
         None \<Rightarrow> tb
       | Some row \<Rightarrow>
           if tr_lease_run_id row = Some (lg_RunID grant) \<and> tr_lease_epoch row = lg_Epoch grant
           then set_row (lg_ThreadID grant) (\<lambda>row. row\<lparr>tr_lease_run_id := None, tr_lease_expires_at := None\<rparr>) tb
           else tb))"

end
