(* ===== verification/Spec2Isabelle.thy ===== *)
theory Spec2Isabelle
  imports RunProps Handoffs ToolExec Legacy BuilderProps Pipelines Decisions Approvals
    Restored SQLiteProps MySQL
begin

text \<open>
  A verification development for marspi-graph, a Go module that runs agent workflows as
  checkpointed state graphs.

  \<^bold>\<open>The program.\<close> A workflow is a graph of nodes over a shared state
  (\<^verbatim>\<open>graph/state.go\<close>). A builder collects nodes, edges, routes and reducers, and \<open>Compile\<close>
  checks them; \<open>Invoke\<close> runs the compiled graph from its entry and \<open>Resume\<close> continues a thread
  from its latest checkpoint (both in \<^verbatim>\<open>graph/builder.go\<close>). In every round of the loop the
  engine calls one node, merges its update with the reducers, chooses the next node and commits a
  checkpoint with the artifacts the node registered. A node may interrupt the run for an answer
  from outside; the pause is a checkpoint too and is answered by a resume with a value. A run may
  hold an execution lease on its thread: a heartbeat renews it while nodes run, and every commit
  carries the lease's epoch, so that a store which commits fenced refuses a run that was
  superseded. The stores and leases (\<^verbatim>\<open>checkpoint/\<close>) sit behind the interfaces \<open>Checkpointer\<close>,
  \<open>DurableCheckpointer\<close> and \<open>ExecutionLease\<close>. Agents (\<^verbatim>\<open>agentspec/spec.go\<close>) save their
  conversation as an artifact of the step. The presets (\<^verbatim>\<open>orchestrator/\<close>) build graphs on top:
  a pipeline, a supervisor with workers that may need approval, and a coding loop of implementer,
  verifier and updater.

  \<^bold>\<open>Theories that model code,\<close> in the order in which they build on each other:

    \<^item> \<open>Prelude\<close>: 64-bit integers with their wrap-around (\<open>wrap64\<close>), \<open>range\<close> over a map as a
      listing in any order, and \<open>go_loop\<close>, a \<open>for\<close> loop that may run for ever: its result is an
      option, and \<open>None\<close> is a loop that does not end.
    \<^item> \<open>Values\<close>: the dynamic values of Go that the module inspects, nil slices and nil maps
      included, and its errors with \<open>errors.Is\<close> and \<open>errors.As\<close>.
    \<^item> \<open>StateMap\<close>: state, updates, reducers (\<^verbatim>\<open>graph/state.go\<close>).
    \<^item> \<open>Runtime\<close>: snapshots and artifacts, identifiers, events, the context and the world a run acts
      on (\<^verbatim>\<open>graph/durable.go\<close>, \<^verbatim>\<open>artifacts.go\<close>, \<^verbatim>\<open>events.go\<close>, \<^verbatim>\<open>interrupt.go\<close>, \<^verbatim>\<open>lease.go\<close>).
      The world holds the store, the clock, the random source, the run's cancellation, its lease
      session and the trace of emitted events; \<open>w_user\<close> is whatever else nodes touch.
    \<^item> \<open>Builder\<close> and \<open>Engine\<close>: the two halves of \<^verbatim>\<open>graph/builder.go\<close> with \<^verbatim>\<open>graph/command.go\<close>:
      registration and \<open>Compile\<close>; options, \<open>run\<close> with one definition per phase of a round,
      \<open>withLease\<close>, the heartbeat, \<open>Invoke\<close> and \<open>Resume\<close>.
    \<^item> \<open>DurableMemory\<close>, \<open>Lease\<close>, \<open>Legacy\<close>, \<open>SQLite\<close>, \<open>MySQL\<close>: the stores and leases of
      \<^verbatim>\<open>checkpoint/\<close>. An operation under a mutex or in a transaction is one step on the store.
    \<^item> \<open>Strings\<close>, \<open>Hex\<close>, \<open>Decimals\<close>, \<open>Json\<close>: what the module uses of Go's \<open>strings\<close>,
      \<open>encoding/hex\<close>, \<open>strconv\<close>, \<open>fmt\<close> and \<open>encoding/json\<close>.
    \<^item> \<open>ToolExec\<close> (\<^verbatim>\<open>graph/tool_execution.go\<close>, with SHA-256), \<open>Agents\<close>
      (\<^verbatim>\<open>agentspec/spec.go\<close>).
    \<^item> \<open>Handoffs\<close>, \<open>Decisions\<close>, \<open>Presets\<close>, \<open>Pipelines\<close>, \<open>Supervisor\<close>, \<open>CodingLoop\<close>: the files of
      \<^verbatim>\<open>orchestrator/\<close>.

  \<^bold>\<open>Interfaces.\<close> The engine knows its store through the locale \<open>run_store\<close> (\<open>RunStore\<close>: what
  loading and committing promise) and, for runs that finish, \<open>live_store\<close> (\<open>Liveness\<close>). Stores
  that keep their checkpoints in a \<open>DurableMemory\<close> meet \<open>run_store\<close> through \<open>memory_backed\<close>
  (\<open>EngineStore\<close>); the interpretations are \<open>DurableMemory\<close> (\<open>dm\<close>, \<open>dm_live\<close>), the fenced store
  with its lease (\<open>fenced\<close>, \<open>fenced_live\<close>) and the legacy \<open>Memory\<close> (\<open>mem\<close>).
  \<open>lease_provider\<close> (\<open>Lease\<close>) is the contract of an epoch lease, met by \<open>MemoryLease\<close>.
  \<open>counted_rounds\<close> (\<open>Rounds\<close>) is a graph whose state counts its rounds, met by the graphs of the
  coding loop and of the supervisor. \<open>guarded_nodes\<close> (\<open>Approvals\<close>) is a graph some of whose nodes
  do nothing of their own without an answer, met by a supervisor with workers that need approval.

  \<^bold>\<open>What is shown.\<close>

    \<^item> Engine (\<open>EngineFacts\<close>): a step bound makes every run return; a lost lease ends the run and
      discards the node's result; the order of a run's events; the heartbeat's interval.
    \<^item> State (\<open>StateMap\<close>): \<open>Apply\<close> does not depend on the order of \<open>range\<close>; \<open>AppendSlice\<close> is a log.
    \<^item> \<open>DurableMemory\<close> (\<open>DurableFacts\<close>, \<open>DurableProps\<close>): its invariant; commits as compare-and-set,
      their races and retries; immutable checkpoints; sessions, pruning and paging.
    \<^item> Leases (\<open>Lease\<close>, \<open>LeaseProps\<close>): ownership, superseded grants, the order of epochs in the
      commits that a fenced store accepts.
    \<^item> Whole runs (\<open>RunStore\<close>, \<open>Recovery\<close>, \<open>Liveness\<close>, \<open>RunProps\<close>): where a run leaves its thread,
      that it completes, the step bound, resuming stopped, finished and paused threads, and
      that a run that was interrupted and resumed ends as if it had not been.
    \<^item> \<open>BuilderProps\<close>: what \<open>Compile\<close> accepts, and that a compiled graph is closed.
    \<^item> Stores and JSON (\<open>Legacy\<close>, \<open>JsonText\<close>, \<open>JsonValues\<close>, \<open>SQLiteProps\<close>, \<open>Restored\<close>): the durable
      store refines the legacy one; what \<open>Marshal\<close> writes is read back; the SQLite store's round
      trip; the presets do not notice the types that JSON changes.
    \<^item> Presets (\<open>Pipelines\<close>, \<open>Handoffs\<close>, \<open>SupervisorProps\<close>, \<open>CodingProps\<close>, \<open>Approvals\<close>): order of a
      pipeline, decisions and handoffs, bounded supervisors and coding loops, the approval gate.

  \<^bold>\<open>Bounds and fuel.\<close> Only the JSON reader has fuel: \<open>2 * length s + 2\<close> calls for a text \<open>s\<close>,
  enough since two calls in a row never leave the text as it is, and the depth of 10000 at
  which Go's decoder gives up. All other loops are structural, have a measure, or are \<open>go_loop\<close>s
  whose return is a theorem.

  \<^bold>\<open>What is left out.\<close> A node is a total function on the state it gets and the world: a node
  that panics or never returns is not modelled. Values are not references: \<open>Clone\<close> copies the
  map of a state and is the identity here, so two snapshots that share a nested slice or map
  are not told apart from two that do not. A nil state map and an empty one are one value, since
  every reading agrees on them. Floats are the finite ones, without a negative zero. The texts of
  JSON and driver errors are not kept. For MySQL and SQLite the set-up of the connection, the
  schema and its migrations are left out; a transaction is one step under the row lock, and ids
  compare by their bytes. Goroutines appear by their effects: the heartbeat as the ticks that
  fall into a node call. The modules of marspi-core (the agent loop, model providers, tool
  registries, conversations) are parameters, the records \<open>Core\<close>, \<open>LLM\<close> and \<open>Env\<close>.
  \<open>Samples\<close> and \<open>PresetSamples\<close> hold the concrete worlds on which hypotheses are shown to be
  satisfiable.
\<close>

end
